(* ===== verification/Prelude.thy ===== *)
theory Prelude
  imports Complex_Main "HOL-Library.List_Lexorder" "HOL-Library.Char_ord" "HOL-Library.Sublist"
    "HOL-Library.Multiset"
begin

text \<open>
  The Python semantics the components share: string operations of \<open>str\<close>
  (\<open>lower\<close>, \<open>isdigit\<close>, \<open>strip\<close>, \<open>split\<close>, the \<open>in\<close> test, \<open>str()\<close> and the
  \<open>:0Nd\<close> format), the number conversions \<open>int()\<close> and \<open>round()\<close> of a float,
  the \<open>ntpath\<close> operations \<open>basename\<close>, \<open>join\<close> and \<open>splitext\<close> the code runs on
  (the repository runs on Windows shares), and the dictionary built by a
  comprehension.  Strings are \<open>char list\<close>s; only ASCII is modelled, so \<open>lower\<close>
  and \<open>isdigit\<close> act on ASCII letters and digits.  Python floats are \<open>real\<close>s:
  rounding errors of binary floats are not modelled.
\<close>

named_theorems py_str "characteristic facts of the Python string model"

type_synonym path = string

section \<open>Characters and strings\<close>

definition py_isspace :: "char \<Rightarrow> bool" where
  "py_isspace c \<longleftrightarrow> of_char c \<in> {9, 10, 11, 12, 13, 28, 29, 30, 31, 32 :: nat}"

definition py_lower_char :: "char \<Rightarrow> char" where
  "py_lower_char c =
     (if CHR ''A'' \<le> c \<and> c \<le> CHR ''Z'' then char_of (of_char c + (32::nat)) else c)"

definition py_lower :: "string \<Rightarrow> string" where
  "py_lower s = map py_lower_char s"

definition py_isdigit_char :: "char \<Rightarrow> bool" where
  "py_isdigit_char c \<longleftrightarrow> CHR ''0'' \<le> c \<and> c \<le> CHR ''9''"

text \<open>\<open>str.isdigit\<close>: false on the empty string.\<close>

definition py_isdigit :: "string \<Rightarrow> bool" where
  "py_isdigit s \<longleftrightarrow> s \<noteq> [] \<and> list_all py_isdigit_char s"

definition py_strip :: "string \<Rightarrow> string" where
  "py_strip s = rev (dropWhile py_isspace (rev (dropWhile py_isspace s)))"

text \<open>\<open>s.strip(c)\<close> for a one-character argument.\<close>

definition py_strip_char :: "char \<Rightarrow> string \<Rightarrow> string" where
  "py_strip_char c s = rev (dropWhile (\<lambda>x. x = c) (rev (dropWhile (\<lambda>x. x = c) s)))"

text \<open>\<open>s.split(d)\<close> for a one-character separator: empty fields are kept.\<close>

fun py_split_by :: "(char \<Rightarrow> bool) \<Rightarrow> string \<Rightarrow> string list" where
  "py_split_by d [] = [[]]"
| "py_split_by d (c # cs) =
     (if d c then [] # py_split_by d cs
      else (case py_split_by d cs of w # ws \<Rightarrow> (c # w) # ws | [] \<Rightarrow> [[c]]))"

definition py_split_on :: "char \<Rightarrow> string \<Rightarrow> string list" where
  "py_split_on sep s = py_split_by (\<lambda>c. c = sep) s"

text \<open>\<open>s.split()\<close> without argument: runs of white space separate, no empty field.\<close>

definition py_split_ws :: "string \<Rightarrow> string list" where
  "py_split_ws s = filter (\<lambda>w. w \<noteq> []) (py_split_by py_isspace s)"

text \<open>\<open>needle in hay\<close> on strings, scanning the start positions from the left.\<close>

fun py_contains :: "string \<Rightarrow> string \<Rightarrow> bool" where
  "py_contains n [] \<longleftrightarrow> n = []"
| "py_contains n (c # cs) \<longleftrightarrow> prefix n (c # cs) \<or> py_contains n cs"

section \<open>Numbers and their decimal strings\<close>

definition digit_char :: "nat \<Rightarrow> char" where
  "digit_char d = ''0123456789'' ! d"

definition digit_val :: "char \<Rightarrow> nat" where
  "digit_val c = of_char c - 48"

text \<open>\<open>str(n)\<close> of a natural number.\<close>

fun py_str_nat :: "nat \<Rightarrow> string" where
  "py_str_nat n =
     (if n < 10 then [digit_char n] else py_str_nat (n div 10) @ [digit_char (n mod 10)])"

declare py_str_nat.simps [simp del]

definition py_str_int :: "int \<Rightarrow> string" where
  "py_str_int i = (if i < 0 then CHR ''-'' # py_str_nat (nat (- i)) else py_str_nat (nat i))"

definition zero_pad :: "nat \<Rightarrow> string \<Rightarrow> string" where
  "zero_pad w s = replicate (w - length s) (CHR ''0'') @ s"

text \<open>\<open>f"{i:0wd}"\<close>: the width counts the sign, the zeros go after it.\<close>

definition py_format_0d :: "nat \<Rightarrow> int \<Rightarrow> string" where
  "py_format_0d w i =
     (if i < 0 then CHR ''-'' # zero_pad (w - 1) (py_str_nat (nat (- i)))
      else zero_pad w (py_str_nat (nat i)))"

text \<open>The value of a string of decimal digits (\<open>int(s)\<close> once \<open>s.isdigit()\<close>).\<close>

definition nat_of_digits :: "string \<Rightarrow> nat" where
  "nat_of_digits s = foldl (\<lambda>n c. 10 * n + digit_val c) 0 s"

text \<open>
  \<open>int(s)\<close> of a string: surrounding white space, an optional sign and ASCII digits
  (the digit-group underscores Python also accepts are not modelled).
\<close>

definition py_int_of_str :: "string \<Rightarrow> int option" where
  "py_int_of_str s =
     (let t = py_strip s in
      if t \<noteq> [] \<and> hd t = CHR ''-'' then
        (if py_isdigit (tl t) then Some (- int (nat_of_digits (tl t))) else None)
      else if t \<noteq> [] \<and> hd t = CHR ''+'' then
        (if py_isdigit (tl t) then Some (int (nat_of_digits (tl t))) else None)
      else if py_isdigit t then Some (int (nat_of_digits t)) else None)"

text \<open>
  \<open>float(s)\<close> of a decimal literal \<open>[+-]digits[.digits]\<close> (what ffprobe prints);
  exponents, \<open>inf\<close> and \<open>nan\<close> are not modelled and give \<open>None\<close>.
\<close>

definition py_float :: "string \<Rightarrow> real option" where
  "py_float s =
     (let t = py_strip s;
          u = (if t \<noteq> [] \<and> (hd t = CHR ''-'' \<or> hd t = CHR ''+'') then tl t else t);
          ip = takeWhile py_isdigit_char u; rest = drop (length ip) u;
          fp = (if rest \<noteq> [] \<and> hd rest = CHR ''.'' then tl rest else [])
      in if (rest = [] \<or> (hd rest = CHR ''.'' \<and> list_all py_isdigit_char fp)) \<and> (ip \<noteq> [] \<or> fp \<noteq> [])
         then Some ((if t \<noteq> [] \<and> hd t = CHR ''-'' then -1 else 1) *
                    (of_nat (nat_of_digits ip) + of_nat (nat_of_digits fp) / 10 ^ length fp))
         else None)"

text \<open>\<open>int(x)\<close> of a float truncates towards zero; \<open>round(x)\<close> rounds half to even.\<close>

definition py_trunc :: "real \<Rightarrow> int" where
  "py_trunc x = (if 0 \<le> x then \<lfloor>x\<rfloor> else \<lceil>x\<rceil>)"

definition py_round :: "real \<Rightarrow> int" where
  "py_round x =
     (let f = \<lfloor>x\<rfloor>; r = x - of_int f in
      if r < 1/2 then f else if 1/2 < r then f + 1 else if even f then f else f + 1)"

section \<open>Paths (ntpath)\<close>

definition is_sep :: "char \<Rightarrow> bool" where
  "is_sep c \<longleftrightarrow> c = CHR ''/'' \<or> c = CHR 0x5C"

definition basename :: "path \<Rightarrow> string" where
  "basename p = rev (takeWhile (\<lambda>c. \<not> is_sep c) (rev p))"

definition os_join :: "path \<Rightarrow> string \<Rightarrow> path" where
  "os_join r n = (if r \<noteq> [] \<and> \<not> is_sep (last r) then r @ CHR 0x5C # n else r @ n)"

text \<open>
  The extension part of \<open>os.path.splitext\<close>: from the last dot of the file name, unless
  every character before that dot is itself a dot (\<open>.mp4\<close> has no extension).
\<close>

definition splitext_ext :: "path \<Rightarrow> string" where
  "splitext_ext p =
     (let f = basename p; t = takeWhile (\<lambda>c. c \<noteq> CHR ''.'') (rev f) in
      if length t = length f then []
      else if list_all (\<lambda>c. c = CHR ''.'') (take (length f - length t - 1) f) then []
      else CHR ''.'' # rev t)"

section \<open>Dictionaries built by a comprehension\<close>

text \<open>
  \<open>{k: v for ...}\<close>: a repeated key keeps the position of its first insertion and
  the value of its last.  The dictionary is an association list in insertion order.
\<close>

fun dict_insert :: "'k \<Rightarrow> 'v \<Rightarrow> ('k \<times> 'v) list \<Rightarrow> ('k \<times> 'v) list" where
  "dict_insert k v [] = [(k, v)]"
| "dict_insert k v ((k', v') # d) =
     (if k = k' then (k, v) # d else (k', v') # dict_insert k v d)"

definition dict_of_list :: "('k \<times> 'v) list \<Rightarrow> ('k \<times> 'v) list" where
  "dict_of_list kvs = foldl (\<lambda>d (k, v). dict_insert k v d) [] kvs"

text \<open>
  The position \<open>xs[i]\<close> reads in a list of length \<open>n\<close>: a negative index counts
  from the end; \<open>None\<close> where Python raises \<open>IndexError\<close>.
\<close>

definition py_index :: "nat \<Rightarrow> int \<Rightarrow> nat option" where
  "py_index n i =
     (if 0 \<le> i \<and> i < int n then Some (nat i)
      else if - int n \<le> i \<and> i < 0 then Some (nat (int n + i))
      else None)"

section \<open>Shared lemmas\<close>

lemma py_contains_iff_sublist [py_str]: "py_contains n h \<longleftrightarrow> sublist n h"
  by (induction h) (auto simp: sublist_Cons_right)

lemma less_10_cases: "(d::nat) < 10 \<Longrightarrow> d = 0 \<or> d = 1 \<or> d = 2 \<or> d = 3 \<or> d = 4 \<or> d = 5 \<or> d = 6 \<or> d = 7 \<or> d = 8 \<or> d = 9"
  by arith

lemma digit_val_digit_char [simp]: "d < 10 \<Longrightarrow> digit_val (digit_char d) = d"
  by (drule less_10_cases) (auto simp: digit_val_def digit_char_def)

lemma py_isdigit_char_digit_char [simp]: "d < 10 \<Longrightarrow> py_isdigit_char (digit_char d)"
  by (drule less_10_cases) (auto simp: py_isdigit_char_def digit_char_def)

lemma py_str_nat_nonempty [simp]: "py_str_nat n \<noteq> []"
  by (subst py_str_nat.simps) simp

lemma py_str_nat_digits: "list_all py_isdigit_char (py_str_nat n)"
proof (induction n rule: py_str_nat.induct)
  case (1 n)
  then show ?case by (subst py_str_nat.simps) simp
qed

lemma py_isdigit_py_str_nat [py_str]: "py_isdigit (py_str_nat n)"
  by (simp add: py_isdigit_def py_str_nat_digits)

lemma nat_of_digits_snoc [simp]: "nat_of_digits (s @ [c]) = 10 * nat_of_digits s + digit_val c"
  by (simp add: nat_of_digits_def)

lemma nat_of_digits_py_str_nat [py_str]: "nat_of_digits (py_str_nat n) = n"
proof (induction n rule: py_str_nat.induct)
  case (1 n)
  then show ?case by (subst py_str_nat.simps) (simp add: nat_of_digits_def)
qed

lemma length_zero_pad [simp]: "length (zero_pad w s) = max w (length s)"
  by (simp add: zero_pad_def)

lemma nat_of_digits_zero_prefix: "nat_of_digits (replicate k (CHR ''0'') @ s) = nat_of_digits s"
proof -
  have "foldl (\<lambda>n c. 10 * n + digit_val c) 0 (replicate k (CHR ''0'')) = 0"
    by (induction k) (simp_all add: digit_val_def)
  then show ?thesis by (simp add: nat_of_digits_def)
qed

lemma nat_of_digits_zero_pad [py_str]: "nat_of_digits (zero_pad w s) = nat_of_digits s"
  by (simp add: zero_pad_def nat_of_digits_zero_prefix)

lemma dict_insert_keys: "fst ` set (dict_insert k v d) = insert k (fst ` set d)"
  by (induction k v d rule: dict_insert.induct) auto

lemma distinct_dict_insert: "distinct (map fst d) \<Longrightarrow> distinct (map fst (dict_insert k v d))"
  by (induction k v d rule: dict_insert.induct) (auto simp: dict_insert_keys)

lemma dict_insert_fresh: "k \<notin> fst ` set d \<Longrightarrow> dict_insert k v d = d @ [(k, v)]"
  by (induction k v d rule: dict_insert.induct) auto

lemma foldl_dict_insert_distinct:
  "distinct (map fst d) \<Longrightarrow> distinct (map fst (foldl (\<lambda>d (k, v). dict_insert k v d) d kvs))"
proof (induction kvs arbitrary: d)
  case (Cons kv kvs)
  then show ?case by (cases kv) (simp add: distinct_dict_insert)
qed simp

lemma distinct_dict_of_list [simp]: "distinct (map fst (dict_of_list kvs))"
  by (simp add: dict_of_list_def foldl_dict_insert_distinct)

lemma foldl_dict_insert_keys:
  "fst ` set (foldl (\<lambda>d (k, v). dict_insert k v d) d kvs) = fst ` set d \<union> fst ` set kvs"
proof (induction kvs arbitrary: d)
  case (Cons kv kvs)
  then show ?case by (cases kv) (simp add: dict_insert_keys)
qed simp

lemma keys_dict_of_list [simp]: "fst ` set (dict_of_list kvs) = fst ` set kvs"
  by (simp add: dict_of_list_def foldl_dict_insert_keys)

lemma foldl_dict_insert_fresh:
  "distinct (map fst (d @ kvs)) \<Longrightarrow> foldl (\<lambda>d (k, v). dict_insert k v d) d kvs = d @ kvs"
proof (induction kvs arbitrary: d)
  case (Cons kv kvs)
  then show ?case by (cases kv) (simp add: dict_insert_fresh)
qed simp

lemma dict_of_list_distinct: "distinct (map fst kvs) \<Longrightarrow> dict_of_list kvs = kvs"
  using foldl_dict_insert_fresh [of "[]" kvs] by (simp add: dict_of_list_def)

lemma py_trunc_of_int [simp]: "py_trunc (of_int i) = i"
  by (simp add: py_trunc_def)

lemma py_isdigit_char_of_char: "py_isdigit_char c \<longleftrightarrow> 48 \<le> (of_char c :: nat) \<and> (of_char c :: nat) \<le> 57"
  by (simp add: py_isdigit_char_def less_eq_char_def)

lemma py_isdigit_char_not_space: "py_isdigit_char c \<Longrightarrow> \<not> py_isspace c"
  by (auto simp: py_isdigit_char_of_char py_isspace_def)

lemma py_strip_no_space: "list_all (\<lambda>c. \<not> py_isspace c) s \<Longrightarrow> py_strip s = s"
proof -
  assume h: "list_all (\<lambda>c. \<not> py_isspace c) s"
  then have "dropWhile py_isspace s = s"
    by (cases s) (simp_all)
  moreover from h have "dropWhile py_isspace (rev s) = rev s"
    by (cases "rev s") (auto simp: list_all_iff dest: arg_cong [where f = set])
  ultimately show ?thesis by (simp add: py_strip_def)
qed

lemma py_str_int_no_space: "list_all (\<lambda>c. \<not> py_isspace c) (py_str_int i)"
proof -
  have "list_all (\<lambda>c. \<not> py_isspace c) (py_str_nat n)" for n
    using py_str_nat_digits [of n] by (auto simp: list_all_iff py_isdigit_char_not_space)
  then show ?thesis by (simp add: py_str_int_def py_isspace_def)
qed

lemma hd_py_str_nat: "hd (py_str_nat n) \<noteq> CHR ''-'' \<and> hd (py_str_nat n) \<noteq> CHR ''+''"
proof -
  have "py_isdigit_char (hd (py_str_nat n))"
    using py_str_nat_digits [of n] py_str_nat_nonempty [of n]
    by (cases "py_str_nat n") auto
  then show ?thesis by (auto simp: py_isdigit_char_def)
qed

lemma py_int_of_str_py_str_int [py_str]: "py_int_of_str (py_str_int i) = Some i"
proof (cases "i < 0")
  case True
  then show ?thesis
    using py_isdigit_py_str_nat [of "nat (- i)"] py_str_int_no_space [of i]
    by (simp add: py_int_of_str_def py_strip_no_space py_str_int_def nat_of_digits_py_str_nat)
next
  case False
  then show ?thesis
    using hd_py_str_nat [of "nat i"] py_isdigit_py_str_nat [of "nat i"] py_str_int_no_space [of i]
    by (simp add: py_int_of_str_def py_strip_no_space py_str_int_def nat_of_digits_py_str_nat)
qed

lemma py_split_by_none: "\<not> list_ex d a \<Longrightarrow> py_split_by d a = [a]"
  by (induction a) auto

lemma py_split_by_append: "\<not> list_ex d a \<Longrightarrow> d x \<Longrightarrow> py_split_by d (a @ x # b) = a # py_split_by d b"
  by (induction a) auto

lemma dict_insert_subset: "set (dict_insert k v d) \<subseteq> insert (k, v) (set d)"
  by (induction k v d rule: dict_insert.induct) auto

lemma foldl_dict_insert_subset:
  "set (foldl (\<lambda>d (k, v). dict_insert k v d) d kvs) \<subseteq> set d \<union> set kvs"
proof (induction kvs arbitrary: d)
  case (Cons kv kvs)
  then show ?case using dict_insert_subset by (cases kv) fastforce
qed simp

lemma set_dict_of_list_subset: "set (dict_of_list kvs) \<subseteq> set kvs"
  using foldl_dict_insert_subset [of "[]" kvs] by (simp add: dict_of_list_def)

lemma sort_key_inj_mset:
  assumes "mset xs = mset ys" and "inj_on f (set xs)"
  shows "sort_key f xs = sort_key f ys"
proof (rule properties_for_sort_key)
  show "mset (sort_key f ys) = mset xs" using assms(1) by simp
  show "sorted (map f (sort_key f ys))" by (rule sorted_sort_key)
  have sets: "set (sort_key f ys) = set xs" using assms(1) by (metis mset_sort set_mset_mset)
  fix k assume k: "k \<in> set (sort_key f ys)"
  have "filter (\<lambda>x. f k = f x) zs = filter (HOL.eq k) zs" if "set zs \<subseteq> set xs" for zs
    using that k sets assms(2) by (auto intro!: filter_cong dest: inj_onD)
  then have "filter (\<lambda>x. f k = f x) (sort_key f ys) = filter (HOL.eq k) (sort_key f ys)"
       and "filter (\<lambda>x. f k = f x) xs = filter (HOL.eq k) xs"
    using sets by auto
  moreover have "filter (HOL.eq k) (sort_key f ys) = filter (HOL.eq k) xs"
    using assms(1) by (metis mset_sort replicate_count_mset_eq_filter_eq)
  ultimately show "filter (\<lambda>x. f k = f x) (sort_key f ys) = filter (\<lambda>x. f k = f x) xs" by simp
qed

lemma set_map_filter_eq: "set (List.map_filter f xs) = {y. Some y \<in> f ` set xs}"
  by (induction xs) (auto split: option.splits)

lemma those_map_Some: "\<forall>x \<in> set xs. f x = Some (g x) \<Longrightarrow> those (map f xs) = Some (map g xs)"
  by (induction xs) auto

lemma find_map_option: "find P (map g xs) = map_option g (find (P \<circ> g) xs)"
  by (induction xs) auto

lemma subseq_set_subset: "subseq xs ys \<Longrightarrow> set xs \<subseteq> set ys"
  by (induction rule: list_emb.induct) auto

lemma subseq_sorted_wrt: "subseq xs ys \<Longrightarrow> sorted_wrt P ys \<Longrightarrow> sorted_wrt P xs"
  by (induction rule: list_emb.induct) (auto dest: subseq_set_subset)

lemma py_index_less [simp]: "py_index n i = Some k \<Longrightarrow> k < n"
  by (auto simp: py_index_def split: if_splits)

end
