(* ===== verification/Probe.thy ===== *)
theory Probe
  imports Prelude
begin

text \<open>
  Metadata Probe.  The duration of a video is asked of an external tool: \<open>ffprobe\<close>
  (\<open>ffprobe_duration_seconds\<close> in \<^verbatim>\<open>src/preprocess_data/update_data.py\<close>,
  \<open>get_video_duration\<close> in \<^verbatim>\<open>src/main/module3.py\<close> and its copy in
  \<^verbatim>\<open>src/main/module4.py\<close>) or moviepy's \<open>VideoFileClip\<close> (the allocator of
  \<^verbatim>\<open>module3.py\<close>).  The tool is an oracle: \<open>ffprobe_run p\<close> is the text the
  call reads back for path \<open>p\<close>, \<open>None\<close> when \<open>subprocess.run\<close> raises (binary
  missing, timeout).  Every failure becomes a sentinel, never an exception: \<open>None\<close>
  or the string \<open>0:00\<close>.  Durations are written as \<open>M:SS\<close>; \<open>parse_mmss\<close> reads
  that column back and is the inverse of both writers.
\<close>

type_synonym tool_run = "path \<Rightarrow> string option"

definition ffprobe_duration_seconds :: "tool_run \<Rightarrow> path \<Rightarrow> real option" where
  "ffprobe_duration_seconds ffprobe_run file_path =
     (case ffprobe_run file_path of None \<Rightarrow> None | Some out \<Rightarrow> py_float (py_strip out))"

text \<open>\<open>f"{s//60}:{s%60:02d}"\<close> of an integer number of seconds.\<close>

definition min_sec_str :: "int \<Rightarrow> string" where
  "min_sec_str s = py_str_int (s div 60) @ CHR '':'' # py_format_0d 2 (s mod 60)"

definition format_mmss :: "real \<Rightarrow> string" where
  "format_mmss seconds = min_sec_str (py_trunc seconds)"

definition get_video_duration :: "tool_run \<Rightarrow> path \<Rightarrow> string" where
  "get_video_duration ffprobe_run file_path =
     (case ffprobe_duration_seconds ffprobe_run file_path of
        None \<Rightarrow> ''0:00''
      | Some duration \<Rightarrow> min_sec_str (py_trunc duration))"

text \<open>The copy of \<open>get_video_duration\<close> in \<^verbatim>\<open>src/main/module4.py\<close>, the one \<open>find_first_vid\<close> calls.\<close>

definition get_video_duration4 :: "tool_run \<Rightarrow> path \<Rightarrow> string" where
  "get_video_duration4 ffprobe_run file_path =
     (case ffprobe_duration_seconds ffprobe_run file_path of
        None \<Rightarrow> ''0:00''
      | Some duration \<Rightarrow> min_sec_str (py_trunc duration))"

text \<open>
  The allocator reads the duration through moviepy and rounds it (half to even)
  instead of truncating it: \<open>int(round(video.duration))\<close>.
\<close>

definition clip_duration_str :: "real option \<Rightarrow> string" where
  "clip_duration_str d =
     (case d of None \<Rightarrow> ''0:00'' | Some x \<Rightarrow> min_sec_str (py_round x))"

text \<open>Reading an \<open>M:SS\<close> cell back into seconds.\<close>

definition parse_mmss :: "string \<Rightarrow> int option" where
  "parse_mmss s =
     (case py_split_on CHR '':'' s of
        [m, ss] \<Rightarrow>
          (if length ss = 2 \<and> py_isdigit ss \<and> nat_of_digits ss < 60
           then map_option (\<lambda>mi. 60 * mi + int (nat_of_digits ss)) (py_int_of_str m)
           else None)
      | _ \<Rightarrow> None)"

subsection \<open>Decimal fields of \<open>M:SS\<close>\<close>

lemma length_py_str_nat_le2: "n < 100 \<Longrightarrow> length (py_str_nat n) \<le> 2"
proof -
  assume "n < 100"
  then have "n div 10 < 10" by (simp add: div_less_iff_less_mult)
  then show ?thesis by (simp add: py_str_nat.simps [of n] py_str_nat.simps [of "n div 10"])
qed

lemma colon_not_digit: "\<not> py_isdigit_char CHR '':''"
  by (simp add: py_isdigit_char_def)

lemma colon_notin_py_str_int: "\<not> list_ex (\<lambda>c. c = CHR '':'') (py_str_int i)"
proof -
  have "\<not> list_ex (\<lambda>c. c = CHR '':'') (py_str_nat n)" for n
    using py_str_nat_digits [of n] colon_not_digit by (auto simp: list_all_iff list_ex_iff)
  then show ?thesis by (simp add: py_str_int_def)
qed

lemma seconds_field:
  assumes "0 \<le> k" "k < 60"
  shows "length (py_format_0d 2 k) = 2 \<and> py_isdigit (py_format_0d 2 k)
         \<and> int (nat_of_digits (py_format_0d 2 k)) = k"
proof -
  have len: "length (py_str_nat (nat k)) \<le> 2" using assms by (intro length_py_str_nat_le2) simp
  have "list_all py_isdigit_char (zero_pad 2 (py_str_nat (nat k)))"
    using py_str_nat_digits [of "nat k"]
    by (auto simp: zero_pad_def py_isdigit_char_def list_all_iff set_replicate_conv_if)
  then show ?thesis using assms len
    by (simp add: py_format_0d_def py_isdigit_def nat_of_digits_zero_pad nat_of_digits_py_str_nat,
        simp add: zero_pad_def)
qed

lemma min_sec_str_split: "py_split_on CHR '':'' (min_sec_str s) = [py_str_int (s div 60), py_format_0d 2 (s mod 60)]"
proof -
  have "\<not> list_ex (\<lambda>c. c = CHR '':'') (py_format_0d 2 (s mod 60))"
    using seconds_field [of "s mod 60"] colon_not_digit by (auto simp: py_isdigit_def list_all_iff list_ex_iff)
  then show ?thesis
    by (simp add: min_sec_str_def py_split_on_def py_split_by_append colon_notin_py_str_int py_split_by_none)
qed

lemma parse_min_sec_str: "parse_mmss (min_sec_str s) = Some s"
proof -
  have m: "0 \<le> s mod 60" "s mod 60 < 60" by simp_all
  note f = seconds_field [OF m]
  then have "nat_of_digits (py_format_0d 2 (s mod 60)) < 60" using m by linarith
  with f show ?thesis
    by (simp add: parse_mmss_def min_sec_str_split py_int_of_str_py_str_int)
qed


subsection \<open>Properties of the probe\<close>

text \<open>
  C1: the \<open>M:SS\<close> string \<open>format_mmss\<close> writes into the ledger reads back as the
  whole number of seconds \<open>int(seconds)\<close>, for every float, negative ones included;
  its seconds field is always two digits below 60.
\<close>

theorem format_mmss_roundtrip: "parse_mmss (format_mmss d) = Some (py_trunc d)"
  by (simp add: format_mmss_def parse_min_sec_str)

text \<open>
  C2: \<open>get_video_duration\<close> never raises: when the tool call or the float parse fails
  it returns the sentinel \<open>0:00\<close>, which reads back as 0 seconds, and otherwise the
  truncated duration the tool printed.
\<close>

theorem get_video_duration_total:
  "parse_mmss (get_video_duration ffprobe_run p) =
     Some (case ffprobe_duration_seconds ffprobe_run p of None \<Rightarrow> 0 | Some d \<Rightarrow> py_trunc d)"
proof (cases "ffprobe_duration_seconds ffprobe_run p")
  case None
  have "parse_mmss ''0:00'' = Some 0"
    using parse_min_sec_str [of 0]
    by (simp add: min_sec_str_def py_str_int_def py_format_0d_def zero_pad_def py_str_nat.simps digit_char_def)
  with None show ?thesis by (simp add: get_video_duration_def)
next
  case (Some d)
  then show ?thesis by (simp add: get_video_duration_def parse_min_sec_str)
qed

lemma get_video_duration4_eq: "get_video_duration4 = get_video_duration"
  by (intro ext) (simp add: get_video_duration4_def get_video_duration_def)

end
