(* ===== verification/Scanner.thy ===== *)
theory Scanner
  imports Probe
begin

text \<open>
  Asset Scanner.  A directory is the list of its entries in the order the operating
  system lists them; \<open>os.walk\<close> (top-down, the default) yields each directory's path
  and file names, then walks its sub-directories in listing order.  The scanners of the
  repository are \<open>get_file_list\<close> (\<^verbatim>\<open>src/preprocess_data/update_data.py\<close>, which
  skips the files of any directory whose name contains \<open>quay\<close>), the walk inlined
  in the allocator of \<^verbatim>\<open>src/main/module3.py\<close> (\<open>spidey_all_files\<close>, sorted by the
  lower-cased path), and \<open>find_first_vid\<close> of \<^verbatim>\<open>src/main/module4.py\<close>, which
  looks for a folder whose name holds a number not flanked by digits.  The folder
  passed in is taken to be absolute and normalised, so \<open>os.path.abspath\<close> is the
  identity; symbolic links are not modelled.
\<close>

datatype node = File string | Dir string "node list"

fun files_of :: "node list \<Rightarrow> string list" where
  "files_of [] = []"
| "files_of (File f # cs) = f # files_of cs"
| "files_of (Dir _ _ # cs) = files_of cs"

fun walk :: "path \<Rightarrow> node list \<Rightarrow> (path \<times> string list) list"
and walk_subdirs :: "path \<Rightarrow> node list \<Rightarrow> (path \<times> string list) list" where
  "walk dirpath cs = (dirpath, files_of cs) # walk_subdirs dirpath cs"
| "walk_subdirs dirpath [] = []"
| "walk_subdirs dirpath (File _ # cs) = walk_subdirs dirpath cs"
| "walk_subdirs dirpath (Dir d ds # cs) = walk (os_join dirpath d) ds @ walk_subdirs dirpath cs"

definition VIDEO_EXTENSIONS :: "string list" where
  "VIDEO_EXTENSIONS = [''.mp4'', ''.avi'', ''.mkv'', ''.mov'']"

definition is_video_ext :: "string \<Rightarrow> bool" where
  "is_video_ext item \<longleftrightarrow> py_lower (splitext_ext item) \<in> set VIDEO_EXTENSIONS"

definition skipped_root :: "path \<Rightarrow> bool" where
  "skipped_root dirpath \<longleftrightarrow> py_contains ''quay'' (py_lower (basename dirpath))"

definition get_file_list :: "path \<Rightarrow> node list \<Rightarrow> path list" where
  "get_file_list folder_path tree =
     concat (map (\<lambda>(dirpath, files).
                    if skipped_root dirpath then []
                    else map (os_join dirpath) (filter is_video_ext files))
                 (walk folder_path tree))"

text \<open>The allocator's walk: no \<open>quay\<close> filter, sorted by the lower-cased full path.\<close>

definition spidey_all_files :: "path \<Rightarrow> node list \<Rightarrow> path list" where
  "spidey_all_files base tree =
     sort_key py_lower
       (concat (map (\<lambda>(dirpath, files). map (os_join dirpath) (filter is_video_ext files))
                    (walk base tree)))"

text \<open>
  The regular expression \<open>(?<!\d)k(?!\d)\<close> searched in a name: an occurrence of
  \<open>k\<close> neither preceded nor followed by a digit.  \<open>pd\<close> says whether the character
  before the current position is a digit.
\<close>

fun digit_bounded_at :: "string \<Rightarrow> bool \<Rightarrow> string \<Rightarrow> bool" where
  "digit_bounded_at k pd [] \<longleftrightarrow> k = [] \<and> \<not> pd"
| "digit_bounded_at k pd (c # cs) \<longleftrightarrow>
     (\<not> pd \<and> prefix k (c # cs) \<and>
        (case drop (length k) (c # cs) of [] \<Rightarrow> True | d # _ \<Rightarrow> \<not> py_isdigit_char d))
     \<or> digit_bounded_at k (py_isdigit_char c) cs"

definition digit_bounded_search :: "string \<Rightarrow> string \<Rightarrow> bool" where
  "digit_bounded_search k name = digit_bounded_at k False name"

definition video_extensions4 :: "string list" where
  "video_extensions4 = [''.mp4'', ''.avi'', ''.mkv'', ''.mov'', ''.flv'']"

definition is_video4 :: "string \<Rightarrow> bool" where
  "is_video4 file \<longleftrightarrow> list_ex (\<lambda>ext. suffix ext (py_lower file)) video_extensions4"

definition first_video :: "(path \<times> string list) list \<Rightarrow> path option" where
  "first_video w =
     (case concat (map (\<lambda>(dirpath, files). map (os_join dirpath) (filter is_video4 files)) w) of
        [] \<Rightarrow> None | p # _ \<Rightarrow> Some p)"

text \<open>
  \<open>find_first_vid\<close>: \<open>base\<close> is the listing of the base folder, \<open>None\<close> when
  \<open>os.listdir\<close> raises (the exception is caught and \<open>(None, 0)\<close> returned, here
  \<open>None\<close>).  The first video of the first matching folder that has one is returned
  with its \<open>M:SS\<close> duration.
\<close>

definition find_first_vid ::
  "tool_run \<Rightarrow> path \<Rightarrow> node list option \<Rightarrow> string \<Rightarrow> (path \<times> string) option" where
  "find_first_vid ffprobe_run base_folder base first_vd =
     (case base of
        None \<Rightarrow> None
      | Some entries \<Rightarrow>
          (let matched = [(os_join base_folder d, ds). Dir d ds \<leftarrow> entries,
                            digit_bounded_search first_vd d];
               found = concat (map (\<lambda>(folder, ds).
                         case first_video (walk folder ds) of None \<Rightarrow> [] | Some p \<Rightarrow> [p]) matched)
           in case found of
                [] \<Rightarrow> None
              | p # _ \<Rightarrow> Some (p, get_video_duration4 ffprobe_run p)))"

text \<open>
  A well-formed tree: every name is non-empty and holds no path separator (the names a
  directory listing returns).
\<close>

fun wf_names :: "node list \<Rightarrow> bool" where
  "wf_names [] = True"
| "wf_names (File f # cs) \<longleftrightarrow> f \<noteq> [] \<and> \<not> list_ex is_sep f \<and> wf_names cs"
| "wf_names (Dir d ds # cs) \<longleftrightarrow> d \<noteq> [] \<and> \<not> list_ex is_sep d \<and> wf_names ds \<and> wf_names cs"

subsection \<open>Paths built by the walk\<close>

lemma basename_no_sep: "\<not> list_ex is_sep f \<Longrightarrow> basename f = f"
proof -
  assume "\<not> list_ex is_sep f"
  then have "takeWhile (\<lambda>c. \<not> is_sep c) (rev f) = rev f"
    by (simp add: list_ex_iff)
  then show ?thesis by (simp only: basename_def rev_rev_ident)
qed

lemma basename_append_sep: "is_sep c \<Longrightarrow> \<not> list_ex is_sep f \<Longrightarrow> basename (r @ c # f) = f"
proof -
  assume c: "is_sep c" and f: "\<not> list_ex is_sep f"
  have "takeWhile (\<lambda>c. \<not> is_sep c) (rev f @ c # rev r) = rev f @ takeWhile (\<lambda>c. \<not> is_sep c) (c # rev r)"
    by (rule takeWhile_append2) (use f in \<open>simp add: list_ex_iff\<close>)
  with c show ?thesis by (simp only: basename_def rev_append rev_rev_ident) simp
qed

lemma basename_os_join [py_str]:
  "\<not> list_ex is_sep f \<Longrightarrow> r \<noteq> [] \<Longrightarrow> basename (os_join r f) = f"
proof -
  assume f: "\<not> list_ex is_sep f" and r: "r \<noteq> []"
  show ?thesis
  proof (cases "is_sep (last r)")
    case True
    then obtain r' where "r = r' @ [last r]" using r by (metis append_butlast_last_id)
    then have "os_join r f = r' @ last r # f" using True r by (simp add: os_join_def)
    then show ?thesis using True f by (simp add: basename_append_sep)
  next
    case False
    then show ?thesis using f r by (simp add: os_join_def basename_append_sep is_sep_def)
  qed
qed

lemma splitext_ext_os_join:
  "\<not> list_ex is_sep f \<Longrightarrow> r \<noteq> [] \<Longrightarrow> splitext_ext (os_join r f) = splitext_ext f"
proof -
  assume "\<not> list_ex is_sep f" "r \<noteq> []"
  moreover from \<open>\<not> list_ex is_sep f\<close> have "basename f = f"
    by (rule basename_no_sep)
  ultimately show ?thesis by (simp add: splitext_ext_def basename_os_join)
qed

lemma os_join_nonempty: "f \<noteq> [] \<Longrightarrow> os_join r f \<noteq> []"
  by (simp add: os_join_def)

lemma walk_wf:
  "wf_names cs \<Longrightarrow> d \<noteq> [] \<Longrightarrow> (r, files) \<in> set (walk d cs) \<Longrightarrow>
     r \<noteq> [] \<and> (\<forall>f \<in> set files. f \<noteq> [] \<and> \<not> list_ex is_sep f)"
  and walk_subdirs_wf:
  "wf_names cs \<Longrightarrow> d \<noteq> [] \<Longrightarrow> (r, files) \<in> set (walk_subdirs d cs) \<Longrightarrow>
     r \<noteq> [] \<and> (\<forall>f \<in> set files. f \<noteq> [] \<and> \<not> list_ex is_sep f)"
proof (induction d cs and d cs rule: walk_walk_subdirs.induct)
  case (1 d cs)
  have "\<forall>f \<in> set (files_of cs). f \<noteq> [] \<and> \<not> list_ex is_sep f"
    using "1.prems"(1) by (induction cs rule: files_of.induct) auto
  with 1 show ?case by auto
next
  case (4 d e ds cs)
  then show ?case by (auto simp: os_join_nonempty)
qed auto

lemma digit_bounded_at_contains: "digit_bounded_at k pd s \<Longrightarrow> py_contains k s"
  by (induction k pd s rule: digit_bounded_at.induct) (auto simp: py_contains_iff_sublist sublist_Cons_right)

lemma digit_bounded_search_contains: "digit_bounded_search k s \<Longrightarrow> py_contains k s"
  by (simp add: digit_bounded_search_def digit_bounded_at_contains)

subsection \<open>Properties of the scanner\<close>

text \<open>
  C3: on a well-formed tree, \<open>get_file_list\<close> lists exactly the video files (lower-cased
  extension one of \<open>.mp4 .avi .mkv .mov\<close>) of the walked directories whose own name
  does not contain \<open>quay\<close>, each joined to its directory.  In particular the files of a
  sub-directory of a \<open>quay\<close> directory are listed when its own name lacks \<open>quay\<close>.
\<close>

theorem get_file_list_videos:
  assumes "wf_names tree" and "folder_path \<noteq> []"
  shows "p \<in> set (get_file_list folder_path tree) \<longleftrightarrow>
           is_video_ext p \<and>
           (\<exists>dir files. (dir, files) \<in> set (walk folder_path tree) \<and> \<not> skipped_root dir \<and>
              basename p \<in> set files \<and> p = os_join dir (basename p))"
proof
  assume "p \<in> set (get_file_list folder_path tree)"
  then obtain dir files f where w: "(dir, files) \<in> set (walk folder_path tree)"
    and ns: "\<not> skipped_root dir" and f: "f \<in> set files" "is_video_ext f" and p: "p = os_join dir f"
    by (auto simp: get_file_list_def split: if_splits)
  from walk_wf [OF assms w] f have "dir \<noteq> []" "\<not> list_ex is_sep f" by auto
  then have b: "basename p = f" and v: "is_video_ext p"
    using p f by (simp_all add: basename_os_join is_video_ext_def splitext_ext_os_join)
  with w ns f p show "is_video_ext p \<and>
      (\<exists>dir files. (dir, files) \<in> set (walk folder_path tree) \<and> \<not> skipped_root dir \<and>
         basename p \<in> set files \<and> p = os_join dir (basename p))"
    by (intro conjI exI [of _ dir] exI [of _ files]) simp_all
next
  assume "is_video_ext p \<and>
      (\<exists>dir files. (dir, files) \<in> set (walk folder_path tree) \<and> \<not> skipped_root dir \<and>
         basename p \<in> set files \<and> p = os_join dir (basename p))"
  then obtain dir files where v: "is_video_ext p" and w: "(dir, files) \<in> set (walk folder_path tree)"
    and ns: "\<not> skipped_root dir" and f: "basename p \<in> set files" and p: "p = os_join dir (basename p)"
    by blast
  from walk_wf [OF assms w] f have "dir \<noteq> []" "\<not> list_ex is_sep (basename p)" by auto
  with v p have "is_video_ext (basename p)"
    by (metis is_video_ext_def splitext_ext_os_join)
  with w ns f p show "p \<in> set (get_file_list folder_path tree)"
    by (force simp: get_file_list_def)
qed

text \<open>
  The \<open>quay\<close> test looks at the name of the directory being listed only: an example
  where the files directly inside a \<open>quay\<close> directory are skipped and the files of its
  sub-directory are catalogued.
\<close>

lemma get_file_list_quay_subdir:
  "get_file_list ''V:'' [Dir ''quay'' [File ''a.mp4'', Dir ''raw'' [File ''b.mp4'']]] =
     [os_join (os_join (os_join ''V:'' ''quay'') ''raw'') ''b.mp4'']"
  by code_simp

theorem get_file_list_videos_witness:
  "wf_names [File ''a.mp4''] \<and> ''V:'' \<noteq> [] \<and>
   (os_join ''V:'' ''a.mp4'' \<in> set (get_file_list ''V:'' [File ''a.mp4'']) \<longleftrightarrow>
      is_video_ext (os_join ''V:'' ''a.mp4'') \<and>
      (\<exists>dir files. (dir, files) \<in> set (walk ''V:'' [File ''a.mp4'']) \<and> \<not> skipped_root dir \<and>
         basename (os_join ''V:'' ''a.mp4'') \<in> set files \<and>
         os_join ''V:'' ''a.mp4'' = os_join dir (basename (os_join ''V:'' ''a.mp4''))))"
proof -
  have w: "wf_names [File ''a.mp4'']" by code_simp
  have n: "''V:'' \<noteq> []" by simp
  show ?thesis using get_file_list_videos [OF w n, of "os_join ''V:'' ''a.mp4''"] w n by simp
qed

end
