(* ===== verification/Ledger.thy ===== *)
theory Ledger
  imports Scanner
begin

text \<open>
  Ledger and Ledger Synchronizer (rebuild mode), \<^verbatim>\<open>src/preprocess_data/update_data.py\<close>.
  The ledger is a CSV table with the columns \<open>stt, file_path, duration,
  lastest_used_value\<close>.  A row is a record of the four cells, \<open>None\<close> for an empty
  (NA) cell or a column the file does not have; columns outside the four are not
  modelled.  The persisted file is absent, unreadable (\<open>pd.read_csv\<close> raises), or a
  table with its header.  The environment of a run is the folder's tree, the ffprobe
  oracle, the modification times and the clock.  \<open>sync\<close> returns the file it writes
  and the two path sets it logs as added and removed.
\<close>

record ledger_row =
  stt :: "int option"
  file_path :: "path option"
  duration :: "string option"
  lastest_used_value :: "int option"

datatype ledger_file = NoFile | Unreadable | Table "string list" "ledger_row list"

definition ledger_cols :: "string list" where
  "ledger_cols = [''stt'', ''file_path'', ''duration'', ''lastest_used_value'']"

record fs_env =
  tree :: "node list"
  ffprobe_run :: tool_run
  mtime :: "path \<Rightarrow> real option"
  clock :: real

definition get_creation_age_seconds :: "real \<Rightarrow> (path \<Rightarrow> real option) \<Rightarrow> path \<Rightarrow> int option" where
  "get_creation_age_seconds t_now mtimes fp =
     (case mtimes fp of None \<Rightarrow> None | Some t \<Rightarrow> Some (py_trunc (t_now - t)))"

text \<open>\<open>read_existing_csv\<close>: a missing column is recreated empty (\<open>pd.NA\<close>).\<close>

definition project_row :: "string list \<Rightarrow> ledger_row \<Rightarrow> ledger_row" where
  "project_row hdr r =
     \<lparr>stt = (if ''stt'' \<in> set hdr then stt r else None),
      file_path = (if ''file_path'' \<in> set hdr then file_path r else None),
      duration = (if ''duration'' \<in> set hdr then duration r else None),
      lastest_used_value = (if ''lastest_used_value'' \<in> set hdr then lastest_used_value r else None)\<rparr>"

definition read_existing_csv :: "ledger_file \<Rightarrow> ledger_row list" where
  "read_existing_csv f =
     (case f of NoFile \<Rightarrow> [] | Unreadable \<Rightarrow> [] | Table hdr rows \<Rightarrow> map (project_row hdr) rows)"

definition write_csv :: "ledger_row list \<Rightarrow> ledger_file" where
  "write_csv rows = Table ledger_cols rows"

text \<open>\<open>x or ""\<close>: an age of 0 seconds is falsy and is written as an empty cell too.\<close>

definition or_empty :: "int option \<Rightarrow> int option" where
  "or_empty a = (case a of Some n \<Rightarrow> if n = 0 then None else Some n | None \<Rightarrow> None)"

text \<open>The sort key \<open>os.path.basename(p).lower()\<close>.\<close>

definition name_key :: "path \<Rightarrow> string" where
  "name_key p = py_lower (basename p)"

definition row_key :: "ledger_row \<Rightarrow> string" where
  "row_key r = name_key (case file_path r of Some p \<Rightarrow> p | None \<Rightarrow> [])"

definition build_row :: "fs_env \<Rightarrow> path \<Rightarrow> ledger_row list" where
  "build_row env fp =
     (case ffprobe_duration_seconds (ffprobe_run env) fp of
        None \<Rightarrow> []
      | Some dur \<Rightarrow>
          if dur = 0 \<or> dur < 60 then []
          else [\<lparr>stt = None, file_path = Some fp, duration = Some (format_mmss dur),
                 lastest_used_value =
                   or_empty (get_creation_age_seconds (clock env) (mtime env) fp)\<rparr>])"

definition build_rows :: "fs_env \<Rightarrow> path \<Rightarrow> ledger_row list" where
  "build_rows env folder =
     concat (map (build_row env) (sort_key name_key (get_file_list folder (tree env))))"

definition row_paths :: "ledger_row list \<Rightarrow> path set" where
  "row_paths rows = set (List.map_filter file_path rows)"

definition number_rows :: "ledger_row list \<Rightarrow> ledger_row list" where
  "number_rows rows = map (\<lambda>(i, r). r\<lparr>stt := Some (int i)\<rparr>) (enumerate 1 rows)"

definition sync :: "fs_env \<Rightarrow> path \<Rightarrow> ledger_file \<Rightarrow> ledger_file \<times> path set \<times> path set" where
  "sync env folder f =
     (let df_cur = read_existing_csv f;
          desired = build_rows env folder;
          desired_paths = row_paths desired;
          cur_paths = row_paths df_cur;
          to_add = desired_paths - cur_paths;
          to_remove = cur_paths - desired_paths;
          final = dict_of_list (map (\<lambda>r. (file_path r, r)) desired);
          rows = sort_key row_key (map snd final)
      in (write_csv (number_rows rows), to_add, to_remove))"

text \<open>The rows \<open>sync\<close> numbers: the dictionary's values sorted by file name.\<close>

definition rebuilt_rows :: "fs_env \<Rightarrow> path \<Rightarrow> ledger_row list" where
  "rebuilt_rows env folder =
     sort_key row_key (map snd (dict_of_list (map (\<lambda>r. (file_path r, r)) (build_rows env folder))))"

text \<open>
  The script's entry point (lines 104--109): the folder typed at the prompt, stripped of
  double then single quotes; a path that is not a directory ends the program with exit
  status 1 (\<open>Inl 1\<close>), otherwise \<open>sync\<close> runs.  \<open>is_dir\<close> answers \<open>os.path.isdir\<close>.
\<close>

definition update_data_main ::
  "fs_env \<Rightarrow> (path \<Rightarrow> bool) \<Rightarrow> string \<Rightarrow> ledger_file \<Rightarrow> nat + ledger_file \<times> path set \<times> path set" where
  "update_data_main env is_dir typed f =
     (let folder = py_strip_char (CHR 0x27) (py_strip_char (CHR 0x22) typed) in
      if \<not> is_dir folder then Inl 1 else Inr (sync env folder f))"

text \<open>
  The rebuild-mode invariant of the ledger: \<open>stt\<close> is \<open>1..N\<close> in row order, every
  row has a path, the paths are distinct, and the rows are sorted by the lower-cased
  file name.
\<close>

definition ledger_wf :: "ledger_row list \<Rightarrow> bool" where
  "ledger_wf rows \<longleftrightarrow>
     map stt rows = map (\<lambda>i. Some (int i)) [1..<length rows + 1]
     \<and> None \<notin> set (map file_path rows) \<and> distinct (map file_path rows)
     \<and> sorted (map row_key rows)"

subsection \<open>The rows of the rebuilt ledger\<close>

lemma read_write_csv [simp]: "read_existing_csv (write_csv rows) = rows"
  by (induction rows) (simp_all add: read_existing_csv_def write_csv_def project_row_def ledger_cols_def)

lemma sync_file: "fst (sync env folder f) = write_csv (number_rows (rebuilt_rows env folder))"
  by (simp add: sync_def rebuilt_rows_def Let_def)

lemma length_number_rows [simp]: "length (number_rows rows) = length rows"
  by (simp add: number_rows_def)

lemma map_stt_enumerate:
  "map stt (map (\<lambda>(i, r). r\<lparr>stt := Some (int i)\<rparr>) (enumerate n rows)) =
     map (\<lambda>i. Some (int i)) [n..<n + length rows]"
  by (induction rows arbitrary: n) (simp_all add: upt_conv_Cons del: upt_Suc)

lemma map_stt_number_rows: "map stt (number_rows rows) = map (\<lambda>i. Some (int i)) [1..<length rows + 1]"
  using map_stt_enumerate [of 1 rows] by (simp add: number_rows_def)

lemma map_number_rows_frame:
  assumes "\<And>r x. g (r\<lparr>stt := x\<rparr>) = g r"
  shows "map g (number_rows rows) = map g rows"
proof -
  have "map g (map (\<lambda>(i, r). r\<lparr>stt := Some (int i)\<rparr>) (enumerate n rows)) = map g rows" for n
    by (induction rows arbitrary: n) (simp_all add: assms)
  then show ?thesis by (simp add: number_rows_def)
qed

lemma map_file_path_number_rows [simp]: "map file_path (number_rows rows) = map file_path rows"
  by (rule map_number_rows_frame) simp

lemma map_row_key_number_rows [simp]: "map row_key (number_rows rows) = map row_key rows"
  by (rule map_number_rows_frame) (simp add: row_key_def)

lemma build_row_mem:
  "r \<in> set (build_row env fp) \<Longrightarrow>
     file_path r = Some fp \<and> (\<exists>d. ffprobe_duration_seconds (ffprobe_run env) fp = Some d \<and> 60 \<le> d
       \<and> duration r = Some (format_mmss d))"
  by (cases "ffprobe_duration_seconds (ffprobe_run env) fp") (auto simp: build_row_def split: if_splits)

lemma build_row_nonempty:
  "(\<exists>r \<in> set (build_row env fp). file_path r = Some fp) \<longleftrightarrow>
     (\<exists>d. ffprobe_duration_seconds (ffprobe_run env) fp = Some d \<and> 60 \<le> d)"
  by (cases "ffprobe_duration_seconds (ffprobe_run env) fp") (auto simp: build_row_def split: if_splits)

lemma build_rows_mem:
  "r \<in> set (build_rows env folder) \<longleftrightarrow> (\<exists>fp \<in> set (get_file_list folder (tree env)). r \<in> set (build_row env fp))"
  by (simp add: build_rows_def)

lemma path_dict_entry:
  "(k, v) \<in> set (dict_of_list (map (\<lambda>r. (file_path r, r)) ds)) \<Longrightarrow> k = file_path v \<and> v \<in> set ds"
  using set_dict_of_list_subset by fastforce

lemma map_file_path_dict:
  "map file_path (map snd (dict_of_list (map (\<lambda>r. (file_path r, r)) ds))) =
     map fst (dict_of_list (map (\<lambda>r. (file_path r, r)) ds))"
  using path_dict_entry [of _ _ ds] by (auto simp: map_eq_conv)

lemma set_rebuilt_rows: "set (rebuilt_rows env folder) \<subseteq> set (build_rows env folder)"
  using path_dict_entry by (fastforce simp: rebuilt_rows_def)

lemma distinct_rebuilt_paths: "distinct (map file_path (rebuilt_rows env folder))"
proof -
  let ?D = "dict_of_list (map (\<lambda>r. (file_path r, r)) (build_rows env folder))"
  have "mset (map file_path (rebuilt_rows env folder)) = mset (map file_path (map snd ?D))"
    by (simp only: rebuilt_rows_def mset_map mset_sort)
  moreover have "distinct (map file_path (map snd ?D))"
    by (simp only: map_file_path_dict distinct_dict_of_list)
  ultimately show ?thesis using mset_eq_imp_distinct_iff by blast
qed

lemma file_paths_rebuilt_rows:
  "file_path ` set (rebuilt_rows env folder) = file_path ` set (build_rows env folder)"
proof -
  let ?kvs = "map (\<lambda>r. (file_path r, r)) (build_rows env folder)"
  have "file_path ` set (rebuilt_rows env folder) = set (map file_path (map snd (dict_of_list ?kvs)))"
    by (simp add: rebuilt_rows_def image_image)
  also have "\<dots> = fst ` set (dict_of_list ?kvs)"
    by (simp only: map_file_path_dict set_map)
  also have "\<dots> = file_path ` set (build_rows env folder)"
    by (simp add: image_image)
  finally show ?thesis .
qed

lemma file_paths_build_rows:
  "file_path ` set (build_rows env folder) =
     Some ` {p \<in> set (get_file_list folder (tree env)).
               \<exists>d. ffprobe_duration_seconds (ffprobe_run env) p = Some d \<and> 60 \<le> d}"
    (is "?L = Some ` ?S")
proof
  show "?L \<subseteq> Some ` ?S"
  proof
    fix x assume "x \<in> ?L"
    then obtain r fp where "fp \<in> set (get_file_list folder (tree env))" "r \<in> set (build_row env fp)"
      and x: "x = file_path r" by (auto simp: build_rows_mem)
    with build_row_mem [of r env fp] show "x \<in> Some ` ?S" by auto
  qed
next
  show "Some ` ?S \<subseteq> ?L"
  proof
    fix x assume "x \<in> Some ` ?S"
    then obtain p where p: "p \<in> ?S" and x: "x = Some p" by blast
    then obtain r where "r \<in> set (build_row env p)" "file_path r = Some p"
      using build_row_nonempty [of env p] by blast
    with p x show "x \<in> ?L" by (force simp: build_rows_mem)
  qed
qed

lemma rebuilt_rows_have_paths: "None \<notin> set (map file_path (rebuilt_rows env folder))"
proof
  assume "None \<in> set (map file_path (rebuilt_rows env folder))"
  then have "None \<in> file_path ` set (build_rows env folder)"
    using file_paths_rebuilt_rows by simp
  then show False by (simp only: file_paths_build_rows) blast
qed

lemma sync_independent: "fst (sync env folder f1) = fst (sync env folder f2)"
  by (simp add: sync_file)

lemma row_paths_eq: "row_paths rows = {p. Some p \<in> file_path ` set rows}"
  by (simp add: row_paths_def set_map_filter_eq)

lemma build_row_tree [simp]: "build_row (env\<lparr>tree := t\<rparr>) = build_row env"
  by (simp add: build_row_def fun_eq_iff split: option.split)

subsection \<open>Properties of the rebuild\<close>

text \<open>
  C4: the ledger \<open>sync\<close> writes satisfies the rebuild-mode invariant whatever the
  previous ledger and the files on disk: read back, its \<open>stt\<close> column is
  \<open>1..N\<close> in row order, every row has a path, no path occurs twice, and the rows are
  sorted by lower-cased file name.
\<close>

theorem sync_ledger_wf: "ledger_wf (read_existing_csv (fst (sync env folder f)))"
proof -
  have "None \<notin> set (map file_path (rebuilt_rows env folder))"
    by (rule rebuilt_rows_have_paths)
  moreover have "sorted (map row_key (rebuilt_rows env folder))"
    by (simp add: rebuilt_rows_def sorted_sort_key)
  ultimately show ?thesis
    by (simp add: sync_file ledger_wf_def map_stt_number_rows distinct_rebuilt_paths)
qed

text \<open>
  C5: the paths of the rebuilt ledger are exactly the scanned videos whose probed
  duration is at least 60 seconds: short clips and files ffprobe cannot read are
  dropped, every other scanned video is catalogued.
\<close>

theorem sync_paths:
  "set (map file_path (read_existing_csv (fst (sync env folder f)))) =
     Some ` {p \<in> set (get_file_list folder (tree env)).
               \<exists>d. ffprobe_duration_seconds (ffprobe_run env) p = Some d \<and> 60 \<le> d}"
  by (simp add: sync_file file_paths_rebuilt_rows file_paths_build_rows)

text \<open>
  C6: the paths \<open>sync\<close> logs as added are new to the ledger, those it logs as removed
  were in it, and the new ledger's paths are the old ones minus the removed plus the
  added: the logged diff is exact.
\<close>

theorem sync_diff:
  "row_paths (read_existing_csv (fst (sync env folder f))) =
     (row_paths (read_existing_csv f) - snd (snd (sync env folder f))) \<union> fst (snd (sync env folder f))
   \<and> fst (snd (sync env folder f)) \<inter> row_paths (read_existing_csv f) = {}
   \<and> snd (snd (sync env folder f)) \<subseteq> row_paths (read_existing_csv f)"
proof -
  have "file_path ` set (number_rows (rebuilt_rows env folder)) = file_path ` set (rebuilt_rows env folder)"
    by (metis map_file_path_number_rows set_map)
  then have "row_paths (read_existing_csv (fst (sync env folder f))) = row_paths (build_rows env folder)"
    by (simp add: sync_file row_paths_eq file_paths_rebuilt_rows)
  then show ?thesis by (auto simp: sync_def Let_def)
qed

text \<open>
  C7: when the lower-cased file names of the scanned videos are pairwise distinct, the
  ledger does not depend on the order in which the file system lists the entries.
\<close>

theorem sync_walk_order:
  assumes "mset (get_file_list folder t1) = mset (get_file_list folder t2)"
    and "inj_on name_key (set (get_file_list folder t1))"
  shows "fst (sync (env\<lparr>tree := t1\<rparr>) folder f) = fst (sync (env\<lparr>tree := t2\<rparr>) folder f)"
proof -
  have "build_rows (env\<lparr>tree := t1\<rparr>) folder = build_rows (env\<lparr>tree := t2\<rparr>) folder"
    using sort_key_inj_mset [OF assms] by (simp add: build_rows_def)
  then show ?thesis by (simp add: sync_file rebuilt_rows_def)
qed

theorem sync_walk_order_witness:
  "mset (get_file_list ''V:'' [File ''a.mp4'', File ''b.mp4'']) = mset (get_file_list ''V:'' [File ''b.mp4'', File ''a.mp4''])
   \<and> inj_on name_key (set (get_file_list ''V:'' [File ''a.mp4'', File ''b.mp4'']))
   \<and> fst (sync (\<lparr>tree = [], ffprobe_run = (\<lambda>_. Some ''75''), mtime = (\<lambda>_. None), clock = 0\<rparr>\<lparr>tree := [File ''a.mp4'', File ''b.mp4'']\<rparr>) ''V:'' NoFile) =
     fst (sync (\<lparr>tree = [], ffprobe_run = (\<lambda>_. Some ''75''), mtime = (\<lambda>_. None), clock = 0\<rparr>\<lparr>tree := [File ''b.mp4'', File ''a.mp4'']\<rparr>) ''V:'' NoFile)"
proof -
  have m: "mset (get_file_list ''V:'' [File ''a.mp4'', File ''b.mp4'']) = mset (get_file_list ''V:'' [File ''b.mp4'', File ''a.mp4''])"
    by code_simp
  have i: "inj_on name_key (set (get_file_list ''V:'' [File ''a.mp4'', File ''b.mp4'']))"
    by code_simp
  show ?thesis using m i sync_walk_order [OF m i, where env = "\<lparr>tree = [], ffprobe_run = (\<lambda>_. Some ''75''), mtime = (\<lambda>_. None), clock = 0\<rparr>" and f = NoFile] by simp
qed

text \<open>
  When two videos in different folders have names equal up to case, the order
  of the directory listing decides which gets the smaller \<open>stt\<close>: the same files,
  listed in another order, give a different ledger.
\<close>

lemma sync_name_tie_order:
  "mset (get_file_list ''V:'' [Dir ''a'' [File ''X.mp4''], Dir ''b'' [File ''x.mp4'']]) =
     mset (get_file_list ''V:'' [Dir ''b'' [File ''x.mp4''], Dir ''a'' [File ''X.mp4'']])
   \<and> fst (sync \<lparr>tree = [Dir ''a'' [File ''X.mp4''], Dir ''b'' [File ''x.mp4'']],
                 ffprobe_run = (\<lambda>_. Some ''75''), mtime = (\<lambda>_. None), clock = 0\<rparr> ''V:'' NoFile) \<noteq>
     fst (sync \<lparr>tree = [Dir ''b'' [File ''x.mp4''], Dir ''a'' [File ''X.mp4'']],
                 ffprobe_run = (\<lambda>_. Some ''75''), mtime = (\<lambda>_. None), clock = 0\<rparr> ''V:'' NoFile)"
  by code_simp

text \<open>
  The \<open>lastest_used_value\<close> column is the file's age at the time of the run,
  so two runs over unchanged files one second apart write different ledgers.
\<close>

lemma sync_clock_dependent:
  "fst (sync \<lparr>tree = [File ''a.mp4''], ffprobe_run = (\<lambda>_. Some ''75''), mtime = (\<lambda>_. Some 100), clock = 160\<rparr> ''V:'' NoFile) \<noteq>
   fst (sync \<lparr>tree = [File ''a.mp4''], ffprobe_run = (\<lambda>_. Some ''75''), mtime = (\<lambda>_. Some 100), clock = 161\<rparr> ''V:'' NoFile)"
  by code_simp
end
