(* ===== verification/Allocator.thy ===== *)
theory Allocator
  imports Ledger
begin

text \<open>
  Sequence Allocator (append mode), \<open>check_and_add_next_spidey_videos\<close> of
  \<^verbatim>\<open>src/main/module3.py\<close>, and the selection of ledger entries by sequence number,
  \<open>get_list_video\<close> of the same file.  The allocator reads the last \<open>stt\<close> of the
  ledger (or, without that column, the first all-digit word of the last file name),
  the set of registered paths, and the sorted walk of the base folder; then for
  \<open>i = 1..batch_size\<close> it looks for the first file whose lower-cased name contains both
  the zero-padded number \<open>last + i\<close> and \<open>spidey\<close>, and appends a row for it unless it
  is registered.  Each append re-reads and rewrites the CSV file; the set of registered
  paths is read once, before the loop.  A failed read of the ledger at the start is an
  early return (\<open>None\<close>); a failed append is logged and skipped.
\<close>

record alloc_env =
  spidey_tree :: "node list"
  clip_duration :: "path \<Rightarrow> real option"
  alloc_mtime :: "path \<Rightarrow> real option"
  alloc_clock :: real

text \<open>Lines 22--38: \<open>None\<close> is the early return after a failed read.\<close>

definition first_number_word :: "path \<Rightarrow> int" where
  "first_number_word p =
     (case filter py_isdigit (py_split_ws (py_lower (basename p))) of
        [] \<Rightarrow> 0 | w # _ \<Rightarrow> int (nat_of_digits w))"

definition alloc_last_number :: "ledger_file \<Rightarrow> int option" where
  "alloc_last_number f =
     (case f of
        NoFile \<Rightarrow> Some 0
      | Unreadable \<Rightarrow> None
      | Table hdr rows \<Rightarrow>
          if rows \<noteq> [] \<and> ''stt'' \<in> set hdr then stt (last rows)
          else if rows \<noteq> [] \<and> ''file_path'' \<in> set hdr then
            (case file_path (last rows) of None \<Rightarrow> None | Some p \<Rightarrow> Some (first_number_word p))
          else Some 0)"

text \<open>Lines 40--49.\<close>

definition alloc_existing_paths :: "ledger_file \<Rightarrow> path set" where
  "alloc_existing_paths f =
     (case f of
        Table hdr rows \<Rightarrow> if ''file_path'' \<in> set hdr then row_paths rows else {}
      | _ \<Rightarrow> {})"

text \<open>Lines 65--70: the first file, in the sorted walk, matching both substrings.\<close>

definition spidey_match :: "path list \<Rightarrow> string \<Rightarrow> path option" where
  "spidey_match all_files s =
     find (\<lambda>p. py_contains s (py_lower (basename p)) \<and> py_contains ''spidey'' (py_lower (basename p)))
       all_files"

text \<open>
  Lines 100--114: re-read the file, keep the four columns when it has them all (else
  \<open>pd.concat\<close> adds the missing ones after the existing header), append the row.
  \<open>None\<close> is a write that raised (an unreadable file).
\<close>

definition append_row :: "ledger_file \<Rightarrow> ledger_row \<Rightarrow> ledger_file option" where
  "append_row f new_row =
     (case f of
        NoFile \<Rightarrow> Some (Table ledger_cols [new_row])
      | Unreadable \<Rightarrow> None
      | Table hdr rows \<Rightarrow>
          Some (if set ledger_cols \<subseteq> set hdr then Table ledger_cols (rows @ [new_row])
                else Table (hdr @ filter (\<lambda>c. c \<notin> set hdr) ledger_cols) (rows @ [new_row])))"

text \<open>One iteration of the loop of lines 61--114; the state is the file and \<open>added_count\<close>.\<close>

definition alloc_step ::
  "alloc_env \<Rightarrow> path list \<Rightarrow> path set \<Rightarrow> int \<Rightarrow> ledger_file \<times> nat \<Rightarrow> nat \<Rightarrow> ledger_file \<times> nat" where
  "alloc_step env all_files existing last_number st i =
     (let next_number = last_number + int i;
          next_number_str = py_format_0d 3 next_number
      in case spidey_match all_files next_number_str of
           None \<Rightarrow> st
         | Some matched \<Rightarrow>
             if matched \<in> existing then st
             else
               (let row = \<lparr>stt = Some next_number, file_path = Some matched,
                           duration = Some (clip_duration_str (clip_duration env matched)),
                           lastest_used_value =
                             get_creation_age_seconds (alloc_clock env) (alloc_mtime env) matched\<rparr>
                in case append_row (fst st) row of
                     None \<Rightarrow> st
                   | Some f' \<Rightarrow> (f', snd st + 1)))"

definition check_and_add_next_spidey_videos ::
  "alloc_env \<Rightarrow> path \<Rightarrow> nat \<Rightarrow> ledger_file \<Rightarrow> (ledger_file \<times> nat) option" where
  "check_and_add_next_spidey_videos env base batch_size f =
     (case alloc_last_number f of
        None \<Rightarrow> None
      | Some last_number \<Rightarrow>
          (let existing = alloc_existing_paths f;
               all_files = spidey_all_files base (spidey_tree env)
           in Some (foldl (alloc_step env all_files existing last_number) (f, 0) [1..<batch_size + 1])))"

text \<open>
  \<open>get_list_video\<close> (lines 138--163): the comma-separated numbers of \<open>ls\<close> that are
  all digits after stripping, each looked up as the first row with that \<open>stt\<close>; an
  absent number is logged and skipped.  A missing file gives \<open>[]\<close>; so does any
  exception inside the \<open>try\<close>: an unreadable file, a missing \<open>stt\<close> column (raised
  at the first lookup), a missing \<open>file_path\<close> column (raised at the first hit).
  A hit whose path cell is empty yields \<open>None\<close> (pandas' NaN).
\<close>

definition requested_stts :: "string \<Rightarrow> int list" where
  "requested_stts ls =
     map (\<lambda>x. int (nat_of_digits (py_strip x))) (filter (\<lambda>x. py_isdigit (py_strip x)) (py_split_on CHR '','' ls))"

definition get_list_video :: "string \<Rightarrow> ledger_file \<Rightarrow> path option list" where
  "get_list_video ls data_csv =
     (case data_csv of
        Table hdr rows \<Rightarrow>
          (let stt_list = requested_stts ls;
               hits = map (\<lambda>v. find (\<lambda>r. stt r = Some v) rows) stt_list
           in if stt_list = [] then []
              else if ''stt'' \<notin> set hdr then []
              else if ''file_path'' \<notin> set hdr \<and> (\<exists>h \<in> set hits. h \<noteq> None) then []
              else concat (map (\<lambda>h. case h of None \<Rightarrow> [] | Some r \<Rightarrow> [file_path r]) hits))
      | _ \<Rightarrow> [])"

text \<open>
  A table whose rows hold no cell of a column missing from its header: the shape every
  file the code writes has.
\<close>

definition file_wf :: "ledger_file \<Rightarrow> bool" where
  "file_wf f \<longleftrightarrow> (case f of Table hdr rows \<Rightarrow> \<forall>r \<in> set rows. project_row hdr r = r | _ \<Rightarrow> True)"

subsection \<open>Appending rows\<close>

lemma project_row_mono:
  "project_row hdr r = r \<Longrightarrow> set hdr \<subseteq> set hdr' \<Longrightarrow> project_row hdr' r = r"
  by (cases r) (auto simp: project_row_def split: if_splits)

lemma project_row_all: "set ledger_cols \<subseteq> set hdr \<Longrightarrow> project_row hdr r = r"
  by (simp add: project_row_def ledger_cols_def)

lemma read_table_wf: "\<forall>r \<in> set rows. project_row hdr r = r \<Longrightarrow> read_existing_csv (Table hdr rows) = rows"
  by (induction rows) (simp_all add: read_existing_csv_def)

lemma append_row_wf:
  assumes "file_wf f" and "append_row f r = Some f'"
  shows "file_wf f' \<and> read_existing_csv f' = read_existing_csv f @ [r]"
proof (cases f)
  case NoFile
  with assms show ?thesis
    by (auto simp: append_row_def file_wf_def read_existing_csv_def project_row_all)
next
  case Unreadable
  with assms show ?thesis by (simp add: append_row_def)
next
  case (Table hdr rows)
  have old: "\<forall>x \<in> set rows. project_row hdr x = x" using assms(1) Table by (simp add: file_wf_def)
  obtain hdr' where f': "f' = Table hdr' (rows @ [r])" and all: "set ledger_cols \<subseteq> set hdr'"
    and sup: "set hdr \<subseteq> set hdr' \<or> set ledger_cols \<subseteq> set hdr"
  proof (cases "set ledger_cols \<subseteq> set hdr")
    case True
    then show ?thesis using that [of ledger_cols] assms(2) Table by (simp add: append_row_def)
  next
    case False
    then show ?thesis using that [of "hdr @ filter (\<lambda>c. c \<notin> set hdr) ledger_cols"] assms(2) Table
      by (auto simp: append_row_def)
  qed
  have "project_row hdr' x = x" if "x \<in> set (rows @ [r])" for x
  proof (cases "x \<in> set rows")
    case True
    then have "project_row hdr x = x" using old by blast
    with sup all show ?thesis by (meson project_row_all project_row_mono)
  next
    case False
    then show ?thesis using all by (simp add: project_row_all)
  qed
  with f' old Table show ?thesis by (simp add: file_wf_def read_table_wf)
qed

lemma alloc_step_cases:
  assumes "file_wf (fst st)"
  shows "alloc_step env A E L st i = st \<or>
    (\<exists>r f'. alloc_step env A E L st i = (f', snd st + 1) \<and> file_wf f'
       \<and> read_existing_csv f' = read_existing_csv (fst st) @ [r]
       \<and> stt r = Some (L + int i)
       \<and> (\<exists>p. file_path r = Some p \<and> p \<notin> E \<and> spidey_match A (py_format_0d 3 (L + int i)) = Some p))"
proof (cases "spidey_match A (py_format_0d 3 (L + int i))")
  case None
  then show ?thesis by (simp add: alloc_step_def)
next
  case (Some p)
  show ?thesis
  proof (cases "p \<in> E")
    case True
    with Some show ?thesis by (simp add: alloc_step_def)
  next
    case False
    let ?r = "\<lparr>stt = Some (L + int i), file_path = Some p,
               duration = Some (clip_duration_str (clip_duration env p)),
               lastest_used_value = get_creation_age_seconds (alloc_clock env) (alloc_mtime env) p\<rparr>"
    show ?thesis
    proof (cases "append_row (fst st) ?r")
      case None
      with Some False show ?thesis by (simp add: alloc_step_def Let_def)
    next
      case (Some f')
      with \<open>spidey_match A (py_format_0d 3 (L + int i)) = Some p\<close> False append_row_wf [OF assms Some]
      show ?thesis by (auto simp: alloc_step_def Let_def)
    qed
  qed
qed

lemma alloc_loop:
  assumes "file_wf (fst st)"
  shows "\<exists>js new. subseq js ixs
    \<and> read_existing_csv (fst (foldl (alloc_step env A E L) st ixs)) = read_existing_csv (fst st) @ new
    \<and> map stt new = map (\<lambda>i. Some (L + int i)) js
    \<and> list_all (\<lambda>(i, r). \<exists>p. file_path r = Some p \<and> p \<notin> E \<and> spidey_match A (py_format_0d 3 (L + int i)) = Some p) (zip js new)
    \<and> length new = length js
    \<and> snd (foldl (alloc_step env A E L) st ixs) = snd st + length new
    \<and> file_wf (fst (foldl (alloc_step env A E L) st ixs))"
  using assms
proof (induction ixs arbitrary: st)
  case Nil
  then show ?case by auto
next
  case (Cons i ixs)
  from alloc_step_cases [OF Cons.prems, of env A E L i] show ?case
  proof
    assume eq: "alloc_step env A E L st i = st"
    from Cons.IH [OF Cons.prems] obtain js new where h:
      "subseq js ixs \<and> read_existing_csv (fst (foldl (alloc_step env A E L) st ixs)) = read_existing_csv (fst st) @ new
      \<and> map stt new = map (\<lambda>i. Some (L + int i)) js
      \<and> list_all (\<lambda>(i, r). \<exists>p. file_path r = Some p \<and> p \<notin> E \<and> spidey_match A (py_format_0d 3 (L + int i)) = Some p) (zip js new)
      \<and> length new = length js
      \<and> snd (foldl (alloc_step env A E L) st ixs) = snd st + length new
      \<and> file_wf (fst (foldl (alloc_step env A E L) st ixs))" by blast
    then show ?thesis using eq by (intro exI [of _ js] exI [of _ new]) auto
  next
    assume "\<exists>r f'. alloc_step env A E L st i = (f', snd st + 1) \<and> file_wf f'
       \<and> read_existing_csv f' = read_existing_csv (fst st) @ [r] \<and> stt r = Some (L + int i)
       \<and> (\<exists>p. file_path r = Some p \<and> p \<notin> E \<and> spidey_match A (py_format_0d 3 (L + int i)) = Some p)"
    then obtain r f' p where eq: "alloc_step env A E L st i = (f', snd st + 1)" and wf: "file_wf f'"
      and rd: "read_existing_csv f' = read_existing_csv (fst st) @ [r]" and s: "stt r = Some (L + int i)"
      and p: "file_path r = Some p" "p \<notin> E" "spidey_match A (py_format_0d 3 (L + int i)) = Some p" by blast
    from Cons.IH [of "(f', snd st + 1)"] wf obtain js new where h:
      "subseq js ixs \<and> read_existing_csv (fst (foldl (alloc_step env A E L) (f', snd st + 1) ixs)) = read_existing_csv f' @ new
      \<and> map stt new = map (\<lambda>i. Some (L + int i)) js
      \<and> list_all (\<lambda>(i, r). \<exists>p. file_path r = Some p \<and> p \<notin> E \<and> spidey_match A (py_format_0d 3 (L + int i)) = Some p) (zip js new)
      \<and> length new = length js
      \<and> snd (foldl (alloc_step env A E L) (f', snd st + 1) ixs) = snd st + 1 + length new
      \<and> file_wf (fst (foldl (alloc_step env A E L) (f', snd st + 1) ixs))" by auto
    then show ?thesis using eq rd s p by (intro exI [of _ "i # js"] exI [of _ "r # new"]) auto
  qed
qed

lemma alloc_run:
  assumes "file_wf f" and "alloc_last_number f = Some L"
    and "check_and_add_next_spidey_videos env base b f = Some (f', n)"
  shows "\<exists>new ks. read_existing_csv f' = read_existing_csv f @ new \<and> n = length new
    \<and> map stt new = map Some ks \<and> sorted_wrt (<) ks \<and> (\<forall>k \<in> set ks. L < k \<and> k \<le> L + int b)
    \<and> (\<forall>r \<in> set new. \<exists>p i. file_path r = Some p \<and> p \<notin> alloc_existing_paths f \<and> stt r = Some (L + int i)
          \<and> spidey_match (spidey_all_files base (spidey_tree env)) (py_format_0d 3 (L + int i)) = Some p)"
proof -
  let ?A = "spidey_all_files base (spidey_tree env)" and ?E = "alloc_existing_paths f"
  have run: "(f', n) = foldl (alloc_step env ?A ?E L) (f, 0) [1..<b + 1]"
    using assms(2,3) by (simp add: check_and_add_next_spidey_videos_def)
  from alloc_loop [where st = "(f, 0)" and env = env and A = ?A and E = ?E and L = L and ixs = "[1..<b + 1]"] assms(1)
  obtain js new where sub: "subseq js [1..<b + 1]"
    and rd: "read_existing_csv (fst (foldl (alloc_step env ?A ?E L) (f, 0) [1..<b + 1])) = read_existing_csv f @ new"
    and st: "map stt new = map (\<lambda>i. Some (L + int i)) js"
    and hit: "list_all (\<lambda>(i, r). \<exists>p. file_path r = Some p \<and> p \<notin> ?E \<and> spidey_match ?A (py_format_0d 3 (L + int i)) = Some p) (zip js new)"
    and len: "length new = length js"
    and cnt: "snd (foldl (alloc_step env ?A ?E L) (f, 0) [1..<b + 1]) = length new"
    by auto
  have js_sorted: "sorted_wrt (<) js" using sub sorted_wrt_upt by (rule subseq_sorted_wrt)
  have js_range: "\<forall>i \<in> set js. 1 \<le> i \<and> i \<le> b" using subseq_set_subset [OF sub] by auto
  let ?ks = "map (\<lambda>i. L + int i) js"
  have "sorted_wrt (<) ?ks" using js_sorted by (simp add: sorted_wrt_map)
  moreover have "\<forall>k \<in> set ?ks. L < k \<and> k \<le> L + int b" using js_range by auto
  moreover have "\<forall>r \<in> set new. \<exists>p i. file_path r = Some p \<and> p \<notin> ?E \<and> stt r = Some (L + int i)
          \<and> spidey_match ?A (py_format_0d 3 (L + int i)) = Some p"
  proof
    fix r assume "r \<in> set new"
    then obtain k where k: "k < length new" "new ! k = r" by (auto simp: in_set_conv_nth)
    with len have "(js ! k, r) \<in> set (zip js new)" by (auto simp: in_set_conv_nth)
    with hit obtain p where "file_path r = Some p" "p \<notin> ?E" "spidey_match ?A (py_format_0d 3 (L + int (js ! k))) = Some p"
      by (auto simp: list_all_iff)
    moreover have "stt r = Some (L + int (js ! k))"
      using st k len by (metis length_map nth_map)
    ultimately show "\<exists>p i. file_path r = Some p \<and> p \<notin> ?E \<and> stt r = Some (L + int i)
          \<and> spidey_match ?A (py_format_0d 3 (L + int i)) = Some p" by blast
  qed
  moreover have "read_existing_csv f' = read_existing_csv f @ new" using run rd by (metis fst_conv)
  moreover have "n = length new" using run cnt by (metis snd_conv)
  moreover have "map stt new = map Some ?ks" using st by simp
  ultimately show ?thesis by blast
qed


lemma append_row_readable:
  "f \<noteq> Unreadable \<Longrightarrow> \<exists>f'. append_row f r = Some f' \<and> f' \<noteq> Unreadable"
  by (cases f) (auto simp: append_row_def)

lemma alloc_step_paths:
  assumes "file_wf (fst st)" "fst st \<noteq> Unreadable"
  shows "file_wf (fst (alloc_step env A E L st i)) \<and> fst (alloc_step env A E L st i) \<noteq> Unreadable \<and>
    map file_path (read_existing_csv (fst (alloc_step env A E L st i))) =
      map file_path (read_existing_csv (fst st)) @
      (case spidey_match A (py_format_0d 3 (L + int i)) of None \<Rightarrow> [] | Some p \<Rightarrow> if p \<in> E then [] else [Some p])"
proof (cases "spidey_match A (py_format_0d 3 (L + int i))")
  case None
  with assms show ?thesis by (simp add: alloc_step_def)
next
  case (Some p)
  show ?thesis
  proof (cases "p \<in> E")
    case True
    with Some assms show ?thesis by (simp add: alloc_step_def)
  next
    case False
    let ?r = "\<lparr>stt = Some (L + int i), file_path = Some p,
               duration = Some (clip_duration_str (clip_duration env p)),
               lastest_used_value = get_creation_age_seconds (alloc_clock env) (alloc_mtime env) p\<rparr>"
    obtain f' where f': "append_row (fst st) ?r = Some f'" "f' \<noteq> Unreadable"
      using append_row_readable [OF assms(2)] by blast
    with Some False append_row_wf [OF assms(1) f'(1)] show ?thesis
      by (simp add: alloc_step_def Let_def)
  qed
qed

lemma alloc_fold_paths:
  "file_wf (fst st) \<Longrightarrow> fst st \<noteq> Unreadable \<Longrightarrow>
    map file_path (read_existing_csv (fst (foldl (alloc_step env A E L) st ixs))) =
      map file_path (read_existing_csv (fst st)) @
      concat (map (\<lambda>i. case spidey_match A (py_format_0d 3 (L + int i)) of
                         None \<Rightarrow> [] | Some p \<Rightarrow> if p \<in> E then [] else [Some p]) ixs)"
proof (induction ixs arbitrary: st)
  case (Cons i ixs)
  from alloc_step_paths [OF Cons.prems, of env A E L i] Cons.IH [of "alloc_step env A E L st i"]
  show ?case by simp
qed simp

lemma upt_split2:
  assumes "1 \<le> i" "i < j" "j \<le> b"
  shows "[1..<b + 1] = [1..<i] @ i # [Suc i..<j] @ j # [Suc j..<b + 1]"
proof -
  have "[1..<b + 1] = [1..<i] @ [i..<b + 1]" using upt_add_eq_append [of 1 i "b + 1 - i"] assms by simp
  also have "[i..<b + 1] = i # [Suc i..<b + 1]" using assms by (simp add: upt_conv_Cons)
  also have "[Suc i..<b + 1] = [Suc i..<j] @ [j..<b + 1]" using upt_add_eq_append [of "Suc i" j "b + 1 - j"] assms by simp
  also have "[j..<b + 1] = j # [Suc j..<b + 1]" using assms by (simp add: upt_conv_Cons)
  finally show ?thesis by simp
qed

subsection \<open>Properties of the allocator\<close>

text \<open>
  C10: append mode never rewrites the ledger: on a file whose rows hold no cell of a
  column it lacks, the allocator keeps every existing row, appends exactly as many rows
  as it reports added, and their \<open>stt\<close> values strictly increase within
  \<open>last + 1 .. last + batch_size\<close>, so none is at most the previous last number.
\<close>

theorem allocator_append_only:
  assumes "file_wf f" and "alloc_last_number f = Some L"
    and "check_and_add_next_spidey_videos env base b f = Some (f', n)"
  shows "\<exists>new ks. read_existing_csv f' = read_existing_csv f @ new \<and> n = length new
    \<and> map stt new = map Some ks \<and> sorted_wrt (<) ks \<and> (\<forall>k \<in> set ks. L < k \<and> k \<le> L + int b)"
  using alloc_run [OF assms] by blast

text \<open>
  C11: every appended row's path was not registered in the ledger when the call
  started, and it is the first file of the sorted walk whose name holds both the
  zero-padded number and \<open>spidey\<close>; a number with no such file gets no row (a gap).
\<close>

theorem allocator_new_paths:
  assumes "file_wf f" and "alloc_last_number f = Some L"
    and "check_and_add_next_spidey_videos env base b f = Some (f', n)"
  shows "\<exists>new. read_existing_csv f' = read_existing_csv f @ new
    \<and> (\<forall>r \<in> set new. \<exists>p i. file_path r = Some p \<and> p \<notin> alloc_existing_paths f \<and> stt r = Some (L + int i)
          \<and> spidey_match (spidey_all_files base (spidey_tree env)) (py_format_0d 3 (L + int i)) = Some p)"
  using alloc_run [OF assms] by blast

theorem allocator_append_only_witness:
  "file_wf (Table ledger_cols [\<lparr>stt = Some 12, file_path = Some ''v12'', duration = Some ''1:00'', lastest_used_value = None\<rparr>]) \<and> alloc_last_number (Table ledger_cols [\<lparr>stt = Some 12, file_path = Some ''v12'', duration = Some ''1:00'', lastest_used_value = None\<rparr>]) = Some 12
   \<and> (\<exists>f' n. check_and_add_next_spidey_videos \<lparr>spidey_tree = [File ''spidey 013.mp4''], clip_duration = (\<lambda>_. Some 75), alloc_mtime = (\<lambda>_. None), alloc_clock = 0\<rparr> ''S:'' 1 (Table ledger_cols [\<lparr>stt = Some 12, file_path = Some ''v12'', duration = Some ''1:00'', lastest_used_value = None\<rparr>]) = Some (f', n)
        \<and> (\<exists>new ks. read_existing_csv f' = read_existing_csv (Table ledger_cols [\<lparr>stt = Some 12, file_path = Some ''v12'', duration = Some ''1:00'', lastest_used_value = None\<rparr>]) @ new \<and> n = length new
          \<and> map stt new = map Some ks \<and> sorted_wrt (<) ks \<and> (\<forall>k \<in> set ks. 12 < k \<and> k \<le> 12 + int 1)))"
proof -
  have w: "file_wf (Table ledger_cols [\<lparr>stt = Some 12, file_path = Some ''v12'', duration = Some ''1:00'', lastest_used_value = None\<rparr>])" by code_simp
  have l: "alloc_last_number (Table ledger_cols [\<lparr>stt = Some 12, file_path = Some ''v12'', duration = Some ''1:00'', lastest_used_value = None\<rparr>]) = Some 12" by code_simp
  have "check_and_add_next_spidey_videos \<lparr>spidey_tree = [File ''spidey 013.mp4''], clip_duration = (\<lambda>_. Some 75), alloc_mtime = (\<lambda>_. None), alloc_clock = 0\<rparr> ''S:'' 1 (Table ledger_cols [\<lparr>stt = Some 12, file_path = Some ''v12'', duration = Some ''1:00'', lastest_used_value = None\<rparr>]) \<noteq> None" by code_simp
  then obtain f' n where r: "check_and_add_next_spidey_videos \<lparr>spidey_tree = [File ''spidey 013.mp4''], clip_duration = (\<lambda>_. Some 75), alloc_mtime = (\<lambda>_. None), alloc_clock = 0\<rparr> ''S:'' 1 (Table ledger_cols [\<lparr>stt = Some 12, file_path = Some ''v12'', duration = Some ''1:00'', lastest_used_value = None\<rparr>]) = Some (f', n)"
    by auto
  show ?thesis using w l r allocator_append_only [OF w l r] by blast
qed

theorem allocator_new_paths_witness:
  "file_wf (Table ledger_cols [\<lparr>stt = Some 12, file_path = Some ''v12'', duration = Some ''1:00'', lastest_used_value = None\<rparr>]) \<and> alloc_last_number (Table ledger_cols [\<lparr>stt = Some 12, file_path = Some ''v12'', duration = Some ''1:00'', lastest_used_value = None\<rparr>]) = Some 12
   \<and> (\<exists>f' n. check_and_add_next_spidey_videos \<lparr>spidey_tree = [File ''spidey 013.mp4''], clip_duration = (\<lambda>_. Some 75), alloc_mtime = (\<lambda>_. None), alloc_clock = 0\<rparr> ''S:'' 1 (Table ledger_cols [\<lparr>stt = Some 12, file_path = Some ''v12'', duration = Some ''1:00'', lastest_used_value = None\<rparr>]) = Some (f', n)
        \<and> (\<exists>new. read_existing_csv f' = read_existing_csv (Table ledger_cols [\<lparr>stt = Some 12, file_path = Some ''v12'', duration = Some ''1:00'', lastest_used_value = None\<rparr>]) @ new
          \<and> (\<forall>r \<in> set new. \<exists>p i. file_path r = Some p \<and> p \<notin> alloc_existing_paths (Table ledger_cols [\<lparr>stt = Some 12, file_path = Some ''v12'', duration = Some ''1:00'', lastest_used_value = None\<rparr>])
             \<and> stt r = Some (12 + int i)
             \<and> spidey_match (spidey_all_files ''S:'' (spidey_tree \<lparr>spidey_tree = [File ''spidey 013.mp4''], clip_duration = (\<lambda>_. Some 75), alloc_mtime = (\<lambda>_. None), alloc_clock = 0\<rparr>)) (py_format_0d 3 (12 + int i)) = Some p)))"
proof -
  have w: "file_wf (Table ledger_cols [\<lparr>stt = Some 12, file_path = Some ''v12'', duration = Some ''1:00'', lastest_used_value = None\<rparr>])" by code_simp
  have l: "alloc_last_number (Table ledger_cols [\<lparr>stt = Some 12, file_path = Some ''v12'', duration = Some ''1:00'', lastest_used_value = None\<rparr>]) = Some 12" by code_simp
  have "check_and_add_next_spidey_videos \<lparr>spidey_tree = [File ''spidey 013.mp4''], clip_duration = (\<lambda>_. Some 75), alloc_mtime = (\<lambda>_. None), alloc_clock = 0\<rparr> ''S:'' 1 (Table ledger_cols [\<lparr>stt = Some 12, file_path = Some ''v12'', duration = Some ''1:00'', lastest_used_value = None\<rparr>]) \<noteq> None" by code_simp
  then obtain f' n where r: "check_and_add_next_spidey_videos \<lparr>spidey_tree = [File ''spidey 013.mp4''], clip_duration = (\<lambda>_. Some 75), alloc_mtime = (\<lambda>_. None), alloc_clock = 0\<rparr> ''S:'' 1 (Table ledger_cols [\<lparr>stt = Some 12, file_path = Some ''v12'', duration = Some ''1:00'', lastest_used_value = None\<rparr>]) = Some (f', n)"
    by auto
  show ?thesis using w l r allocator_new_paths [OF w l r] by blast
qed

text \<open>
  The scenario of the spec: a ledger whose \<open>stt\<close> runs to 12, batch size 3, files
  for 013 and 015 but not for 014: the rows 13 and 15 are appended after the twelve
  untouched ones and the allocator reports two additions.
\<close>

lemma allocator_scenario:
  "map_option (\<lambda>(f, n). (map stt (read_existing_csv f), n))
     (check_and_add_next_spidey_videos \<lparr>spidey_tree = [File ''Spidey 013 ep.mp4'', File ''spidey 015.mp4'', File ''other 014.mp4''], clip_duration = (\<lambda>_. Some 75), alloc_mtime = (\<lambda>_. None), alloc_clock = 0\<rparr> ''S:'' 3 (Table ledger_cols (map (\<lambda>i. \<lparr>stt = Some (int i), file_path = Some (''v'' @ py_str_nat i), duration = Some ''1:00'', lastest_used_value = None\<rparr>) [1..<13]))) =
   Some (map (\<lambda>i. Some (int i)) [1..<13] @ [Some 13, Some 15], 2)"
  by code_simp

text \<open>
  C13: the registered-path set is read once before the loop and never updated, so when
  one unregistered file is the first match of two numbers of the batch (its name holds
  both, as \<open>spidey 013 014\<close>), it is appended for both: the readable ledger the call
  leaves holds a repeated path.
\<close>

theorem allocator_duplicate_path:
  assumes "file_wf f" "f \<noteq> Unreadable" "alloc_last_number f = Some L"
    and "1 \<le> i" "i < j" "j \<le> b"
    and "spidey_match (spidey_all_files base (spidey_tree env)) (py_format_0d 3 (L + int i)) = Some p"
    and "spidey_match (spidey_all_files base (spidey_tree env)) (py_format_0d 3 (L + int j)) = Some p"
    and "p \<notin> alloc_existing_paths f"
  shows "\<exists>f' n. check_and_add_next_spidey_videos env base b f = Some (f', n) \<and>
           \<not> distinct (map file_path (read_existing_csv f'))"
proof -
  let ?A = "spidey_all_files base (spidey_tree env)" and ?E = "alloc_existing_paths f"
  let ?g = "\<lambda>i. case spidey_match ?A (py_format_0d 3 (L + int i)) of
               None \<Rightarrow> [] | Some p \<Rightarrow> if p \<in> ?E then [] else [Some p]"
  let ?F = "foldl (alloc_step env ?A ?E L) (f, 0) [1..<b + 1]"
  have run: "check_and_add_next_spidey_videos env base b f = Some ?F"
    using assms(3) by (simp add: check_and_add_next_spidey_videos_def del: upt_Suc)
  have "map file_path (read_existing_csv (fst ?F)) = map file_path (read_existing_csv f) @ concat (map ?g [1..<b + 1])"
    using alloc_fold_paths [of "(f, 0)"] assms(1,2) by simp
  also have "concat (map ?g [1..<b + 1]) =
      concat (map ?g [1..<i]) @ [Some p] @ concat (map ?g [Suc i..<j]) @ [Some p] @ concat (map ?g [Suc j..<b + 1])"
    using upt_split2 [OF assms(4-6)] assms(7-9) by simp
  finally have "\<not> distinct (map file_path (read_existing_csv (fst ?F)))" by auto
  with run show ?thesis by (metis prod.collapse)
qed

theorem allocator_duplicate_path_witness:
  "file_wf (Table ledger_cols [\<lparr>stt = Some 12, file_path = Some ''v12'', duration = Some ''1:00'', lastest_used_value = None\<rparr>]) \<and> Table ledger_cols [\<lparr>stt = Some 12, file_path = Some ''v12'', duration = Some ''1:00'', lastest_used_value = None\<rparr>] \<noteq> Unreadable \<and> alloc_last_number (Table ledger_cols [\<lparr>stt = Some 12, file_path = Some ''v12'', duration = Some ''1:00'', lastest_used_value = None\<rparr>]) = Some 12 \<and>
   (1::nat) \<le> 1 \<and> (1::nat) < 2 \<and> (2::nat) \<le> 2 \<and>
   spidey_match (spidey_all_files ''S:'' (spidey_tree \<lparr>spidey_tree = [File ''spidey 013 014.mp4''], clip_duration = (\<lambda>_. Some 75), alloc_mtime = (\<lambda>_. None), alloc_clock = 0\<rparr>)) (py_format_0d 3 (12 + int 1)) = Some (os_join ''S:'' ''spidey 013 014.mp4'') \<and>
   spidey_match (spidey_all_files ''S:'' (spidey_tree \<lparr>spidey_tree = [File ''spidey 013 014.mp4''], clip_duration = (\<lambda>_. Some 75), alloc_mtime = (\<lambda>_. None), alloc_clock = 0\<rparr>)) (py_format_0d 3 (12 + int 2)) = Some (os_join ''S:'' ''spidey 013 014.mp4'') \<and>
   os_join ''S:'' ''spidey 013 014.mp4'' \<notin> alloc_existing_paths (Table ledger_cols [\<lparr>stt = Some 12, file_path = Some ''v12'', duration = Some ''1:00'', lastest_used_value = None\<rparr>]) \<and>
   (\<exists>f' n. check_and_add_next_spidey_videos \<lparr>spidey_tree = [File ''spidey 013 014.mp4''], clip_duration = (\<lambda>_. Some 75), alloc_mtime = (\<lambda>_. None), alloc_clock = 0\<rparr> ''S:'' 2 (Table ledger_cols [\<lparr>stt = Some 12, file_path = Some ''v12'', duration = Some ''1:00'', lastest_used_value = None\<rparr>]) = Some (f', n) \<and>
      \<not> distinct (map file_path (read_existing_csv f')))"
proof -
  have h: "file_wf (Table ledger_cols [\<lparr>stt = Some 12, file_path = Some ''v12'', duration = Some ''1:00'', lastest_used_value = None\<rparr>])" "Table ledger_cols [\<lparr>stt = Some 12, file_path = Some ''v12'', duration = Some ''1:00'', lastest_used_value = None\<rparr>] \<noteq> Unreadable" "alloc_last_number (Table ledger_cols [\<lparr>stt = Some 12, file_path = Some ''v12'', duration = Some ''1:00'', lastest_used_value = None\<rparr>]) = Some 12"
    "spidey_match (spidey_all_files ''S:'' (spidey_tree \<lparr>spidey_tree = [File ''spidey 013 014.mp4''], clip_duration = (\<lambda>_. Some 75), alloc_mtime = (\<lambda>_. None), alloc_clock = 0\<rparr>)) (py_format_0d 3 (12 + int 1)) = Some (os_join ''S:'' ''spidey 013 014.mp4'')"
    "spidey_match (spidey_all_files ''S:'' (spidey_tree \<lparr>spidey_tree = [File ''spidey 013 014.mp4''], clip_duration = (\<lambda>_. Some 75), alloc_mtime = (\<lambda>_. None), alloc_clock = 0\<rparr>)) (py_format_0d 3 (12 + int 2)) = Some (os_join ''S:'' ''spidey 013 014.mp4'')"
    "os_join ''S:'' ''spidey 013 014.mp4'' \<notin> alloc_existing_paths (Table ledger_cols [\<lparr>stt = Some 12, file_path = Some ''v12'', duration = Some ''1:00'', lastest_used_value = None\<rparr>])"
    by code_simp+
  show ?thesis
    using allocator_duplicate_path [where i = 1 and j = 2 and b = 2, OF h(1-3) _ _ _ h(4,5,6)] h by simp
qed

text \<open>
  The number is matched as a plain substring, so \<open>105\<close> is found inside
  \<open>spidey 1050\<close> and that file is registered as number 105, although the number
  there is flanked by a digit (the digit-bounded match of \<open>find_first_vid\<close> rejects it).
\<close>

lemma allocator_digit_adjacent_match:
  "map_option (\<lambda>(f, n). (map stt (read_existing_csv f), n))
     (check_and_add_next_spidey_videos \<lparr>spidey_tree = [File ''spidey 1050.mp4''], clip_duration = (\<lambda>_. Some 75), alloc_mtime = (\<lambda>_. None), alloc_clock = 0\<rparr> ''S:'' 1 (Table ledger_cols [\<lparr>stt = Some 104, file_path = Some ''v104'', duration = Some ''1:00'', lastest_used_value = None\<rparr>])) = Some ([Some 104, Some 105], 1)
   \<and> \<not> digit_bounded_search (py_format_0d 3 105) ''spidey 1050.mp4''"
  by code_simp

end
