(* ===== verification/SingleAllocator.thy ===== *)
theory SingleAllocator
  imports Allocator
begin

text \<open>
  The one-video allocator \<open>check_and_add_next_spidey_video\<close> of \<^verbatim>\<open>src/test.py\<close>,
  the predecessor of the batch allocator of \<^verbatim>\<open>src/main/module3.py\<close>.  It reads the
  last number of the ledger the same way, then walks the base folder and takes the
  first video file, in the order the walk lists them, whose lower-cased name contains
  the zero-padded next number and \<open>spidey\<close>; it appends a row for it unless its path
  is registered.  Every early return (failed read, no match, registered path, failed
  write) leaves the ledger file as it was, so the model returns the file.
\<close>

text \<open>The video files of the walk, as (directory, name) pairs in walk order (test.py lines 49--51; the batch allocator collects the same files before sorting them).\<close>

definition walk_video_items :: "path \<Rightarrow> node list \<Rightarrow> (path \<times> string) list" where
  "walk_video_items base nodes =
     concat (map (\<lambda>(dirpath, files). map (\<lambda>item. (dirpath, item)) (filter is_video_ext files)) (walk base nodes))"

definition walk_video_paths :: "path \<Rightarrow> node list \<Rightarrow> path list" where
  "walk_video_paths base nodes = map (\<lambda>(dirpath, item). os_join dirpath item) (walk_video_items base nodes)"

definition single_match :: "path \<Rightarrow> node list \<Rightarrow> string \<Rightarrow> path option" where
  "single_match base nodes next_number_str =
     map_option (\<lambda>(dirpath, item). os_join dirpath item)
       (find (\<lambda>(dirpath, item). py_contains next_number_str (py_lower item) \<and> py_contains ''spidey'' (py_lower item))
          (walk_video_items base nodes))"

definition check_and_add_next_spidey_video :: "alloc_env \<Rightarrow> path \<Rightarrow> ledger_file \<Rightarrow> ledger_file" where
  "check_and_add_next_spidey_video env base f =
     (case alloc_last_number f of
        None \<Rightarrow> f
      | Some last_number \<Rightarrow>
          (let next_number = last_number + 1;
               next_number_str = py_format_0d 3 next_number
           in case single_match base (spidey_tree env) next_number_str of
                None \<Rightarrow> f
              | Some next_video_path \<Rightarrow>
                  if next_video_path \<in> alloc_existing_paths f then f
                  else
                    (let row = \<lparr>stt = Some next_number, file_path = Some next_video_path,
                                duration = Some (clip_duration_str (clip_duration env next_video_path)),
                                lastest_used_value =
                                  get_creation_age_seconds (alloc_clock env) (alloc_mtime env) next_video_path\<rparr>
                     in case append_row f row of None \<Rightarrow> f | Some f' \<Rightarrow> f')))"

lemma spidey_all_files_walk: "spidey_all_files base nodes = sort_key py_lower (walk_video_paths base nodes)"
  by (simp add: spidey_all_files_def walk_video_paths_def walk_video_items_def map_concat comp_def split_def del: walk.simps)

lemma walk_video_items_wf:
  "wf_names nodes \<Longrightarrow> base \<noteq> [] \<Longrightarrow> (r, item) \<in> set (walk_video_items base nodes) \<Longrightarrow>
     r \<noteq> [] \<and> \<not> list_ex is_sep item"
  by (auto simp: walk_video_items_def dest: walk_wf)

lemma single_match_walk:
  assumes "wf_names nodes" "base \<noteq> []"
  shows "single_match base nodes s = spidey_match (walk_video_paths base nodes) s"
proof -
  have "\<forall>x \<in> set (walk_video_items base nodes). basename (os_join (fst x) (snd x)) = snd x"
    using walk_video_items_wf [OF assms] by (auto simp: basename_os_join)
  then show ?thesis
    unfolding single_match_def spidey_match_def walk_video_paths_def
    by (simp add: find_map_option comp_def case_prod_beta cong: find_cong)
qed

text \<open>
  C35: the one-video allocator is the batch allocator with \<open>batch_size = 1\<close> whenever
  the walk lists the video files in case-insensitive order (as a listing sorted by name
  does): the resulting ledger file is the same on every input file, errors included.
\<close>

theorem single_alloc_batch_equiv:
  assumes "wf_names (spidey_tree env)" "base \<noteq> []"
    and "sorted (map py_lower (walk_video_paths base (spidey_tree env)))"
  shows "check_and_add_next_spidey_video env base f =
           (case check_and_add_next_spidey_videos env base 1 f of None \<Rightarrow> f | Some (f', _) \<Rightarrow> f')"
proof -
  have "spidey_all_files base (spidey_tree env) = walk_video_paths base (spidey_tree env)"
    using assms(3) by (simp add: spidey_all_files_walk sort_key_id_if_sorted)
  moreover have "single_match base (spidey_tree env) s = spidey_match (walk_video_paths base (spidey_tree env)) s" for s
    using assms(1,2) by (rule single_match_walk)
  ultimately show ?thesis
    by (simp add: check_and_add_next_spidey_video_def check_and_add_next_spidey_videos_def alloc_step_def
        Let_def split: option.split)
qed

theorem single_alloc_batch_equiv_witness:
  "check_and_add_next_spidey_video \<lparr>spidey_tree = [File ''a spidey 013.mp4'', File ''b spidey 014.mp4''],
       clip_duration = (\<lambda>_. Some 75), alloc_mtime = (\<lambda>_. None), alloc_clock = 0\<rparr> ''S:'' (Table ledger_cols
       [\<lparr>stt = Some 12, file_path = Some ''v12'', duration = Some ''1:00'', lastest_used_value = None\<rparr>]) =
   (case check_and_add_next_spidey_videos \<lparr>spidey_tree = [File ''a spidey 013.mp4'', File ''b spidey 014.mp4''],
       clip_duration = (\<lambda>_. Some 75), alloc_mtime = (\<lambda>_. None), alloc_clock = 0\<rparr> ''S:'' 1 (Table ledger_cols
       [\<lparr>stt = Some 12, file_path = Some ''v12'', duration = Some ''1:00'', lastest_used_value = None\<rparr>]) of
      None \<Rightarrow> Table ledger_cols
       [\<lparr>stt = Some 12, file_path = Some ''v12'', duration = Some ''1:00'', lastest_used_value = None\<rparr>]
    | Some (f', _) \<Rightarrow> f')"
proof (rule single_alloc_batch_equiv)
  show "wf_names (spidey_tree \<lparr>spidey_tree = [File ''a spidey 013.mp4'', File ''b spidey 014.mp4''],
       clip_duration = (\<lambda>_. Some 75), alloc_mtime = (\<lambda>_. None), alloc_clock = 0\<rparr>)"
    by code_simp
  show "sorted (map py_lower (walk_video_paths ''S:'' (spidey_tree \<lparr>spidey_tree = [File ''a spidey 013.mp4'', File ''b spidey 014.mp4''],
       clip_duration = (\<lambda>_. Some 75), alloc_mtime = (\<lambda>_. None), alloc_clock = 0\<rparr>)))"
    by code_simp
qed simp

text \<open>
  Without that order the two allocators differ: with two matching files listed
  \<open>b\<close> before \<open>A\<close>, the one-video allocator appends \<open>b\<close>, the batch allocator \<open>A\<close>.
\<close>

lemma single_alloc_listing_order:
  "map file_path (read_existing_csv (check_and_add_next_spidey_video
      \<lparr>spidey_tree = [File ''b spidey 001.mp4'', File ''A spidey 001.mp4''],
       clip_duration = (\<lambda>_. Some 75), alloc_mtime = (\<lambda>_. None), alloc_clock = 0\<rparr> ''S:'' NoFile)) =
     [Some (''S:'' @ CHR 0x5C # ''b spidey 001.mp4'')] \<and>
   map_option (\<lambda>(f, _). map file_path (read_existing_csv f))
     (check_and_add_next_spidey_videos
      \<lparr>spidey_tree = [File ''b spidey 001.mp4'', File ''A spidey 001.mp4''],
       clip_duration = (\<lambda>_. Some 75), alloc_mtime = (\<lambda>_. None), alloc_clock = 0\<rparr> ''S:'' 1 NoFile) =
     Some [Some (''S:'' @ CHR 0x5C # ''A spidey 001.mp4'')]"
  by code_simp

end
