(* ===== verification/Pipeline.thy ===== *)
theory Pipeline
  imports Scanner
begin

text \<open>
  Normalizer, Concatenator and Orchestrator: \<open>normalize_video\<close>, \<open>concat_video\<close> and
  \<open>auto_concat\<close> of \<^verbatim>\<open>src/main/module3.py\<close> (copied in \<^verbatim>\<open>module4.py\<close>).  The
  external tools are oracles: \<open>which\<close> answers \<open>shutil.which\<close>, \<open>run\<close> gives the exit
  code of a command line.  The working directory's files are a set of paths; a
  successful ffmpeg run creates its output, a failed one leaves the files as they were
  (a partial output that \<open>ffmpeg -y\<close> may leave after a failed encode is not
  modelled, so no property here speaks of the files a failed run leaves).  Every exception of the code is
  a value of \<open>pipe_error\<close>; \<open>subprocess.run(..., check=True)\<close> raises
  \<open>CalledProcessError\<close> on a non-zero exit.
\<close>

datatype pipe_error =
    TypeError
  | RuntimeError
  | ValueError
  | CalledProcessError nat
  | FileNotFoundError path

text \<open>An argument of \<open>normalize_video\<close>: a \<open>str\<close> or any other Python value.\<close>

datatype py_arg = PyStr string | PyOther

record norm_params =
  width :: int
  height :: int
  fps :: int
  use_nvenc :: bool
  cq :: int
  v_bitrate :: string
  a_bitrate :: string

definition default_params :: norm_params where
  "default_params = \<lparr>width = 1920, height = 1080, fps = 30, use_nvenc = True, cq = 23,
                     v_bitrate = ''12M'', a_bitrate = ''160k''\<rparr>"

record tools =
  which :: "string \<Rightarrow> bool"
  run :: "string list \<Rightarrow> nat"

text \<open>\<open>str(int(int(v_bitrate[:-1]) * 2)) + "M" if v_bitrate.endswith("M") else "16M"\<close>.\<close>

definition nvenc_bufsize :: "string \<Rightarrow> pipe_error + string" where
  "nvenc_bufsize vb =
     (if suffix ''M'' vb then
        (case py_int_of_str (butlast vb) of
           None \<Rightarrow> Inl ValueError
         | Some k \<Rightarrow> Inr (py_str_int (k * 2) @ ''M''))
      else Inr ''16M'')"

definition video_args :: "tools \<Rightarrow> norm_params \<Rightarrow> pipe_error + string list" where
  "video_args t prm =
     (if use_nvenc prm \<and> which t ''nvidia-smi'' then
        (case nvenc_bufsize (v_bitrate prm) of
           Inl e \<Rightarrow> Inl e
         | Inr bufsize \<Rightarrow>
             Inr [''-c:v'', ''h264_nvenc'', ''-profile:v'', ''main'', ''-rc'', ''cbr'',
                  ''-cq'', py_str_int (cq prm), ''-b:v'', v_bitrate prm,
                  ''-maxrate'', v_bitrate prm, ''-bufsize'', bufsize, ''-preset'', ''p4''])
      else
        Inr [''-c:v'', ''libx264'', ''-preset'', ''medium'', ''-profile:v'', ''main'',
             ''-level'', ''4.2'', ''-crf'', py_str_int (cq prm),
             ''-maxrate'', v_bitrate prm, ''-bufsize'', ''16M''])"

definition scale_filter :: "norm_params \<Rightarrow> string" where
  "scale_filter prm =
     ''scale='' @ py_str_int (width prm) @ '':'' @ py_str_int (height prm) @
     '':flags=lanczos,fps='' @ py_str_int (fps prm)"

definition normalize_command ::
  "tools \<Rightarrow> py_arg \<Rightarrow> py_arg \<Rightarrow> norm_params \<Rightarrow> pipe_error + string list" where
  "normalize_command t input_path output_path prm =
     (case (input_path, output_path) of
        (PyStr inp, PyStr outp) \<Rightarrow>
          if \<not> which t ''ffmpeg'' then Inl RuntimeError
          else
            (case video_args t prm of
               Inl e \<Rightarrow> Inl e
             | Inr va \<Rightarrow>
                 Inr ([''ffmpeg'', ''-y'', ''-fflags'', ''+genpts'', ''-i'', inp,
                       ''-vf'', scale_filter prm] @ va @
                      [''-pix_fmt'', ''yuv420p'', ''-fps_mode'', ''cfr'', ''-r'', py_str_int (fps prm),
                       ''-movflags'', ''+faststart'', ''-c:a'', ''aac'', ''-ar'', ''48000'',
                       ''-b:a'', a_bitrate prm, outp]))
      | _ \<Rightarrow> Inl TypeError)"

definition normalize_video ::
  "tools \<Rightarrow> py_arg \<Rightarrow> py_arg \<Rightarrow> norm_params \<Rightarrow> path set \<Rightarrow> (pipe_error + unit) \<times> path set" where
  "normalize_video t input_path output_path prm fs =
     (case normalize_command t input_path output_path prm of
        Inl e \<Rightarrow> (Inl e, fs)
      | Inr cmd \<Rightarrow>
          (if run t cmd = 0
           then (Inr (), case output_path of PyStr outp \<Rightarrow> insert outp fs | PyOther \<Rightarrow> fs)
           else (Inl (CalledProcessError (run t cmd)), fs)))"

text \<open>
  \<open>os.path.abspath\<close> against the working directory \<open>cwd\<close>: an absolute path (rooted,
  or with a drive and a root) is kept, a relative one is joined to \<open>cwd\<close>; the
  normalisation of \<open>.\<close> and \<open>..\<close> is not modelled.
\<close>

definition is_abs :: "path \<Rightarrow> bool" where
  "is_abs p \<longleftrightarrow> (p \<noteq> [] \<and> is_sep (hd p)) \<or> (2 < length p \<and> p ! 1 = CHR '':'' \<and> is_sep (p ! 2))"

definition py_abspath :: "path \<Rightarrow> path \<Rightarrow> path" where
  "py_abspath cwd p = (if is_abs p then p else os_join cwd p)"

definition slashes :: "path \<Rightarrow> path" where
  "slashes p = map (\<lambda>c. if c = CHR 0x5C then CHR ''/'' else c) p"

text \<open>One line of the manifest: \<open>file '<abs_path>'\<close> with the path's backslashes turned into slashes.\<close>

definition manifest_entry :: "path \<Rightarrow> path \<Rightarrow> path" where
  "manifest_entry cwd p = slashes (py_abspath cwd p)"

definition manifest_line :: "path \<Rightarrow> path \<Rightarrow> string" where
  "manifest_line cwd p = ''file '' @ CHR 0x27 # manifest_entry cwd p @ [CHR 0x27]"

definition concat_list :: "path \<Rightarrow> path list \<Rightarrow> string" where
  "concat_list cwd video_paths = concat (map (\<lambda>p. manifest_line cwd p @ [CHR 0x0A]) video_paths)"

definition list_file :: path where
  "list_file = ''temp.txt''"

definition concat_command :: "path \<Rightarrow> string list" where
  "concat_command output_path =
     [''ffmpeg'', ''-y'', ''-f'', ''concat'', ''-safe'', ''0'', ''-i'', list_file, ''-c'', ''copy'', output_path]"

text \<open>
  \<open>concat_video\<close>: the manifest written to \<open>temp.txt\<close> (its text is returned with the
  outcome), the stream-copy run, the removal of the manifest on success only.
\<close>

definition concat_video ::
  "tools \<Rightarrow> path \<Rightarrow> path list \<Rightarrow> path \<Rightarrow> path set \<Rightarrow> (pipe_error + string) \<times> path set" where
  "concat_video t cwd video_paths output_path fs =
     (let fs1 = insert list_file fs; cmd = concat_command output_path in
      if run t cmd = 0 then (Inr (concat_list cwd video_paths), insert output_path fs1 - {list_file})
      else (Inl (CalledProcessError (run t cmd)), fs1))"

definition norm_name :: "nat \<Rightarrow> path" where
  "norm_name i = ''normalized_'' @ py_str_nat i @ ''.mp4''"

text \<open>\<open>for path in normalized_paths: os.remove(path)\<close>: stops at the first missing file.\<close>

fun remove_all :: "path list \<Rightarrow> path set \<Rightarrow> (pipe_error + unit) \<times> path set" where
  "remove_all [] fs = (Inr (), fs)"
| "remove_all (p # ps) fs =
     (if p \<in> fs then remove_all ps (fs - {p}) else (Inl (FileNotFoundError p), fs))"

text \<open>
  The normalisation jobs, one per input with output \<open>normalized_i.mp4\<close>, each an
  independent encode writing its own file; \<open>job_outcomes\<close> is their outcomes in
  submission order.  The pool is left only when every job has finished (the
  \<open>with\<close> block's shutdown waits), so all of them run even when one fails; the
  collecting loop then re-raises the failure of the lowest index.
\<close>

definition job_outcome :: "tools \<Rightarrow> nat \<Rightarrow> path \<Rightarrow> pipe_error + unit" where
  "job_outcome t i p = fst (normalize_video t (PyStr p) (PyStr (norm_name i)) default_params {})"

definition job_outcomes :: "tools \<Rightarrow> path list \<Rightarrow> (pipe_error + unit) list" where
  "job_outcomes t input_videos = map (\<lambda>(i, p). job_outcome t i p) (enumerate 0 input_videos)"

fun first_error :: "(pipe_error + unit) list \<Rightarrow> pipe_error option" where
  "first_error [] = None"
| "first_error (Inl e # _) = Some e"
| "first_error (Inr _ # rs) = first_error rs"

definition normalized_files :: "(pipe_error + unit) list \<Rightarrow> path set" where
  "normalized_files outs = set (map (\<lambda>(i, _). norm_name i) (filter (\<lambda>(_, r). r = Inr ()) (enumerate 0 outs)))"

definition auto_concat ::
  "tools \<Rightarrow> path \<Rightarrow> path list \<Rightarrow> path \<Rightarrow> path set \<Rightarrow> (pipe_error + string) \<times> path set" where
  "auto_concat t cwd input_videos output_path fs =
     (let outs = job_outcomes t input_videos;
          fs1 = fs \<union> normalized_files outs;
          normalized_paths = map norm_name [0..<length input_videos]
      in case first_error outs of
           Some e \<Rightarrow> (Inl e, fs1)
         | None \<Rightarrow>
             (case concat_video t cwd normalized_paths output_path fs1 of
                (Inl e, fs2) \<Rightarrow> (Inl e, fs2)
              | (Inr manifest, fs2) \<Rightarrow>
                  (case remove_all normalized_paths fs2 of
                     (Inl e, fs3) \<Rightarrow> (Inl e, fs3)
                   | (Inr _, fs3) \<Rightarrow> (Inr manifest, fs3))))"

text \<open>
  The reader of the manifest on ffmpeg's side (the concat demuxer, outside this
  repository; modelled from its documentation): each non-empty line is a \<open>file\<close>
  directive whose argument is one token, in which a single quote opens or closes a
  quoted run, a backslash outside quotes escapes the next character, and a blank
  outside quotes ends the token.
\<close>

fun ff_token :: "bool \<Rightarrow> string \<Rightarrow> string" where
  "ff_token q [] = []"
| "ff_token True (c # cs) = (if c = CHR 0x27 then ff_token False cs else c # ff_token True cs)"
| "ff_token False (c # cs) =
     (if c = CHR 0x27 then ff_token True cs
      else if c = CHR 0x5C then (case cs of [] \<Rightarrow> [] | d # ds \<Rightarrow> d # ff_token False ds)
      else if py_isspace c then []
      else c # ff_token False cs)"

definition ff_line :: "string \<Rightarrow> path option" where
  "ff_line l = (if take 5 l = ''file '' then Some (ff_token False (drop 5 l)) else None)"

definition ff_read_manifest :: "string \<Rightarrow> path list option" where
  "ff_read_manifest s = those (map ff_line (filter (\<lambda>l. l \<noteq> []) (py_split_on (CHR 0x0A) s)))"

subsection \<open>Normalizer\<close>

lemma video_args_default: "\<exists>va. video_args t default_params = Inr va"
  by (simp add: video_args_def default_params_def nvenc_bufsize_def py_int_of_str_def py_strip_def
      py_isspace_def py_isdigit_def py_isdigit_char_def nat_of_digits_def digit_val_def)

lemma normalize_command_Inr:
  "normalize_command t i oa prm = Inr cmd \<Longrightarrow> \<exists>outp. oa = PyStr outp \<and> which t ''ffmpeg''"
  by (auto simp: normalize_command_def split: py_arg.splits sum.splits if_splits)

text \<open>
  C15: with the default parameters, whenever ffmpeg is installed, the command
  normalises every input to 1920x1080 at 30 fps, yuv420p, constant frame rate, AAC
  at 48 kHz and 160 kb/s, whatever the input and whichever encoder is chosen.
\<close>

theorem normalize_profile:
  assumes "which t ''ffmpeg''"
  shows "\<exists>va. normalize_command t (PyStr inp) (PyStr outp) default_params =
    Inr ([''ffmpeg'', ''-y'', ''-fflags'', ''+genpts'', ''-i'', inp,
          ''-vf'', ''scale=1920:1080:flags=lanczos,fps=30''] @ va @
         [''-pix_fmt'', ''yuv420p'', ''-fps_mode'', ''cfr'', ''-r'', ''30'',
          ''-movflags'', ''+faststart'', ''-c:a'', ''aac'', ''-ar'', ''48000'', ''-b:a'', ''160k'', outp])"
proof -
  obtain va where "video_args t default_params = Inr va" using video_args_default by blast
  moreover have "scale_filter default_params = ''scale=1920:1080:flags=lanczos,fps=30''"
    by (simp add: scale_filter_def default_params_def py_str_int_def py_str_nat.simps digit_char_def)
  moreover have "py_str_int (fps default_params) = ''30''"
    by (simp add: default_params_def py_str_int_def py_str_nat.simps digit_char_def)
  ultimately show ?thesis using assms by (simp add: normalize_command_def default_params_def)
qed

theorem normalize_profile_witness:
  "\<exists>va. normalize_command \<lparr>which = (\<lambda>_. True), run = (\<lambda>_. 0)\<rparr> (PyStr ''a.mp4'') (PyStr ''normalized_0.mp4'') default_params =
    Inr ([''ffmpeg'', ''-y'', ''-fflags'', ''+genpts'', ''-i'', ''a.mp4'',
          ''-vf'', ''scale=1920:1080:flags=lanczos,fps=30''] @ va @
         [''-pix_fmt'', ''yuv420p'', ''-fps_mode'', ''cfr'', ''-r'', ''30'',
          ''-movflags'', ''+faststart'', ''-c:a'', ''aac'', ''-ar'', ''48000'', ''-b:a'', ''160k'', ''normalized_0.mp4''])"
  using normalize_profile [of "\<lparr>which = (\<lambda>_. True), run = (\<lambda>_. 0)\<rparr>" "''a.mp4''" "''normalized_0.mp4''"]
  by simp

subsection \<open>Orchestrator\<close>

lemma first_error_None: "first_error outs = None \<longleftrightarrow> (\<forall>r \<in> set outs. r = Inr ())"
  by (induction outs rule: first_error.induct) auto

lemma length_job_outcomes [simp]: "length (job_outcomes t vs) = length vs"
  by (simp add: job_outcomes_def)

lemma normalized_files_all_ok:
  "\<forall>r \<in> set outs. r = Inr () \<Longrightarrow> normalized_files outs = set (map norm_name [0..<length outs])"
proof -
  assume ok: "\<forall>r \<in> set outs. r = Inr ()"
  then have "filter (\<lambda>(_, r). r = Inr ()) (enumerate 0 outs) = enumerate 0 outs"
    by (auto simp: filter_id_conv in_set_enumerate_eq)
  moreover have "map (\<lambda>(i, _). norm_name i) (enumerate 0 outs) = map norm_name (map fst (enumerate 0 outs))"
    by (induction outs rule: rev_induct) (auto simp: enumerate_append_eq)
  ultimately show ?thesis by (simp add: normalized_files_def map_fst_enumerate)
qed

lemma py_str_nat_inj: "py_str_nat i = py_str_nat j \<Longrightarrow> i = j"
  by (metis nat_of_digits_py_str_nat)

lemma norm_name_inj: "norm_name i = norm_name j \<longleftrightarrow> i = j"
  by (auto simp: norm_name_def py_str_nat_inj)

lemma norm_name_not_list_file: "norm_name i \<noteq> list_file"
  by (simp add: norm_name_def list_file_def)

lemma remove_all_present:
  "distinct ps \<Longrightarrow> set ps \<subseteq> fs \<Longrightarrow> remove_all ps fs = (Inr (), fs - set ps)"
proof (induction ps arbitrary: fs)
  case (Cons a ps)
  then have "set ps \<subseteq> fs - {a}" by auto
  moreover have "fs - {a} - set ps = fs - insert a (set ps)" by auto
  ultimately show ?case using Cons by simp
qed simp

text \<open>
  C16: when every normalisation job succeeds and the stream copy succeeds (and the
  output is not itself one of the intermediates), the run writes the manifest of
  \<open>normalized_0.mp4, ..., normalized_(n-1).mp4\<close> in submission order, creates the
  output, and leaves no intermediate file behind: neither the normalised clips nor
  \<open>temp.txt\<close>.
\<close>

theorem auto_concat_success:
  assumes ok: "\<forall>r \<in> set (job_outcomes t vs). r = Inr ()"
    and cat: "run t (concat_command output_path) = 0"
    and out: "output_path \<notin> insert list_file (set (map norm_name [0..<length vs]))"
  shows "auto_concat t cwd vs output_path fs =
    (Inr (concat_list cwd (map norm_name [0..<length vs])),
     insert output_path (fs - insert list_file (set (map norm_name [0..<length vs]))))"
proof -
  let ?N = "map norm_name [0..<length vs]"
  have fe: "first_error (job_outcomes t vs) = None" using ok by (simp add: first_error_None)
  have nf: "normalized_files (job_outcomes t vs) = set ?N" using normalized_files_all_ok [OF ok] by simp
  have d: "distinct ?N" by (simp add: distinct_map inj_on_def norm_name_inj)
  let ?fs2 = "insert output_path (insert list_file (fs \<union> set ?N)) - {list_file}"
  have sub: "set ?N \<subseteq> ?fs2" using norm_name_not_list_file by auto
  have "?fs2 - set ?N = insert output_path (fs - insert list_file (set ?N))" using out by auto
  then show ?thesis
    using fe nf cat remove_all_present [OF d sub]
    by (simp add: auto_concat_def concat_video_def Let_def)
qed

theorem auto_concat_success_witness:
  "auto_concat \<lparr>which = (\<lambda>_. True), run = (\<lambda>_. 0)\<rparr> ''C:'' [''a.mp4''] ''out.mp4'' {} =
     (Inr (concat_list ''C:'' [norm_name 0]), {''out.mp4''})"
proof -
  have ok: "\<forall>r \<in> set (job_outcomes \<lparr>which = (\<lambda>_. True), run = (\<lambda>_. 0)\<rparr> [''a.mp4'']). r = Inr ()" by code_simp
  have cat: "run \<lparr>which = (\<lambda>_. True), run = (\<lambda>_. 0)\<rparr> (concat_command ''out.mp4'') = 0" by simp
  have out: "''out.mp4'' \<notin> insert list_file (set (map norm_name [0..<length [''a.mp4'']]))"
    by (simp add: list_file_def norm_name_def)
  show ?thesis using auto_concat_success [OF ok cat out, of "''C:''" "{}"] by simp
qed

text \<open>
  C17: no partial concatenation: the run reports success only when every job
  succeeded, and then the manifest lists every normalised clip in submission order.
\<close>

theorem auto_concat_no_partial:
  assumes "fst (auto_concat t cwd vs output_path fs) = Inr m"
  shows "first_error (job_outcomes t vs) = None \<and> m = concat_list cwd (map norm_name [0..<length vs])"
  using assms
  by (auto simp: auto_concat_def concat_video_def Let_def split: option.splits if_splits sum.splits prod.splits)

theorem auto_concat_no_partial_witness:
  "first_error (job_outcomes \<lparr>which = (\<lambda>_. True), run = (\<lambda>_. 0)\<rparr> [''a.mp4'', ''b.mp4'']) = None \<and>
   concat_list ''C:'' [norm_name 0, norm_name 1] = concat_list ''C:'' (map norm_name [0..<length [''a.mp4'', ''b.mp4'']])"
proof -
  have "fst (auto_concat \<lparr>which = (\<lambda>_. True), run = (\<lambda>_. 0)\<rparr> ''C:'' [''a.mp4'', ''b.mp4''] ''out.mp4'' {}) = Inr (concat_list ''C:'' [norm_name 0, norm_name 1])"
    by code_simp
  from auto_concat_no_partial [OF this] show ?thesis .
qed

subsection \<open>Concatenation manifest\<close>

lemma ff_token_quoted: "CHR 0x27 \<notin> set q \<Longrightarrow> ff_token True (q @ CHR 0x27 # r) = q @ ff_token False r"
  by (induction q) auto

lemma concat_list_Cons:
  "concat_list cwd (p # ps) = manifest_line cwd p @ CHR 0x0A # concat_list cwd ps"
  by (simp add: concat_list_def)

lemma split_concat_list:
  assumes "\<forall>p \<in> set ps. CHR 0x0A \<notin> set (manifest_entry cwd p)"
  shows "py_split_on (CHR 0x0A) (concat_list cwd ps) = map (manifest_line cwd) ps @ [[]]"
  using assms
proof (induction ps)
  case Nil
  then show ?case by (simp add: concat_list_def py_split_on_def)
next
  case (Cons p ps)
  then have "\<not> list_ex (\<lambda>c. c = CHR 0x0A) (manifest_line cwd p)"
    by (auto simp: list_ex_iff manifest_line_def)
  then have "py_split_by (\<lambda>c. c = CHR 0x0A) (manifest_line cwd p @ CHR 0x0A # concat_list cwd ps) =
      manifest_line cwd p # py_split_by (\<lambda>c. c = CHR 0x0A) (concat_list cwd ps)"
    by (rule py_split_by_append) simp
  with Cons show ?case by (simp add: concat_list_Cons py_split_on_def)
qed

lemma count_mset_le_length: "count (mset xs) a \<le> length xs"
  by (induction xs) auto

lemma ff_token_length:
  "length (ff_token b s) + count (mset s) (CHR 0x27) \<le> length s"
  by (induction b s rule: ff_token.induct)
     (auto split: list.splits intro: le_SucI count_mset_le_length)

lemma ff_token_quote_changes:
  "CHR 0x27 \<in> set e \<Longrightarrow> ff_token True (e @ [CHR 0x27]) \<noteq> e"
proof
  assume q: "CHR 0x27 \<in> set e" and eq: "ff_token True (e @ [CHR 0x27]) = e"
  have "0 < count (mset e) (CHR 0x27)" using q by simp
  moreover have "length (ff_token True (e @ [CHR 0x27])) + count (mset e) (CHR 0x27) + 1 \<le> length e + 1"
    using ff_token_length [of True "e @ [CHR 0x27]"] by simp
  ultimately show False using eq by simp
qed

lemma ff_read_concat_list:
  assumes "\<forall>p \<in> set ps. CHR 0x0A \<notin> set (manifest_entry cwd p)"
  shows "ff_read_manifest (concat_list cwd ps) =
           Some (map (\<lambda>p. ff_token True (manifest_entry cwd p @ [CHR 0x27])) ps)"
proof -
  have "filter (\<lambda>l. l \<noteq> []) (py_split_on (CHR 0x0A) (concat_list cwd ps)) = map (manifest_line cwd) ps"
    using split_concat_list [OF assms] by (simp add: filter_id_conv manifest_line_def)
  moreover have "\<forall>p \<in> set ps. ff_line (manifest_line cwd p) = Some (ff_token True (manifest_entry cwd p @ [CHR 0x27]))"
    by (simp add: ff_line_def manifest_line_def)
  ultimately show ?thesis by (simp add: ff_read_manifest_def those_map_Some)
qed

text \<open>
  C18: the manifest written by \<open>concat_video\<close> is read back by ffmpeg's concat
  demuxer as exactly the clips given, in the given order, as absolute slash-separated
  paths, provided no path contains a single quote or a line break.
\<close>

theorem concat_manifest_roundtrip:
  assumes "\<forall>p \<in> set ps. CHR 0x27 \<notin> set (manifest_entry cwd p) \<and> CHR 0x0A \<notin> set (manifest_entry cwd p)"
  shows "ff_read_manifest (concat_list cwd ps) = Some (map (manifest_entry cwd) ps)"
proof -
  have "py_split_on (CHR 0x0A) (concat_list cwd ps) = map (manifest_line cwd) ps @ [[]]"
    using assms by (intro split_concat_list) auto
  then have "filter (\<lambda>l. l \<noteq> []) (py_split_on (CHR 0x0A) (concat_list cwd ps)) = map (manifest_line cwd) ps"
    by (simp add: filter_id_conv manifest_line_def)
  moreover have "\<forall>p \<in> set ps. ff_line (manifest_line cwd p) = Some (manifest_entry cwd p)"
    using assms by (simp add: ff_line_def manifest_line_def ff_token_quoted)
  ultimately show ?thesis
    by (simp add: ff_read_manifest_def those_map_Some)
qed

theorem concat_manifest_roundtrip_witness:
  "ff_read_manifest (concat_list ''C:'' [norm_name 0, norm_name 1]) =
     Some [''C:/normalized_0.mp4'', ''C:/normalized_1.mp4'']"
proof -
  have "\<forall>p \<in> set [norm_name 0, norm_name 1].
          CHR 0x27 \<notin> set (manifest_entry ''C:'' p) \<and> CHR 0x0A \<notin> set (manifest_entry ''C:'' p)"
    by code_simp
  from concat_manifest_roundtrip [OF this] show ?thesis by code_simp
qed

text \<open>
  C19: the manifest line is written with no escaping, so a single quote in a path
  breaks the round trip: when no path holds a line break, ffmpeg reads the manifest
  back as the given clips exactly when no clip's path contains a single quote.
\<close>

theorem concat_manifest_apostrophe:
  assumes "\<forall>p \<in> set ps. CHR 0x0A \<notin> set (manifest_entry cwd p)"
  shows "ff_read_manifest (concat_list cwd ps) = Some (map (manifest_entry cwd) ps) \<longleftrightarrow>
           (\<forall>p \<in> set ps. CHR 0x27 \<notin> set (manifest_entry cwd p))"
  using ff_token_quote_changes ff_token_quoted [of _ "[]"]
  by (auto simp: ff_read_concat_list [OF assms])

theorem concat_manifest_apostrophe_witness:
  "CHR 0x0A \<notin> set (manifest_entry ''C:'' (''it'' @ CHR 0x27 # ''s.mp4'')) \<and>
   ff_read_manifest (concat_list ''C:'' [''it'' @ CHR 0x27 # ''s.mp4'']) \<noteq>
     Some (map (manifest_entry ''C:'') [''it'' @ CHR 0x27 # ''s.mp4''])"
proof -
  have n: "\<forall>p \<in> set [''it'' @ CHR 0x27 # ''s.mp4'']. CHR 0x0A \<notin> set (manifest_entry ''C:'' p)"
    by code_simp
  have q: "\<not> (\<forall>p \<in> set [''it'' @ CHR 0x27 # ''s.mp4'']. CHR 0x27 \<notin> set (manifest_entry ''C:'' p))"
    by code_simp
  have n1: "CHR 0x0A \<notin> set (manifest_entry ''C:'' (''it'' @ CHR 0x27 # ''s.mp4''))" by code_simp
  show ?thesis using concat_manifest_apostrophe [OF n] n1 q by blast
qed

text \<open>
  C20: an output path that is one of the run's own intermediate files
  (\<open>normalized_i.mp4\<close> of an input, or \<open>temp.txt\<close>) is deleted by the cleanup: when
  every job and the stream copy succeed, the run reports success with the full
  manifest, and the output file no longer exists.
\<close>

theorem auto_concat_deletes_output:
  assumes ok: "\<forall>r \<in> set (job_outcomes t vs). r = Inr ()"
    and cat: "run t (concat_command output_path) = 0"
    and out: "output_path \<in> insert list_file (set (map norm_name [0..<length vs]))"
  shows "fst (auto_concat t cwd vs output_path fs) = Inr (concat_list cwd (map norm_name [0..<length vs])) \<and>
         output_path \<notin> snd (auto_concat t cwd vs output_path fs)"
proof -
  let ?N = "map norm_name [0..<length vs]"
  have fe: "first_error (job_outcomes t vs) = None" using ok by (simp add: first_error_None)
  have nf: "normalized_files (job_outcomes t vs) = set ?N" using normalized_files_all_ok [OF ok] by simp
  have d: "distinct ?N" by (simp add: distinct_map inj_on_def norm_name_inj)
  let ?fs2 = "insert output_path (insert list_file (fs \<union> set ?N)) - {list_file}"
  have sub: "set ?N \<subseteq> ?fs2" using norm_name_not_list_file by auto
  have gone: "output_path \<notin> ?fs2 - set ?N" using out by auto
  have "auto_concat t cwd vs output_path fs = (Inr (concat_list cwd ?N), ?fs2 - set ?N)"
    using fe nf cat remove_all_present [OF d sub]
    by (simp add: auto_concat_def concat_video_def Let_def)
  with gone show ?thesis by simp
qed

theorem auto_concat_deletes_output_witness:
  "job_outcomes \<lparr>which = (\<lambda>_. True), run = (\<lambda>_. 0)\<rparr> [''a.mp4''] = [Inr ()] \<and>
   run \<lparr>which = (\<lambda>_. True), run = (\<lambda>_. 0)\<rparr> (concat_command (norm_name 0)) = 0 \<and>
   norm_name 0 \<in> insert list_file (set (map norm_name [0..<length [''a.mp4'']])) \<and>
   fst (auto_concat \<lparr>which = (\<lambda>_. True), run = (\<lambda>_. 0)\<rparr> ''C:'' [''a.mp4''] (norm_name 0) {}) =
     Inr (concat_list ''C:'' (map norm_name [0..<length [''a.mp4'']])) \<and>
   norm_name 0 \<notin> snd (auto_concat \<lparr>which = (\<lambda>_. True), run = (\<lambda>_. 0)\<rparr> ''C:'' [''a.mp4''] (norm_name 0) {})"
proof -
  have jo: "job_outcomes \<lparr>which = (\<lambda>_. True), run = (\<lambda>_. 0)\<rparr> [''a.mp4''] = [Inr ()]" by code_simp
  have ok: "\<forall>r \<in> set (job_outcomes \<lparr>which = (\<lambda>_. True), run = (\<lambda>_. 0)\<rparr> [''a.mp4'']). r = Inr ()"
    by (simp add: jo)
  have cat: "run \<lparr>which = (\<lambda>_. True), run = (\<lambda>_. 0)\<rparr> (concat_command (norm_name 0)) = 0" by simp
  have out: "norm_name 0 \<in> insert list_file (set (map norm_name [0..<length [''a.mp4'']]))" by simp
  show ?thesis using auto_concat_deletes_output [OF ok cat out, of "''C:''" "{}"] jo cat out by blast
qed

text \<open>
  With the NVENC encoder available, a fractional megabit bitrate such as
  \<open>"1.5M"\<close> raises \<open>ValueError\<close> while building the command (\<open>int("1.5")\<close>), although
  the same parameters are accepted when the software encoder is chosen.
\<close>

lemma normalize_fractional_bitrate:
  "normalize_command \<lparr>which = (\<lambda>_. True), run = (\<lambda>_. 0)\<rparr> (PyStr ''a.mp4'') (PyStr ''b.mp4'') (default_params\<lparr>v_bitrate := ''1.5M''\<rparr>) = Inl ValueError
   \<and> \<not> isl (normalize_command \<lparr>which = (\<lambda>c. c = ''ffmpeg''), run = (\<lambda>_. 0)\<rparr> (PyStr ''a.mp4'') (PyStr ''b.mp4'')
              (default_params\<lparr>v_bitrate := ''1.5M''\<rparr>))"
  by code_simp

end
