(* ===== verification/Module4.thy ===== *)
theory Module4
  imports Pipeline
begin

text \<open>
  \<^verbatim>\<open>src/main/module4.py\<close> repeats \<open>normalize_video\<close>, \<open>concat_video\<close> and
  \<open>auto_concat\<close> of \<^verbatim>\<open>module3.py\<close> (and \<open>get_video_duration\<close>, in \<open>Probe\<close>).  The
  copies are translated here on their own, calling each other as in module4.py, and
  proved equal to the module3.py originals, so every theorem of \<open>Pipeline\<close> and
  \<open>Pool\<close> holds of module4.py as well.
\<close>

definition normalize_command4 ::
  "tools \<Rightarrow> py_arg \<Rightarrow> py_arg \<Rightarrow> norm_params \<Rightarrow> pipe_error + string list" where
  "normalize_command4 t input_path output_path prm =
     (case (input_path, output_path) of
        (PyStr inp, PyStr outp) \<Rightarrow>
          if \<not> which t ''ffmpeg'' then Inl RuntimeError
          else
            (case video_args t prm of
               Inl e \<Rightarrow> Inl e
             | Inr va \<Rightarrow>
                 Inr ([''ffmpeg'', ''-y'', ''-fflags'', ''+genpts'', ''-i'', inp,
                       ''-vf'', scale_filter prm] @ va @
                      [''-pix_fmt'', ''yuv420p'', ''-fps_mode'', ''cfr'', ''-r'', py_str_int (fps prm),
                       ''-movflags'', ''+faststart'', ''-c:a'', ''aac'', ''-ar'', ''48000'',
                       ''-b:a'', a_bitrate prm, outp]))
      | _ \<Rightarrow> Inl TypeError)"

definition normalize_video4 ::
  "tools \<Rightarrow> py_arg \<Rightarrow> py_arg \<Rightarrow> norm_params \<Rightarrow> path set \<Rightarrow> (pipe_error + unit) \<times> path set" where
  "normalize_video4 t input_path output_path prm fs =
     (case normalize_command4 t input_path output_path prm of
        Inl e \<Rightarrow> (Inl e, fs)
      | Inr cmd \<Rightarrow>
          (if run t cmd = 0
           then (Inr (), case output_path of PyStr outp \<Rightarrow> insert outp fs | PyOther \<Rightarrow> fs)
           else (Inl (CalledProcessError (run t cmd)), fs)))"

definition concat_video4 ::
  "tools \<Rightarrow> path \<Rightarrow> path list \<Rightarrow> path \<Rightarrow> path set \<Rightarrow> (pipe_error + string) \<times> path set" where
  "concat_video4 t cwd video_paths output_path fs =
     (let fs1 = insert list_file fs; cmd = concat_command output_path in
      if run t cmd = 0 then (Inr (concat_list cwd video_paths), insert output_path fs1 - {list_file})
      else (Inl (CalledProcessError (run t cmd)), fs1))"

definition job_outcomes4 :: "tools \<Rightarrow> path list \<Rightarrow> (pipe_error + unit) list" where
  "job_outcomes4 t input_videos =
     map (\<lambda>(i, p). fst (normalize_video4 t (PyStr p) (PyStr (norm_name i)) default_params {}))
       (enumerate 0 input_videos)"

definition auto_concat4 ::
  "tools \<Rightarrow> path \<Rightarrow> path list \<Rightarrow> path \<Rightarrow> path set \<Rightarrow> (pipe_error + string) \<times> path set" where
  "auto_concat4 t cwd input_videos output_path fs =
     (let outs = job_outcomes4 t input_videos;
          fs1 = fs \<union> normalized_files outs;
          normalized_paths = map norm_name [0..<length input_videos]
      in case first_error outs of
           Some e \<Rightarrow> (Inl e, fs1)
         | None \<Rightarrow>
             (case concat_video4 t cwd normalized_paths output_path fs1 of
                (Inl e, fs2) \<Rightarrow> (Inl e, fs2)
              | (Inr manifest, fs2) \<Rightarrow>
                  (case remove_all normalized_paths fs2 of
                     (Inl e, fs3) \<Rightarrow> (Inl e, fs3)
                   | (Inr _, fs3) \<Rightarrow> (Inr manifest, fs3))))"

lemma normalize_video4_eq: "normalize_video4 = normalize_video"
  by (intro ext) (simp add: normalize_video4_def normalize_video_def normalize_command4_def normalize_command_def)

lemma concat_video4_eq: "concat_video4 = concat_video"
  by (intro ext) (simp add: concat_video4_def concat_video_def)

lemma job_outcomes4_eq: "job_outcomes4 = job_outcomes"
  by (intro ext) (simp add: job_outcomes4_def job_outcomes_def job_outcome_def normalize_video4_eq)

lemma auto_concat4_eq: "auto_concat4 = auto_concat"
  by (intro ext) (simp only: auto_concat4_def auto_concat_def concat_video4_eq job_outcomes4_eq)

end
