(* ===== verification/Pool.thy ===== *)
theory Pool
  imports Pipeline
begin

text \<open>
  The worker pool of \<open>auto_concat\<close> (\<^verbatim>\<open>src/main/module3.py\<close>):
  \<open>ThreadPoolExecutor(max_workers=6)\<close>, one submitted job per input, the main thread
  waiting on the futures in submission order, and the exit of the \<open>with\<close> block,
  whose \<open>shutdown(wait=True)\<close> waits for every submitted job.  The state holds the
  work queue (FIFO), the jobs running on a worker, the finished jobs and the main
  thread's position.  A job's outcome is fixed by its inputs (\<open>outs ! i\<close>, the
  outcome of \<open>normalize_video\<close> on input \<open>i\<close>), so a schedule decides only when jobs
  start and finish.  The submission loop is folded into the initial state: every job
  is queued before the main thread waits on the first future, and workers take queued
  jobs in order, so interleaving submissions with starts changes no outcome.
\<close>

datatype main_thread =
    Collecting nat
  | Raised pipe_error
  | Exited "pipe_error option"

record pool_state =
  queue :: "nat list"
  running :: "nat list"
  finished :: "nat set"
  main :: main_thread

definition max_workers :: nat where
  "max_workers = 6"

definition pool_init :: "nat \<Rightarrow> pool_state" where
  "pool_init n = \<lparr>queue = [0..<n], running = [], finished = {}, main = Collecting 0\<rparr>"

inductive pool_step :: "(pipe_error + unit) list \<Rightarrow> pool_state \<Rightarrow> pool_state \<Rightarrow> bool" for outs where
  start: "queue s = i # q \<Longrightarrow> length (running s) < max_workers \<Longrightarrow>
            pool_step outs s (s\<lparr>queue := q, running := running s @ [i]\<rparr>)"
| finish: "i \<in> set (running s) \<Longrightarrow>
            pool_step outs s (s\<lparr>running := remove1 i (running s), finished := insert i (finished s)\<rparr>)"
| collect_ok: "main s = Collecting k \<Longrightarrow> k < length outs \<Longrightarrow> k \<in> finished s \<Longrightarrow> outs ! k = Inr () \<Longrightarrow>
            pool_step outs s (s\<lparr>main := Collecting (Suc k)\<rparr>)"
| collect_err: "main s = Collecting k \<Longrightarrow> k < length outs \<Longrightarrow> k \<in> finished s \<Longrightarrow> outs ! k = Inl e \<Longrightarrow>
            pool_step outs s (s\<lparr>main := Raised e\<rparr>)"
| exit_ok: "main s = Collecting (length outs) \<Longrightarrow> queue s = [] \<Longrightarrow> running s = [] \<Longrightarrow>
            pool_step outs s (s\<lparr>main := Exited None\<rparr>)"
| exit_err: "main s = Raised e \<Longrightarrow> queue s = [] \<Longrightarrow> running s = [] \<Longrightarrow>
            pool_step outs s (s\<lparr>main := Exited (Some e)\<rparr>)"

inductive pool_reach :: "(pipe_error + unit) list \<Rightarrow> pool_state \<Rightarrow> bool" for outs where
  init: "pool_reach outs (pool_init (length outs))"
| step: "pool_reach outs s \<Longrightarrow> pool_step outs s s' \<Longrightarrow> pool_reach outs s'"

definition main_inv :: "(pipe_error + unit) list \<Rightarrow> main_thread \<Rightarrow> bool" where
  "main_inv outs m =
     (case m of
        Collecting k \<Rightarrow> k \<le> length outs \<and> (\<forall>j < k. outs ! j = Inr ())
      | Raised e \<Rightarrow> first_error outs = Some e
      | Exited r \<Rightarrow> r = first_error outs)"

definition pool_inv :: "(pipe_error + unit) list \<Rightarrow> pool_state \<Rightarrow> bool" where
  "pool_inv outs s \<longleftrightarrow>
     distinct (running s) \<and> length (running s) \<le> max_workers \<and>
     (\<exists>m \<le> length outs. queue s = [m..<length outs] \<and>
        set (running s) \<union> finished s = {..<m} \<and> set (running s) \<inter> finished s = {}) \<and>
     (\<forall>k. main s = Collecting k \<longrightarrow> {..<k} \<subseteq> finished s) \<and>
     (\<forall>r. main s = Exited r \<longrightarrow> queue s = [] \<and> running s = []) \<and>
     main_inv outs (main s)"

text \<open>
  A bound on the number of steps left: each start moves a job from the queue to a
  worker, each finish frees a worker, each collection advances the main thread.
\<close>

definition pool_measure :: "(pipe_error + unit) list \<Rightarrow> pool_state \<Rightarrow> nat" where
  "pool_measure outs s =
     2 * length (queue s) + length (running s) +
     (case main s of Collecting k \<Rightarrow> length outs - k + 2 | Raised _ \<Rightarrow> 1 | Exited _ \<Rightarrow> 0)"

lemma first_error_at:
  "\<forall>j < k. outs ! j = Inr () \<Longrightarrow> k < length outs \<Longrightarrow> outs ! k = Inl e \<Longrightarrow> first_error outs = Some e"
proof (induction outs arbitrary: k rule: first_error.induct)
  case (2 e' rs)
  then show ?case by (cases k) auto
next
  case (3 u rs)
  show ?case
  proof (cases k)
    case (Suc k')
    with "3.prems"(1) have "\<forall>j < k'. rs ! j = Inr ()" by (metis Suc_mono nth_Cons_Suc)
    with "3.IH" [of k'] "3.prems" Suc show ?thesis by simp
  qed (use "3.prems" in simp)
qed simp

lemma first_error_all_ok: "\<forall>j < length outs. outs ! j = Inr () \<Longrightarrow> first_error outs = None"
  by (simp add: first_error_None all_set_conv_all_nth)


lemma upt_eq_Cons_conv': "[m..<n] = i # q \<longleftrightarrow> m < n \<and> i = m \<and> q = [Suc m..<n]"
  by (auto simp: upt_eq_Cons_conv)

lemma pool_invI:
  assumes "distinct (running s)" "length (running s) \<le> max_workers" "m \<le> length outs"
    "queue s = [m..<length outs]" "set (running s) \<union> finished s = {..<m}"
    "set (running s) \<inter> finished s = {}" "\<forall>k. main s = Collecting k \<longrightarrow> {..<k} \<subseteq> finished s"
    "\<forall>r. main s = Exited r \<longrightarrow> queue s = [] \<and> running s = []" "main_inv outs (main s)"
  shows "pool_inv outs s"
  using assms unfolding pool_inv_def by blast

lemma pool_inv_init: "pool_inv outs (pool_init (length outs))"
  by (rule pool_invI [where m = 0]) (simp_all add: pool_init_def main_inv_def)

lemma pool_invE:
  assumes "pool_inv outs s"
  obtains m where "distinct (running s)" "length (running s) \<le> max_workers" "m \<le> length outs"
    "queue s = [m..<length outs]" "set (running s) \<union> finished s = {..<m}"
    "set (running s) \<inter> finished s = {}" "\<forall>k. main s = Collecting k \<longrightarrow> {..<k} \<subseteq> finished s"
    "\<forall>r. main s = Exited r \<longrightarrow> queue s = [] \<and> running s = []" "main_inv outs (main s)"
  using assms unfolding pool_inv_def by blast

lemma pool_inv_start:
  assumes inv: "pool_inv outs s" and q: "queue s = i # q" and w: "length (running s) < max_workers"
  shows "pool_inv outs (s\<lparr>queue := q, running := running s @ [i]\<rparr>)"
proof -
  from inv obtain m where d: "distinct (running s)" and m: "m \<le> length outs" "queue s = [m..<length outs]"
      "set (running s) \<union> finished s = {..<m}" "set (running s) \<inter> finished s = {}"
    and c: "\<forall>k. main s = Collecting k \<longrightarrow> {..<k} \<subseteq> finished s"
    and x: "\<forall>r. main s = Exited r \<longrightarrow> queue s = [] \<and> running s = []"
    and mi: "main_inv outs (main s)"
    by (rule pool_invE)
  from q m(2) have im: "i = m" "m < length outs" "q = [Suc m..<length outs]"
    by (simp_all add: upt_eq_Cons_conv')
  have "m \<notin> set (running s) \<union> finished s" unfolding m(3) by simp
  then have new: "i \<notin> set (running s)" "i \<notin> finished s" unfolding im(1) by simp_all
  show ?thesis
  proof (rule pool_invI [where m = "Suc m"])
    show "set (running (s\<lparr>queue := q, running := running s @ [i]\<rparr>)) \<union>
        finished (s\<lparr>queue := q, running := running s @ [i]\<rparr>) = {..<Suc m}"
      using m(3) unfolding im(1) lessThan_Suc by auto
    show "set (running (s\<lparr>queue := q, running := running s @ [i]\<rparr>)) \<inter>
        finished (s\<lparr>queue := q, running := running s @ [i]\<rparr>) = {}"
      using m(4) new by auto
    show "\<forall>r. main (s\<lparr>queue := q, running := running s @ [i]\<rparr>) = Exited r \<longrightarrow>
        queue (s\<lparr>queue := q, running := running s @ [i]\<rparr>) = [] \<and>
        running (s\<lparr>queue := q, running := running s @ [i]\<rparr>) = []"
      using x q by simp
  qed (use d new w im c mi in simp_all)
qed

lemma pool_inv_finish:
  assumes inv: "pool_inv outs s" and i: "i \<in> set (running s)"
  shows "pool_inv outs (s\<lparr>running := remove1 i (running s), finished := insert i (finished s)\<rparr>)"
proof -
  from inv obtain m where m: "m \<le> length outs" "queue s = [m..<length outs]"
      "set (running s) \<union> finished s = {..<m}" "set (running s) \<inter> finished s = {}"
    unfolding pool_inv_def by blast
  have d: "distinct (running s)" and l: "length (running s) \<le> max_workers"
    and mi: "main_inv outs (main s)" and c: "\<forall>k. main s = Collecting k \<longrightarrow> {..<k} \<subseteq> finished s"
    and x: "\<forall>r. main s = Exited r \<longrightarrow> queue s = [] \<and> running s = []"
    using inv unfolding pool_inv_def by blast+
  then have r: "set (remove1 i (running s)) = set (running s) - {i}" by simp
  show ?thesis
  proof (rule pool_invI [where m = m])
    show "set (running (s\<lparr>running := remove1 i (running s), finished := insert i (finished s)\<rparr>)) \<union>
        finished (s\<lparr>running := remove1 i (running s), finished := insert i (finished s)\<rparr>) = {..<m}"
      using m(3) i r by auto
    show "set (running (s\<lparr>running := remove1 i (running s), finished := insert i (finished s)\<rparr>)) \<inter>
        finished (s\<lparr>running := remove1 i (running s), finished := insert i (finished s)\<rparr>) = {}"
      using m(4) r by auto
    show "length (running (s\<lparr>running := remove1 i (running s), finished := insert i (finished s)\<rparr>)) \<le> max_workers"
      using l by (auto simp: length_remove1)
    show "\<forall>r. main (s\<lparr>running := remove1 i (running s), finished := insert i (finished s)\<rparr>) = Exited r \<longrightarrow>
        queue (s\<lparr>running := remove1 i (running s), finished := insert i (finished s)\<rparr>) = [] \<and>
        running (s\<lparr>running := remove1 i (running s), finished := insert i (finished s)\<rparr>) = []"
      using x i by fastforce
    show "\<forall>k. main (s\<lparr>running := remove1 i (running s), finished := insert i (finished s)\<rparr>) = Collecting k \<longrightarrow>
        {..<k} \<subseteq> finished (s\<lparr>running := remove1 i (running s), finished := insert i (finished s)\<rparr>)"
      using c by fastforce
  qed (simp_all add: d m(1,2) mi)
qed

lemma pool_inv_main:
  assumes "pool_inv outs s" "main_inv outs m" "\<forall>k. m = Collecting k \<longrightarrow> {..<k} \<subseteq> finished s"
    "\<forall>r. m = Exited r \<longrightarrow> queue s = [] \<and> running s = []"
  shows "pool_inv outs (s\<lparr>main := m\<rparr>)"
proof -
  from assms(1) obtain n where "distinct (running s)" "length (running s) \<le> max_workers" "n \<le> length outs"
    "queue s = [n..<length outs]" "set (running s) \<union> finished s = {..<n}"
    "set (running s) \<inter> finished s = {}"
    by (rule pool_invE)
  with assms(2-4) show ?thesis by (intro pool_invI [where m = n]) simp_all
qed

lemma pool_inv_collect_ok:
  assumes inv: "pool_inv outs s" "main s = Collecting k" "k < length outs" "k \<in> finished s" "outs ! k = Inr ()"
  shows "pool_inv outs (s\<lparr>main := Collecting (Suc k)\<rparr>)"
proof (rule pool_inv_main [OF inv(1)])
  have "main_inv outs (Collecting k)" "{..<k} \<subseteq> finished s"
    using inv(1,2) unfolding pool_inv_def by auto
  then show "main_inv outs (Collecting (Suc k))" "\<forall>k'. Collecting (Suc k) = Collecting k' \<longrightarrow> {..<k'} \<subseteq> finished s"
    using inv(3-5) by (auto simp: main_inv_def less_Suc_eq)
qed simp

lemma pool_inv_collect_err:
  assumes inv: "pool_inv outs s" "main s = Collecting k" "k < length outs" "outs ! k = Inl e"
  shows "pool_inv outs (s\<lparr>main := Raised e\<rparr>)"
proof (rule pool_inv_main [OF inv(1)])
  have "main_inv outs (Collecting k)" using inv(1,2) unfolding pool_inv_def by auto
  then show "main_inv outs (Raised e)"
    using first_error_at [of k outs e] inv(3,4) by (simp add: main_inv_def)
qed simp_all

lemma pool_inv_exit_ok:
  assumes inv: "pool_inv outs s" "main s = Collecting (length outs)" "queue s = []" "running s = []"
  shows "pool_inv outs (s\<lparr>main := Exited None\<rparr>)"
proof (rule pool_inv_main [OF inv(1)])
  have "main_inv outs (Collecting (length outs))" using inv(1,2) unfolding pool_inv_def by auto
  then show "main_inv outs (Exited None)"
    using first_error_all_ok [of outs] by (simp add: main_inv_def)
qed (simp_all add: inv(3,4))

lemma pool_inv_exit_err:
  assumes inv: "pool_inv outs s" "main s = Raised e" "queue s = []" "running s = []"
  shows "pool_inv outs (s\<lparr>main := Exited (Some e)\<rparr>)"
proof (rule pool_inv_main [OF inv(1)])
  have "main_inv outs (Raised e)" using inv(1,2) unfolding pool_inv_def by auto
  then show "main_inv outs (Exited (Some e))" by (simp add: main_inv_def)
qed (simp_all add: inv(3,4))

lemma pool_inv_step: "pool_step outs s s' \<Longrightarrow> pool_inv outs s \<Longrightarrow> pool_inv outs s'"
proof (induction rule: pool_step.induct)
  case (start s i q)
  from start.prems start.hyps show ?case by (rule pool_inv_start)
next
  case (finish i s)
  from finish.prems finish.hyps show ?case by (rule pool_inv_finish)
next
  case (collect_ok s k)
  from collect_ok.prems collect_ok.hyps show ?case by (rule pool_inv_collect_ok)
next
  case (collect_err s k e)
  from collect_err.prems collect_err.hyps(1,2,4) show ?case by (rule pool_inv_collect_err)
next
  case (exit_ok s)
  from exit_ok.prems exit_ok.hyps show ?case by (rule pool_inv_exit_ok)
next
  case (exit_err s e)
  from exit_err.prems exit_err.hyps show ?case by (rule pool_inv_exit_err)
qed

lemma pool_reach_inv: "pool_reach outs s \<Longrightarrow> pool_inv outs s"
  by (induction rule: pool_reach.induct) (auto intro: pool_inv_init pool_inv_step)

lemma pool_exit:
  assumes "pool_inv outs s" "main s = Exited r"
  shows "r = first_error outs \<and> queue s = [] \<and> running s = [] \<and> finished s = {..<length outs}"
proof -
  from assms(1) obtain m where m: "m \<le> length outs" "queue s = [m..<length outs]"
      "set (running s) \<union> finished s = {..<m}"
    and x: "\<forall>r. main s = Exited r \<longrightarrow> queue s = [] \<and> running s = []"
    and mi: "main_inv outs (main s)"
    by (rule pool_invE)
  with assms(2) have e: "queue s = []" "running s = []" by simp_all
  with m(2) have "[m..<length outs] = []" by simp
  with m(1) have "m = length outs" by auto
  with m(3) e have "finished s = {..<length outs}" by simp
  with e mi assms(2) show ?thesis by (simp add: main_inv_def)
qed

lemma pool_step_measure: "pool_step outs s s' \<Longrightarrow> pool_measure outs s' < pool_measure outs s"
proof (induction rule: pool_step.induct)
  case (finish i s)
  then have "0 < length (running s)" by (rule length_pos_if_in_set)
  with finish have "length (remove1 i (running s)) < length (running s)"
    by (simp add: length_remove1)
  then show ?case by (simp add: pool_measure_def)
qed (auto simp: pool_measure_def)

lemma pool_progress:
  assumes inv: "pool_inv outs s" and nx: "\<forall>r. main s \<noteq> Exited r"
  shows "\<exists>s'. pool_step outs s s'"
proof (cases "running s")
  case (Cons i rs)
  then show ?thesis using pool_step.finish [of i s outs] by auto
next
  case Nil
  from inv obtain m where m: "m \<le> length outs" "queue s = [m..<length outs]"
      "set (running s) \<union> finished s = {..<m}"
    and c: "\<forall>k. main s = Collecting k \<longrightarrow> {..<k} \<subseteq> finished s"
    and mi: "main_inv outs (main s)"
    by (rule pool_invE)
  show ?thesis
  proof (cases "queue s")
    case (Cons i q)
    with Nil show ?thesis using pool_step.start [of s i q outs] by (auto simp: max_workers_def)
  next
    case qn: Nil
    with m(2) have "[m..<length outs] = []" by simp
    with m(1) have "m = length outs" by auto
    with m(3) Nil have fin: "finished s = {..<length outs}" by simp
    show ?thesis
    proof (cases "main s")
      case (Collecting k)
      show ?thesis
      proof (cases "k < length outs")
        case True
        with fin have kf: "k \<in> finished s" by simp
        show ?thesis
        proof (cases "outs ! k")
          case (Inl e)
          with Collecting True kf show ?thesis using pool_step.collect_err [of s k outs e] by blast
        next
          case (Inr u)
          with Collecting True kf show ?thesis using pool_step.collect_ok [of s k outs] by simp blast
        qed
      next
        case False
        with mi Collecting have "k = length outs" by (simp add: main_inv_def)
        with Collecting qn Nil show ?thesis using pool_step.exit_ok [of s outs] by blast
      qed
    next
      case (Raised e)
      with qn Nil show ?thesis using pool_step.exit_err [of s e outs] by blast
    next
      case (Exited r)
      with nx show ?thesis by simp
    qed
  qed
qed

lemma pool_reach_steps: "(pool_step outs)\<^sup>*\<^sup>* s s' \<Longrightarrow> pool_reach outs s \<Longrightarrow> pool_reach outs s'"
  by (induction rule: rtranclp_induct) (auto intro: pool_reach.step)

lemma pool_reaches_exit:
  "pool_reach outs s \<Longrightarrow> \<exists>s'. (pool_step outs)\<^sup>*\<^sup>* s s' \<and> (\<exists>r. main s' = Exited r)"
proof (induction "pool_measure outs s" arbitrary: s rule: less_induct)
  case less
  show ?case
  proof (cases "\<exists>r. main s = Exited r")
    case True
    then show ?thesis by blast
  next
    case False
    with pool_progress [OF pool_reach_inv [OF less.prems]] obtain s1 where st: "pool_step outs s s1"
      by blast
    have "pool_reach outs s1" using less.prems st by (rule pool_reach.step)
    with less.hyps [OF pool_step_measure [OF st]] obtain s' where
      "(pool_step outs)\<^sup>*\<^sup>* s1 s'" "\<exists>r. main s' = Exited r" by blast
    with st show ?thesis by (meson converse_rtranclp_into_rtranclp)
  qed
qed

lemma normalized_files_nth:
  "normalized_files outs = norm_name ` {i. i < length outs \<and> outs ! i = Inr ()}"
  by (force simp: normalized_files_def in_set_enumerate_eq image_iff)

lemma pool_reach_start:
  "pool_reach outs s \<Longrightarrow> queue s = i # q \<Longrightarrow> length (running s) < max_workers \<Longrightarrow>
     pool_reach outs (s\<lparr>queue := q, running := running s @ [i]\<rparr>)"
  by (rule pool_reach.step) (auto intro: pool_step.start)

lemma pool_reach_finish:
  "pool_reach outs s \<Longrightarrow> i \<in> set (running s) \<Longrightarrow>
     pool_reach outs (s\<lparr>running := remove1 i (running s), finished := insert i (finished s)\<rparr>)"
  by (rule pool_reach.step) (auto intro: pool_step.finish)

text \<open>
  C22: in every reachable state of the pool at most six jobs run at once, no job runs
  twice, and jobs start in submission order: the started jobs are exactly
  \<open>0, ..., m-1\<close> for the queue \<open>[m..<n]\<close>, each either running or finished.
\<close>

theorem pool_bounded_fifo:
  assumes "pool_reach outs s"
  shows "length (running s) \<le> max_workers \<and> distinct (running s) \<and>
         (\<exists>m \<le> length outs. queue s = [m..<length outs] \<and>
            set (running s) \<union> finished s = {..<m} \<and> set (running s) \<inter> finished s = {})"
  using pool_reach_inv [OF assms] unfolding pool_inv_def by blast

theorem pool_bounded_fifo_witness:
  "length (running (pool_init 3)) \<le> max_workers \<and> distinct (running (pool_init 3)) \<and>
   (\<exists>m \<le> length [Inr () :: pipe_error + unit, Inr (), Inr ()]. queue (pool_init 3) = [m..<length [Inr () :: pipe_error + unit, Inr (), Inr ()]] \<and>
      set (running (pool_init 3)) \<union> finished (pool_init 3) = {..<m} \<and>
      set (running (pool_init 3)) \<inter> finished (pool_init 3) = {})"
proof -
  have "pool_reach [Inr (), Inr (), Inr ()] (pool_init 3)"
    using pool_reach.init [of "[Inr (), Inr (), Inr ()]"] by (simp add: numeral_3_eq_3)
  then show ?thesis by (rule pool_bounded_fifo)
qed

text \<open>
  C23: the pool always terminates: there is no infinite sequence of steps, from any
  state, because every step decreases \<open>pool_measure\<close>.
\<close>

theorem pool_step_terminates: "wfp (\<lambda>s' s. pool_step outs s s')"
proof (rule wfp_if_convertible_to_nat)
  fix s' s
  assume "pool_step outs s s'"
  then show "pool_measure outs s' < pool_measure outs s" by (rule pool_step_measure)
qed

text \<open>
  C24: refinement of the sequential model used by \<open>auto_concat\<close>: whatever the
  schedule, when the \<open>with\<close> block is left every job has finished, the exception
  raised (if any) is \<open>first_error outs\<close>, the error of the lowest failing index, and the
  files the jobs wrote are exactly \<open>normalized_files outs\<close>.
\<close>

theorem pool_exit_refines:
  assumes "pool_reach outs s" "main s = Exited r"
  shows "r = first_error outs \<and> finished s = {..<length outs} \<and>
         norm_name ` {i \<in> finished s. outs ! i = Inr ()} = normalized_files outs"
proof -
  from pool_exit [OF pool_reach_inv [OF assms(1)] assms(2)]
  have "r = first_error outs" "finished s = {..<length outs}" by simp_all
  then show ?thesis by (simp add: normalized_files_nth)
qed

theorem pool_exit_refines_witness:
  "None = first_error [Inr () :: pipe_error + unit] \<and>
   finished \<lparr>queue = [], running = [], finished = {0}, main = Exited None\<rparr> = {..<length [Inr () :: pipe_error + unit]} \<and>
   norm_name ` {i \<in> finished \<lparr>queue = [], running = [], finished = {0}, main = Exited None\<rparr>. [Inr () :: pipe_error + unit] ! i = Inr ()} =
   normalized_files [Inr ()]"
proof -
  let ?O = "[Inr ()] :: (pipe_error + unit) list"
  have r0: "pool_reach ?O (pool_init 1)" using pool_reach.init [of ?O] by simp
  have r1: "pool_reach ?O \<lparr>queue = [], running = [0], finished = {}, main = Collecting 0\<rparr>"
    using pool_reach_start [OF r0, of 0 "[]"] by (simp add: pool_init_def max_workers_def)
  have r2: "pool_reach ?O \<lparr>queue = [], running = [], finished = {0}, main = Collecting 0\<rparr>"
    using pool_reach_finish [OF r1, of 0] by simp
  have r3: "pool_reach ?O \<lparr>queue = [], running = [], finished = {0}, main = Collecting 1\<rparr>"
    using pool_reach.step [OF r2 pool_step.collect_ok [of _ 0]] by simp
  have r4: "pool_reach ?O \<lparr>queue = [], running = [], finished = {0}, main = Exited None\<rparr>"
    using pool_reach.step [OF r3 pool_step.exit_ok] by simp
  from r4 show ?thesis by (rule pool_exit_refines) simp
qed

text \<open>
  C25: liveness: from every reachable state of the pool some schedule leaves the
  \<open>with\<close> block, with the outcome \<open>first_error outs\<close>; with C23 every schedule does.
\<close>

theorem pool_completes:
  assumes "pool_reach outs s"
  shows "\<exists>s'. (pool_step outs)\<^sup>*\<^sup>* s s' \<and> main s' = Exited (first_error outs)"
proof -
  obtain s' r where st: "(pool_step outs)\<^sup>*\<^sup>* s s'" and ex: "main s' = Exited r"
    using pool_reaches_exit [OF assms] by blast
  have "pool_reach outs s'" using pool_reach_steps [OF st assms] .
  from pool_exit [OF pool_reach_inv [OF this] ex] ex st show ?thesis by auto
qed

theorem pool_completes_witness:
  "\<exists>s'. (pool_step [Inl ValueError, Inr ()])\<^sup>*\<^sup>* (pool_init 2) s' \<and> main s' = Exited (first_error [Inl ValueError, Inr ()])"
proof -
  have "pool_reach [Inl ValueError, Inr ()] (pool_init 2)"
    using pool_reach.init [of "[Inl ValueError, Inr ()]"] by (simp add: numeral_2_eq_2)
  then show ?thesis by (rule pool_completes)
qed

text \<open>
  The pool does not abort unstarted work on a failure: with seven jobs of which
  the first fails, the main thread can hold the raised error while job 6 has not yet
  started; by C24 the \<open>with\<close> block is left only once job 6 has run too.
\<close>

lemma pool_failure_keeps_queue:
  "pool_reach (Inl (CalledProcessError 1) # replicate 6 (Inr ()))
     \<lparr>queue = [6], running = [1, 2, 3, 4, 5], finished = {0}, main = Raised (CalledProcessError 1)\<rparr>"
proof -
  let ?O = "Inl (CalledProcessError 1) # replicate 6 (Inr ()) :: (pipe_error + unit) list"
  have r0: "pool_reach ?O (pool_init 7)" using pool_reach.init [of ?O] by (simp add: numeral_eq_Suc)
  have r1: "pool_reach ?O \<lparr>queue = [1..<7], running = [0], finished = {}, main = Collecting 0\<rparr>"
    using pool_reach_start [OF r0, of 0 "[1..<7]"] by (simp add: pool_init_def max_workers_def upt_rec)
  have r2: "pool_reach ?O \<lparr>queue = [2..<7], running = [0, 1], finished = {}, main = Collecting 0\<rparr>"
    using pool_reach_start [OF r1, of 1 "[2..<7]"] by (simp add: max_workers_def upt_rec)
  have r3: "pool_reach ?O \<lparr>queue = [3..<7], running = [0, 1, 2], finished = {}, main = Collecting 0\<rparr>"
    using pool_reach_start [OF r2, of 2 "[3..<7]"] by (simp add: max_workers_def upt_rec)
  have r4: "pool_reach ?O \<lparr>queue = [4..<7], running = [0, 1, 2, 3], finished = {}, main = Collecting 0\<rparr>"
    using pool_reach_start [OF r3, of 3 "[4..<7]"] by (simp add: max_workers_def upt_rec)
  have r5: "pool_reach ?O \<lparr>queue = [5..<7], running = [0, 1, 2, 3, 4], finished = {}, main = Collecting 0\<rparr>"
    using pool_reach_start [OF r4, of 4 "[5..<7]"] by (simp add: max_workers_def upt_rec)
  have r6: "pool_reach ?O \<lparr>queue = [6..<7], running = [0, 1, 2, 3, 4, 5], finished = {}, main = Collecting 0\<rparr>"
    using pool_reach_start [OF r5, of 5 "[6..<7]"] by (simp add: max_workers_def upt_rec)
  have r7: "pool_reach ?O \<lparr>queue = [6..<7], running = [1, 2, 3, 4, 5], finished = {0}, main = Collecting 0\<rparr>"
    using pool_reach_finish [OF r6, of 0] by simp
  have r8: "pool_reach ?O \<lparr>queue = [6..<7], running = [1, 2, 3, 4, 5], finished = {0}, main = Raised (CalledProcessError 1)\<rparr>"
    using pool_reach.step [OF r7 pool_step.collect_err [of _ 0]] by simp
  then show ?thesis by simp
qed

end
