(* ===== verification/Runner.thy ===== *)
theory Runner
  imports Prelude
begin

text \<open>
  The auto-runners of \<^verbatim>\<open>src/main\<close>: \<^verbatim>\<open>main_loop.py\<close> (a task table with an
  \<open>enabled\<close> flag, a failing task is reported by e-mail and disabled, the loop stops
  when no task is enabled), \<^verbatim>\<open>old_loop.py\<close> (the same tasks, reported on every
  failure, never disabled, never stopping) and \<^verbatim>\<open>loop.py\<close> (a fixed list of scripts,
  only \<open>CalledProcessError\<close> caught).  The processes, the file system check and the
  SMTP server are oracles of an environment record; the wall clock only enters the
  mail's subject and body, whose fixed (Vietnamese) labels are not modelled: a mail is
  the record of its task, its error summary and its two trimmed text parts.
  \<open>time.sleep\<close> is the counter \<open>slept\<close> of seconds slept.
\<close>

definition SLEEP_SECONDS :: nat where
  "SLEEP_SECONDS = 30"

definition MAX_BODY_CHARS :: nat where
  "MAX_BODY_CHARS = 15000"

text \<open>\<open>_trim\<close>: \<open>None\<close> gives the empty text; a stripped text longer than the limit is cut and marked.\<close>

definition trim_marker :: string where
  "trim_marker = CHR 0x0A # ''...[trimmed]''"

definition trim_text :: "string option \<Rightarrow> string" where
  "trim_text so =
     (case so of
        None \<Rightarrow> []
      | Some s0 \<Rightarrow>
          (let s = py_strip s0 in
           if length s > MAX_BODY_CHARS then take MAX_BODY_CHARS s @ trim_marker else s))"

text \<open>Python truthiness of an optional environment variable.\<close>

definition truthy :: "string option \<Rightarrow> bool" where
  "truthy v = (case v of None \<Rightarrow> False | Some x \<Rightarrow> x \<noteq> [])"

record smtp_env =
  smtp_user :: "string option"
  smtp_pass :: "string option"
  email_from_var :: "string option"
  email_to :: "string option"

text \<open>\<open>EMAIL_FROM = os.getenv("EMAIL_FROM", SMTP_USER or "")\<close>.\<close>

definition email_from :: "smtp_env \<Rightarrow> string" where
  "email_from e =
     (case email_from_var e of
        Some v \<Rightarrow> v
      | None \<Rightarrow> (case smtp_user e of Some u \<Rightarrow> u | None \<Rightarrow> []))"

definition smtp_configured :: "smtp_env \<Rightarrow> bool" where
  "smtp_configured e \<longleftrightarrow>
     truthy (smtp_user e) \<and> truthy (smtp_pass e) \<and> email_from e \<noteq> [] \<and> truthy (email_to e)"

datatype err_summary =
    ScriptMissing
  | ReturnCode nat
  | Unexpected string

record mail =
  mail_task :: string
  mail_summary :: err_summary
  mail_stdout :: string
  mail_stderr :: string

text \<open>
  A process run: its exit status with what it wrote on stdout and stderr, or an
  exception raised by \<open>subprocess.run\<close> itself (its type name and traceback).
\<close>

datatype proc_outcome =
    ProcExit nat string string
  | ProcRaise string string

record task =
  task_name :: string
  task_cmd :: "string list"
  enabled :: bool

record runner_env =
  smtp :: smtp_env
  smtp_up :: bool
  script_exists :: "path \<Rightarrow> bool"
  proc :: "nat \<Rightarrow> string list \<Rightarrow> proc_outcome"

text \<open>
  The runner's state: the task table, the mails delivered, the number of processes
  started so far (the index of the next run in the oracle \<open>proc\<close>) and the seconds slept.
\<close>

record runner_state =
  tasks :: "task list"
  outbox :: "mail list"
  runs :: nat
  slept :: nat

definition send_error_email ::
  "runner_env \<Rightarrow> string \<Rightarrow> err_summary \<Rightarrow> string option \<Rightarrow> string option \<Rightarrow> runner_state \<Rightarrow> runner_state" where
  "send_error_email env name summary out err s =
     (if \<not> smtp_configured (smtp env) then s
      else if smtp_up env then
        s\<lparr>outbox := outbox s @ [\<lparr>mail_task = name, mail_summary = summary,
                                   mail_stdout = trim_text out, mail_stderr = trim_text err\<rparr>]\<rparr>
      else s)"

text \<open>\<open>disable_task\<close>: the first task of that name is disabled; whether one was found.\<close>

fun disable_task :: "string \<Rightarrow> task list \<Rightarrow> task list \<times> bool" where
  "disable_task name [] = ([], False)"
| "disable_task name (t # ts) =
     (if task_name t = name then (t\<lparr>enabled := False\<rparr> # ts, True)
      else (let (ts', found) = disable_task name ts in (t # ts', found)))"

definition disable :: "string \<Rightarrow> runner_state \<Rightarrow> runner_state" where
  "disable name s = s\<lparr>tasks := fst (disable_task name (tasks s))\<rparr>"

text \<open>
  \<open>run_task_once\<close> of \<^verbatim>\<open>main_loop.py\<close>.  The run has \<open>capture_output=False\<close>, so the
  \<open>CalledProcessError\<close> carries no output: \<open>e.stdout or ""\<close> is empty.
\<close>

definition run_task_once :: "runner_env \<Rightarrow> task \<Rightarrow> runner_state \<Rightarrow> runner_state" where
  "run_task_once env t s =
     (let name = task_name t; cmd = task_cmd t in
      if \<not> script_exists env (last cmd) then
        disable name (send_error_email env name ScriptMissing (Some []) (Some []) s)
      else
        (let s1 = s\<lparr>runs := Suc (runs s)\<rparr> in
         case proc env (runs s) cmd of
           ProcExit 0 _ _ \<Rightarrow> s1
         | ProcExit c _ _ \<Rightarrow> disable name (send_error_email env name (ReturnCode c) (Some []) (Some []) s1)
         | ProcRaise ex tb \<Rightarrow> disable name (send_error_email env name (Unexpected ex) (Some []) (Some tb) s1)))"

definition sleep :: "runner_state \<Rightarrow> runner_state" where
  "sleep s = s\<lparr>slept := slept s + SLEEP_SECONDS\<rparr>"

text \<open>
  One pass of \<open>while True\<close>: \<open>active\<close> is the list of enabled tasks at the start of the
  pass (kept as positions in the table), and each is run only if still enabled.
\<close>

definition active_tasks :: "runner_state \<Rightarrow> nat list" where
  "active_tasks s = filter (\<lambda>i. enabled (tasks s ! i)) [0..<length (tasks s)]"

fun run_active :: "runner_env \<Rightarrow> nat list \<Rightarrow> runner_state \<Rightarrow> runner_state" where
  "run_active env [] s = s"
| "run_active env (i # ixs) s =
     run_active env ixs (if enabled (tasks s ! i) then sleep (run_task_once env (tasks s ! i) s) else s)"

partial_function (option) main_loop :: "runner_env \<Rightarrow> runner_state \<Rightarrow> runner_state option" where
  "main_loop env s =
     (if active_tasks s = [] then Some s else main_loop env (run_active env (active_tasks s) s))"

declare main_loop.simps [code]

text \<open>The task table of \<^verbatim>\<open>main_loop.py\<close>, for the interpreter \<open>sys.executable\<close> and the script directory.\<close>

definition task_names :: "string list" where
  "task_names = [''be_ca.py'', ''bluey.py'', ''spidey.py'', ''maycay.py'', ''findtoys.py'', ''bluey_funtoys.py'']"

definition runner_tasks :: "path \<Rightarrow> path \<Rightarrow> task list" where
  "runner_tasks python script_dir =
     map (\<lambda>n. \<lparr>task_name = n, task_cmd = [python, os_join script_dir n], enabled = True\<rparr>) task_names"

definition runner_init :: "path \<Rightarrow> path \<Rightarrow> runner_state" where
  "runner_init python script_dir = \<lparr>tasks = runner_tasks python script_dir, outbox = [], runs = 0, slept = 0\<rparr>"

text \<open>Whether a run of task \<open>t\<close> as the \<open>n\<close>-th process succeeds: its script exists and it exits with 0.\<close>

definition run_ok :: "runner_env \<Rightarrow> nat \<Rightarrow> task \<Rightarrow> bool" where
  "run_ok env n t \<longleftrightarrow>
     script_exists env (last (task_cmd t)) \<and>
     (case proc env n (task_cmd t) of ProcExit c _ _ \<Rightarrow> c = 0 | ProcRaise _ _ \<Rightarrow> False)"

text \<open>The frame of the runner: names and commands never change, a disabled task stays disabled.\<close>

definition task_frame :: "task list \<Rightarrow> task list \<Rightarrow> bool" where
  "task_frame ts ts' \<longleftrightarrow>
     map task_name ts' = map task_name ts \<and> map task_cmd ts' = map task_cmd ts \<and>
     list_all2 (\<lambda>t t'. enabled t' \<longrightarrow> enabled t) ts ts'"

definition healthy :: "runner_env \<Rightarrow> task \<Rightarrow> bool" where
  "healthy env t \<longleftrightarrow> (\<forall>n. run_ok env n t)"

definition alerts_ok :: "runner_state \<Rightarrow> bool" where
  "alerts_ok s \<longleftrightarrow>
     distinct (map mail_task (outbox s)) \<and>
     (\<forall>m \<in> set (outbox s). mail_stdout m = [] \<and>
        (\<forall>t \<in> set (tasks s). task_name t = mail_task m \<longrightarrow> \<not> enabled t))"

subsection \<open>\<^verbatim>\<open>old_loop.py\<close>\<close>

text \<open>
  The earlier runner: the same six scripts as pairs of a name and a command, run
  with \<open>capture_output=True\<close> (so an alert carries the script's output), reported
  on every failure and never disabled; its \<open>send_error_email\<close> behaves as the one above (lemma \<open>send_error_email_old_eq\<close>).
\<close>

definition old_tasks :: "(string \<times> string list) list" where
  "old_tasks = map (\<lambda>n. (n, [''python'', n])) task_names"

text \<open>
  The \<open>send_error_email\<close> of \<^verbatim>\<open>old_loop.py\<close> (lines 31--79): the same test of the
  configuration, the same trimmed parts (computed before the body is built), the same
  caught delivery failure.
\<close>

definition send_error_email_old ::
  "runner_env \<Rightarrow> string \<Rightarrow> err_summary \<Rightarrow> string option \<Rightarrow> string option \<Rightarrow> runner_state \<Rightarrow> runner_state" where
  "send_error_email_old env name summary stdout_text stderr_text s =
     (if \<not> smtp_configured (smtp env) then s
      else
        (let stdout_trim = trim_text stdout_text; stderr_trim = trim_text stderr_text in
         if smtp_up env then
           s\<lparr>outbox := outbox s @ [\<lparr>mail_task = name, mail_summary = summary,
                                      mail_stdout = stdout_trim, mail_stderr = stderr_trim\<rparr>]\<rparr>
         else s))"

definition run_task_once_old :: "runner_env \<Rightarrow> string \<Rightarrow> string list \<Rightarrow> runner_state \<Rightarrow> runner_state" where
  "run_task_once_old env name cmd s =
     (let s1 = s\<lparr>runs := Suc (runs s)\<rparr> in
      case proc env (runs s) cmd of
        ProcExit 0 _ _ \<Rightarrow> s1
      | ProcExit c out err \<Rightarrow> send_error_email_old env name (ReturnCode c) (Some out) (Some err) s1
      | ProcRaise ex tb \<Rightarrow> send_error_email_old env name (Unexpected ex) (Some []) (Some tb) s1)"

definition old_pass :: "runner_env \<Rightarrow> runner_state \<Rightarrow> runner_state" where
  "old_pass env s = foldl (\<lambda>s (name, cmd). sleep (run_task_once_old env name cmd s)) s old_tasks"

partial_function (option) old_main_loop :: "runner_env \<Rightarrow> runner_state \<Rightarrow> runner_state option" where
  "old_main_loop env s = old_main_loop env (old_pass env s)"

subsection \<open>\<^verbatim>\<open>loop.py\<close>\<close>

text \<open>
  The first runner: six scripts run with \<open>python\<close>, a \<open>CalledProcessError\<close> is printed
  and the loop goes on; any other exception of \<open>subprocess.run\<close> is not caught and
  ends the program (the value \<open>Inl\<close>, the exception's type name).
\<close>

definition loop_scripts :: "string list" where
  "loop_scripts = task_names"

definition loop_step :: "runner_env \<Rightarrow> string \<Rightarrow> runner_state \<Rightarrow> string + runner_state" where
  "loop_step env script s =
     (case proc env (runs s) [''python'', script] of
        ProcExit _ _ _ \<Rightarrow> Inr (sleep (s\<lparr>runs := Suc (runs s)\<rparr>))
      | ProcRaise ex _ \<Rightarrow> Inl ex)"

fun loop_pass :: "runner_env \<Rightarrow> string list \<Rightarrow> runner_state \<Rightarrow> string + runner_state" where
  "loop_pass env [] s = Inr s"
| "loop_pass env (script # scripts) s =
     (case loop_step env script s of Inl ex \<Rightarrow> Inl ex | Inr s' \<Rightarrow> loop_pass env scripts s')"

partial_function (option) loop_main :: "runner_env \<Rightarrow> runner_state \<Rightarrow> string option" where
  "loop_main env s = (case loop_pass env loop_scripts s of Inl ex \<Rightarrow> Some ex | Inr s' \<Rightarrow> loop_main env s')"

declare loop_main.simps [code]

definition run_fails :: "proc_outcome \<Rightarrow> bool" where
  "run_fails r = (case r of ProcExit c _ _ \<Rightarrow> c \<noteq> 0 | ProcRaise _ _ \<Rightarrow> True)"

text \<open>
  A reference for one pass: run every listed task once, without the code's second
  look at \<open>task["enabled"]\<close> (line 131).
\<close>

fun run_listed :: "runner_env \<Rightarrow> nat list \<Rightarrow> runner_state \<Rightarrow> runner_state" where
  "run_listed env [] s = s"
| "run_listed env (i # ixs) s = run_listed env ixs (sleep (run_task_once env (tasks s ! i) s))"

text \<open>Environments used by the examples: every run fails, or every run succeeds; a two-task table.\<close>

definition env_fail :: runner_env where
  "env_fail = \<lparr>smtp = \<lparr>smtp_user = Some ''u'', smtp_pass = Some ''p'', email_from_var = None, email_to = Some ''ops''\<rparr>,
     smtp_up = True, script_exists = (\<lambda>_. True), proc = (\<lambda>_ _. ProcExit 1 ''log'' ''boom'')\<rparr>"

definition env_ok :: runner_env where
  "env_ok = env_fail\<lparr>proc := (\<lambda>_ _. ProcExit 0 ''log'' [])\<rparr>"

definition two_tasks :: runner_state where
  "two_tasks = \<lparr>tasks = [\<lparr>task_name = ''a.py'', task_cmd = [''py'', ''a.py''], enabled = True\<rparr>,
                         \<lparr>task_name = ''b.py'', task_cmd = [''py'', ''b.py''], enabled = True\<rparr>],
                outbox = [], runs = 0, slept = 0\<rparr>"

subsection \<open>The task table and one run\<close>

lemma task_frame_refl [simp]: "task_frame ts ts"
  by (simp add: task_frame_def list_all2_refl)

lemma task_frame_trans: "task_frame ts ts' \<Longrightarrow> task_frame ts' ts'' \<Longrightarrow> task_frame ts ts''"
  unfolding task_frame_def
proof (elim conjE, intro conjI)
  assume "list_all2 (\<lambda>t t'. enabled t' \<longrightarrow> enabled t) ts ts'"
    "list_all2 (\<lambda>t t'. enabled t' \<longrightarrow> enabled t) ts' ts''"
  then show "list_all2 (\<lambda>t t'. enabled t' \<longrightarrow> enabled t) ts ts''"
    by (rule list_all2_trans [rotated]) blast
qed simp_all

lemma disable_task_frame: "task_frame ts (fst (disable_task n ts))"
  by (induction ts) (auto simp: task_frame_def list_all2_refl split: prod.split)

lemma disable_task_nth:
  "distinct (map task_name ts) \<Longrightarrow> i < length ts \<Longrightarrow>
     fst (disable_task (task_name (ts ! i)) ts) = ts[i := (ts ! i)\<lparr>enabled := False\<rparr>]"
proof (induction ts arbitrary: i)
  case (Cons t ts)
  show ?case
  proof (cases i)
    case 0
    then show ?thesis by simp
  next
    case (Suc j)
    with Cons.prems have j: "j < length ts" by simp
    then have "task_name (ts ! j) \<in> task_name ` set ts" by simp
    with Cons.prems(1) have "task_name (ts ! j) \<noteq> task_name t" by auto
    with Cons.IH [of j] Cons.prems j Suc show ?thesis by (simp add: Let_def case_prod_beta)
  qed
qed simp

lemma send_error_email_tasks [simp]: "tasks (send_error_email env n e o1 o2 s) = tasks s"
  by (simp add: send_error_email_def)

lemma send_error_email_runs [simp]: "runs (send_error_email env n e o1 o2 s) = runs s"
  by (simp add: send_error_email_def)

lemma run_task_once_frame: "task_frame (tasks s) (tasks (run_task_once env t s))"
  by (simp add: run_task_once_def disable_def disable_task_frame Let_def
      split: proc_outcome.split nat.split)

lemma run_task_once_tasks:
  assumes "distinct (map task_name (tasks s))" "i < length (tasks s)"
  shows "tasks (run_task_once env (tasks s ! i) s) =
           (if run_ok env (runs s) (tasks s ! i) then tasks s
            else (tasks s)[i := (tasks s ! i)\<lparr>enabled := False\<rparr>])"
  using disable_task_nth [OF assms]
  by (simp add: run_task_once_def run_ok_def disable_def Let_def split: proc_outcome.split nat.split)

lemma run_active_frame: "task_frame (tasks s) (tasks (run_active env ixs s))"
proof (induction ixs arbitrary: s)
  case (Cons i ixs)
  have "task_frame (tasks s) (tasks (if enabled (tasks s ! i) then sleep (run_task_once env (tasks s ! i) s) else s))"
    by (simp add: sleep_def run_task_once_frame)
  with Cons.IH show ?case by (auto intro: task_frame_trans)
qed simp

lemma run_active_tasks_length [simp]: "length (tasks (run_active env ixs s)) = length (tasks s)"
  using run_active_frame [of s env ixs] unfolding task_frame_def by (metis length_map)

lemma run_active_names: "map task_name (tasks (run_active env ixs s)) = map task_name (tasks s)"
  using run_active_frame [of s env ixs] unfolding task_frame_def by blast

lemma map_name_disable [simp]:
  "i < length ts \<Longrightarrow> map task_name (ts[i := (ts ! i)\<lparr>enabled := False\<rparr>]) = map task_name ts"
  by (simp add: list_eq_iff_nth_eq nth_list_update)

lemma step_tasks:
  assumes "distinct (map task_name (tasks s))" "i < length (tasks s)"
  shows "tasks (if enabled (tasks s ! i) then sleep (run_task_once env (tasks s ! i) s) else s) =
           (if enabled (tasks s ! i) \<and> \<not> run_ok env (runs s) (tasks s ! i)
            then (tasks s)[i := (tasks s ! i)\<lparr>enabled := False\<rparr>] else tasks s)"
  using run_task_once_tasks [OF assms, of env] by (simp add: sleep_def)

lemma run_active_all_fail:
  assumes fail: "\<forall>n t. \<not> run_ok env n t"
  shows "distinct (map task_name (tasks s)) \<Longrightarrow> \<forall>i \<in> set ixs. i < length (tasks s) \<Longrightarrow>
         \<forall>j < length (tasks s). enabled (tasks s ! j) \<longrightarrow> j \<in> set ixs \<Longrightarrow>
         \<forall>j < length (tasks (run_active env ixs s)). \<not> enabled (tasks (run_active env ixs s) ! j)"
proof (induction ixs arbitrary: s)
  case (Cons i ixs)
  let ?s1 = "if enabled (tasks s ! i) then sleep (run_task_once env (tasks s ! i) s) else s"
  have i: "i < length (tasks s)" using Cons.prems(2) by simp
  have t1: "tasks ?s1 = (if enabled (tasks s ! i) then (tasks s)[i := (tasks s ! i)\<lparr>enabled := False\<rparr>] else tasks s)"
    using step_tasks [OF Cons.prems(1) i, of env] fail by simp
  have "\<forall>j < length (tasks ?s1). enabled (tasks ?s1 ! j) \<longrightarrow> j \<in> set ixs"
    using Cons.prems(3) i unfolding t1 by (auto simp: nth_list_update)
  moreover have "distinct (map task_name (tasks ?s1))" "\<forall>i \<in> set ixs. i < length (tasks ?s1)"
    using Cons.prems(1,2) i unfolding t1 by simp_all
  ultimately show ?case using Cons.IH [of ?s1] by simp
qed simp

lemma active_tasks_empty_iff:
  "active_tasks s = [] \<longleftrightarrow> (\<forall>j < length (tasks s). \<not> enabled (tasks s ! j))"
  by (auto simp: active_tasks_def filter_empty_conv)

lemma active_tasks_covers:
  "(\<forall>i \<in> set (active_tasks s). i < length (tasks s)) \<and>
   (\<forall>j < length (tasks s). enabled (tasks s ! j) \<longrightarrow> j \<in> set (active_tasks s))"
  by (auto simp: active_tasks_def)

lemma main_loop_one_pass:
  assumes "distinct (map task_name (tasks s))" "\<forall>n t. \<not> run_ok env n t"
  shows "main_loop env s = Some (if active_tasks s = [] then s else run_active env (active_tasks s) s)"
proof (cases "active_tasks s = []")
  case True
  then show ?thesis by (simp add: main_loop.simps)
next
  case False
  let ?s1 = "run_active env (active_tasks s) s"
  have "\<forall>j < length (tasks ?s1). \<not> enabled (tasks ?s1 ! j)"
    using run_active_all_fail [OF assms(2) assms(1)] active_tasks_covers [of s] by blast
  then have "active_tasks ?s1 = []" by (simp add: active_tasks_empty_iff)
  with False show ?thesis by (simp add: main_loop.simps)
qed

text \<open>Partial correctness of \<open>main_loop\<close>: whenever it returns, no task is enabled.\<close>

lemma run_active_keeps_healthy:
  assumes h: "healthy env t"
  shows "distinct (map task_name (tasks s)) \<Longrightarrow> i < length (tasks s) \<Longrightarrow> tasks s ! i = t \<Longrightarrow>
         \<forall>j \<in> set ixs. j < length (tasks s) \<Longrightarrow> tasks (run_active env ixs s) ! i = t"
proof (induction ixs arbitrary: s)
  case (Cons j ixs)
  let ?s1 = "if enabled (tasks s ! j) then sleep (run_task_once env (tasks s ! j) s) else s"
  have j: "j < length (tasks s)" using Cons.prems(4) by simp
  have t1: "tasks ?s1 = (if enabled (tasks s ! j) \<and> \<not> run_ok env (runs s) (tasks s ! j)
            then (tasks s)[j := (tasks s ! j)\<lparr>enabled := False\<rparr>] else tasks s)"
    by (rule step_tasks [OF Cons.prems(1) j])
  have "tasks ?s1 ! i = t"
    using h Cons.prems(2,3) unfolding t1 healthy_def by (cases "i = j") (auto simp: nth_list_update)
  moreover have "distinct (map task_name (tasks ?s1))" "\<forall>j \<in> set ixs. j < length (tasks ?s1)" "i < length (tasks ?s1)"
    using Cons.prems(1,2,4) j unfolding t1 by simp_all
  ultimately show ?case using Cons.IH [of ?s1] by simp
qed simp

lemma trim_text_empty [simp]: "trim_text (Some []) = []"
  by (simp add: trim_text_def py_strip_def)

lemma send_error_email_outbox:
  "outbox (send_error_email env n e (Some []) err s) = outbox s \<or>
   outbox (send_error_email env n e (Some []) err s) =
     outbox s @ [\<lparr>mail_task = n, mail_summary = e, mail_stdout = [], mail_stderr = trim_text err\<rparr>]"
  by (simp add: send_error_email_def)

lemma disabled_after:
  assumes "distinct (map task_name ts)" "i < length ts"
  shows "\<forall>t \<in> set (ts[i := (ts ! i)\<lparr>enabled := False\<rparr>]). task_name t = task_name (ts ! i) \<longrightarrow> \<not> enabled t"
proof
  fix t assume "t \<in> set (ts[i := (ts ! i)\<lparr>enabled := False\<rparr>])"
  then obtain j where j: "j < length ts" "t = (ts[i := (ts ! i)\<lparr>enabled := False\<rparr>]) ! j"
    by (auto simp: in_set_conv_nth)
  show "task_name t = task_name (ts ! i) \<longrightarrow> \<not> enabled t"
  proof (cases "j = i")
    case False
    with j assms have "task_name t \<noteq> task_name (ts ! i)" by (simp add: nth_eq_iff_index_eq [symmetric] distinct_conv_nth)
    then show ?thesis by simp
  qed (use j in simp)
qed

lemma run_task_once_ok: "run_ok env (runs s) t \<Longrightarrow> run_task_once env t s = s\<lparr>runs := Suc (runs s)\<rparr>"
  by (simp add: run_task_once_def run_ok_def Let_def split: proc_outcome.splits nat.splits)

lemma run_task_once_fail:
  assumes "\<not> run_ok env (runs s) t"
  obtains e err s1 where "tasks s1 = tasks s" "outbox s1 = outbox s"
    "run_task_once env t s = disable (task_name t) (send_error_email env (task_name t) e (Some []) err s1)"
proof (cases "script_exists env (last (task_cmd t))")
  case False
  then show ?thesis using that [of s ScriptMissing "Some []"] by (simp add: run_task_once_def Let_def)
next
  case True
  show ?thesis
  proof (cases "proc env (runs s) (task_cmd t)")
    case (ProcExit c o1 o2)
    with True assms have "c \<noteq> 0" by (simp add: run_ok_def)
    with True ProcExit show ?thesis
      using that [of "s\<lparr>runs := Suc (runs s)\<rparr>" "ReturnCode c" "Some []"]
      by (cases c) (simp_all add: run_task_once_def Let_def)
  next
    case (ProcRaise ex tb)
    with True show ?thesis
      using that [of "s\<lparr>runs := Suc (runs s)\<rparr>" "Unexpected ex" "Some tb"] by (simp add: run_task_once_def Let_def)
  qed
qed

lemma task_frame_origin:
  assumes "task_frame ts ts'" "t \<in> set ts'"
  obtains t0 where "t0 \<in> set ts" "task_name t0 = task_name t" "enabled t \<longrightarrow> enabled t0"
proof -
  from assms(1) have n: "map task_name ts' = map task_name ts"
    and l: "list_all2 (\<lambda>t t'. enabled t' \<longrightarrow> enabled t) ts ts'"
    unfolding task_frame_def by blast+
  from assms(2) obtain j where j: "j < length ts'" "t = ts' ! j" by (auto simp: in_set_conv_nth)
  with l have j0: "j < length ts" "enabled t \<longrightarrow> enabled (ts ! j)" by (auto simp: list_all2_conv_all_nth)
  from n j j0 have "task_name (ts ! j) = task_name t" by (metis nth_map)
  with j0 show ?thesis by (intro that [of "ts ! j"]) simp_all
qed

lemma alerts_ok_frame:
  assumes ok: "alerts_ok s" and ob: "outbox s' = outbox s" and fr: "task_frame (tasks s) (tasks s')"
  shows "alerts_ok s'"
  unfolding alerts_ok_def
proof (intro conjI ballI impI)
  show "distinct (map mail_task (outbox s'))" using ok ob by (simp add: alerts_ok_def)
next
  fix m assume "m \<in> set (outbox s')"
  with ob ok show "mail_stdout m = []" by (simp add: alerts_ok_def)
next
  fix m t assume m: "m \<in> set (outbox s')" and t: "t \<in> set (tasks s')" and nm: "task_name t = mail_task m"
  obtain t0 where "t0 \<in> set (tasks s)" "task_name t0 = task_name t" "enabled t \<longrightarrow> enabled t0"
    using task_frame_origin [OF fr t] by blast
  with m ob ok nm show "\<not> enabled t" unfolding alerts_ok_def by auto
qed

lemma run_task_once_alerts:
  assumes ok: "alerts_ok s" and d: "distinct (map task_name (tasks s))" and i: "i < length (tasks s)"
    and en: "enabled (tasks s ! i)"
  shows "alerts_ok (run_task_once env (tasks s ! i) s)"
proof (cases "run_ok env (runs s) (tasks s ! i)")
  case True
  with ok show ?thesis by (simp add: run_task_once_ok alerts_ok_def)
next
  case False
  let ?n = "task_name (tasks s ! i)"
  obtain e err s1 where s1: "tasks s1 = tasks s" "outbox s1 = outbox s"
    and eq: "run_task_once env (tasks s ! i) s = disable ?n (send_error_email env ?n e (Some []) err s1)"
    using run_task_once_fail [OF False] by metis
  have tk: "tasks (run_task_once env (tasks s ! i) s) = (tasks s)[i := (tasks s ! i)\<lparr>enabled := False\<rparr>]"
    using run_task_once_tasks [OF d i, of env] False by simp
  have fr: "task_frame (tasks s) (tasks (run_task_once env (tasks s ! i) s))"
    by (rule run_task_once_frame)
  have fresh: "?n \<notin> set (map mail_task (outbox s))"
  proof
    assume "?n \<in> set (map mail_task (outbox s))"
    then obtain m where "m \<in> set (outbox s)" "mail_task m = ?n" by auto
    with ok have "\<not> enabled (tasks s ! i)" using i unfolding alerts_ok_def by (metis nth_mem)
    with en show False by simp
  qed
  have old: "alerts_ok (s\<lparr>tasks := tasks (run_task_once env (tasks s ! i) s)\<rparr>)"
    by (rule alerts_ok_frame [OF ok]) (simp_all add: fr)
  have new: "\<forall>t \<in> set (tasks (run_task_once env (tasks s ! i) s)). task_name t = ?n \<longrightarrow> \<not> enabled t"
    unfolding tk by (rule disabled_after [OF d i])
  from send_error_email_outbox [of env ?n e err s1]
  show ?thesis
  proof
    assume "outbox (send_error_email env ?n e (Some []) err s1) = outbox s1"
    with old s1 eq show ?thesis by (simp add: alerts_ok_def disable_def)
  next
    assume "outbox (send_error_email env ?n e (Some []) err s1) =
      outbox s1 @ [\<lparr>mail_task = ?n, mail_summary = e, mail_stdout = [], mail_stderr = trim_text err\<rparr>]"
    with old new fresh s1 eq show ?thesis by (auto simp: alerts_ok_def disable_def)
  qed
qed

lemma run_active_alerts:
  "alerts_ok s \<Longrightarrow> distinct (map task_name (tasks s)) \<Longrightarrow> \<forall>i \<in> set ixs. i < length (tasks s) \<Longrightarrow>
     alerts_ok (run_active env ixs s)"
proof (induction ixs arbitrary: s)
  case (Cons i ixs)
  let ?s1 = "if enabled (tasks s ! i) then sleep (run_task_once env (tasks s ! i) s) else s"
  have i: "i < length (tasks s)" using Cons.prems(3) by simp
  have "alerts_ok ?s1"
    using run_task_once_alerts [OF Cons.prems(1,2) i, of env] Cons.prems(1)
    by (simp add: sleep_def alerts_ok_def)
  moreover have "task_frame (tasks s) (tasks ?s1)" by (simp add: sleep_def run_task_once_frame)
  then have "distinct (map task_name (tasks ?s1))" "\<forall>i \<in> set ixs. i < length (tasks ?s1)"
    using Cons.prems(2,3) unfolding task_frame_def by (auto dest: list_all2_lengthD)
  ultimately show ?case using Cons.IH [of ?s1] by simp
qed simp

lemma main_loop_alerts:
  assumes "main_loop env s = Some s'"
  shows "alerts_ok s \<and> distinct (map task_name (tasks s)) \<longrightarrow> alerts_ok s'"
proof (rule main_loop.raw_induct [where P = "\<lambda>env s s'. alerts_ok s \<and> distinct (map task_name (tasks s)) \<longrightarrow>
    alerts_ok s'", OF _ assms])
  fix f env s s'
  assume IH: "\<And>env s s'. f env s = Some s' \<Longrightarrow> alerts_ok s \<and> distinct (map task_name (tasks s)) \<longrightarrow> alerts_ok s'"
    and eq: "(if active_tasks s = [] then Some s else f env (run_active env (active_tasks s) s)) = Some s'"
  show "alerts_ok s \<and> distinct (map task_name (tasks s)) \<longrightarrow> alerts_ok s'"
  proof (intro impI, elim conjE)
    assume ok: "alerts_ok s" and d: "distinct (map task_name (tasks s))"
    show "alerts_ok s'"
    proof (cases "active_tasks s = []")
      case True
      with eq ok show ?thesis by simp
    next
      case False
      with eq have f: "f env (run_active env (active_tasks s) s) = Some s'" by simp
      have "alerts_ok (run_active env (active_tasks s) s)"
        using run_active_alerts [OF ok d] active_tasks_covers [of s] by blast
      moreover have "distinct (map task_name (tasks (run_active env (active_tasks s) s)))"
        using d by (simp add: run_active_names)
      ultimately show ?thesis using IH [OF f] by blast
    qed
  qed
qed

lemma length_trim_text_helper: "length (trim_text so) \<le> MAX_BODY_CHARS + length trim_marker"
proof (cases so)
  case (Some s0)
  then show ?thesis by (simp add: trim_text_def Let_def)
qed (simp add: trim_text_def)

lemma runner_tasks_distinct: "distinct (map task_name (runner_tasks py dir))"
  by (simp add: runner_tasks_def task_names_def comp_def)

lemma send_error_email_length:
  "length (outbox (send_error_email env n e o1 o2 s)) =
     length (outbox s) + (if smtp_configured (smtp env) \<and> smtp_up env then 1 else 0)"
  by (simp add: send_error_email_def)

lemma env_fail_fails: "\<not> run_ok env_fail n t"
  by (simp add: run_ok_def env_fail_def)

lemma two_tasks_distinct: "distinct (map task_name (tasks two_tasks))"
  by (simp add: two_tasks_def)

lemma main_loop_env_fail: "\<exists>s'. main_loop env_fail two_tasks = Some s'"
  using main_loop_one_pass [OF two_tasks_distinct, of env_fail] env_fail_fails by blast

subsection \<open>Properties of the runner\<close>

text \<open>
  C27: partial correctness of \<open>main_loop\<close>: when the loop stops, no task is enabled,
  and the loop changed no task's name or command and enabled no task.
\<close>

theorem main_loop_returns:
  assumes "main_loop env s = Some s'"
  shows "(\<forall>t \<in> set (tasks s'). \<not> enabled t) \<and> task_frame (tasks s) (tasks s')"
proof (rule main_loop.raw_induct [where P = "\<lambda>env s s'. (\<forall>t \<in> set (tasks s'). \<not> enabled t) \<and>
    task_frame (tasks s) (tasks s')", OF _ assms])
  fix f env s s'
  assume IH: "\<And>env s s'. f env s = Some s' \<Longrightarrow> (\<forall>t \<in> set (tasks s'). \<not> enabled t) \<and> task_frame (tasks s) (tasks s')"
    and eq: "(if active_tasks s = [] then Some s else f env (run_active env (active_tasks s) s)) = Some s'"
  show "(\<forall>t \<in> set (tasks s'). \<not> enabled t) \<and> task_frame (tasks s) (tasks s')"
  proof (cases "active_tasks s = []")
    case True
    with eq show ?thesis by (auto simp: active_tasks_empty_iff in_set_conv_nth)
  next
    case False
    with eq have "f env (run_active env (active_tasks s) s) = Some s'" by simp
    from IH [OF this] show ?thesis using run_active_frame [of s env] by (blast intro: task_frame_trans)
  qed
qed


theorem main_loop_returns_witness:
  "\<exists>s'. main_loop env_fail two_tasks = Some s' \<and>
     (\<forall>t \<in> set (tasks s'). \<not> enabled t) \<and> task_frame (tasks two_tasks) (tasks s')"
proof -
  obtain s' where r: "main_loop env_fail two_tasks = Some s'" using main_loop_env_fail by blast
  with main_loop_returns [OF r] show ?thesis by blast
qed

text \<open>
  C28: termination of \<open>main_loop\<close> when every run fails: with distinct task names,
  one pass disables every enabled task and the loop returns.
\<close>

theorem main_loop_terminates:
  assumes "distinct (map task_name (tasks s))" "\<forall>n t. \<not> run_ok env n t"
  shows "\<exists>s'. main_loop env s = Some s'"
  using main_loop_one_pass [OF assms] by blast

theorem main_loop_terminates_witness: "\<exists>s'. main_loop env_fail two_tasks = Some s'"
  using main_loop_terminates [OF two_tasks_distinct] env_fail_fails by blast

text \<open>
  C29: a task whose script exists and always exits with 0 keeps \<open>main_loop\<close> running
  for ever: the loop never returns while such a task is enabled.
\<close>

theorem main_loop_diverges:
  assumes "distinct (map task_name (tasks s))" "i < length (tasks s)" "enabled (tasks s ! i)"
    "healthy env (tasks s ! i)"
  shows "main_loop env s = None"
proof -
  have "main_loop env s = Some s' \<Longrightarrow>
          \<not> (distinct (map task_name (tasks s)) \<and> i < length (tasks s) \<and> enabled (tasks s ! i) \<and>
             healthy env (tasks s ! i))" for s'
  proof (rule main_loop.raw_induct [where P = "\<lambda>env s s'. \<not> (distinct (map task_name (tasks s)) \<and>
      i < length (tasks s) \<and> enabled (tasks s ! i) \<and> healthy env (tasks s ! i))"])
    fix f env s s'
    assume IH: "\<And>env s s'. f env s = Some s' \<Longrightarrow> \<not> (distinct (map task_name (tasks s)) \<and>
      i < length (tasks s) \<and> enabled (tasks s ! i) \<and> healthy env (tasks s ! i))"
      and eq: "(if active_tasks s = [] then Some s else f env (run_active env (active_tasks s) s)) = Some s'"
    show "\<not> (distinct (map task_name (tasks s)) \<and> i < length (tasks s) \<and> enabled (tasks s ! i) \<and>
             healthy env (tasks s ! i))"
    proof
      assume H: "distinct (map task_name (tasks s)) \<and> i < length (tasks s) \<and> enabled (tasks s ! i) \<and>
             healthy env (tasks s ! i)"
      then have "active_tasks s \<noteq> []" by (auto simp: active_tasks_empty_iff)
      with eq have f: "f env (run_active env (active_tasks s) s) = Some s'" by simp
      let ?s1 = "run_active env (active_tasks s) s"
      have "tasks ?s1 ! i = tasks s ! i"
        using run_active_keeps_healthy [of env "tasks s ! i" s i] H active_tasks_covers [of s] by blast
      moreover have "distinct (map task_name (tasks ?s1))" using H by (simp add: run_active_names)
      ultimately show False using IH [OF f] H by simp
    qed
  qed
  with assms show ?thesis by (cases "main_loop env s") auto
qed

theorem main_loop_diverges_witness: "main_loop env_ok two_tasks = None"
proof (rule main_loop_diverges [of two_tasks 0])
  show "healthy env_ok (tasks two_tasks ! 0)"
    by (simp add: healthy_def run_ok_def env_ok_def env_fail_def two_tasks_def)
qed (simp_all add: two_tasks_def)

text \<open>
  C30: at most one alert per task: along any run of \<open>main_loop\<close> that returns, the
  mails sent name pairwise different tasks, each of them disabled, and no mail carries
  the failing script's output (the run does not capture it).
\<close>

theorem main_loop_one_alert_per_task:
  assumes "main_loop env s = Some s'" "alerts_ok s" "distinct (map task_name (tasks s))"
  shows "alerts_ok s'"
  using main_loop_alerts [OF assms(1)] assms(2,3) by blast

theorem main_loop_one_alert_per_task_witness:
  "\<exists>s'. main_loop env_fail two_tasks = Some s' \<and> alerts_ok s'"
proof -
  obtain s' where r: "main_loop env_fail two_tasks = Some s'" using main_loop_env_fail by blast
  have "alerts_ok two_tasks" by (simp add: alerts_ok_def two_tasks_def)
  with r show ?thesis using main_loop_one_alert_per_task [OF r _ two_tasks_distinct] by blast
qed

text \<open>
  C31: a failed run disables exactly that task and sends one mail when SMTP is
  configured and reachable, none otherwise.
\<close>

theorem run_task_once_failure:
  assumes "distinct (map task_name (tasks s))" "i < length (tasks s)" "\<not> run_ok env (runs s) (tasks s ! i)"
  shows "tasks (run_task_once env (tasks s ! i) s) = (tasks s)[i := (tasks s ! i)\<lparr>enabled := False\<rparr>] \<and>
         length (outbox (run_task_once env (tasks s ! i) s)) =
           length (outbox s) + (if smtp_configured (smtp env) \<and> smtp_up env then 1 else 0)"
proof
  show "tasks (run_task_once env (tasks s ! i) s) = (tasks s)[i := (tasks s ! i)\<lparr>enabled := False\<rparr>]"
    using run_task_once_tasks [OF assms(1,2), of env] assms(3) by simp
  obtain e err s1 where "tasks s1 = tasks s" "outbox s1 = outbox s"
    "run_task_once env (tasks s ! i) s =
       disable (task_name (tasks s ! i)) (send_error_email env (task_name (tasks s ! i)) e (Some []) err s1)"
    using run_task_once_fail [OF assms(3)] by metis
  then show "length (outbox (run_task_once env (tasks s ! i) s)) =
           length (outbox s) + (if smtp_configured (smtp env) \<and> smtp_up env then 1 else 0)"
    by (simp add: disable_def send_error_email_length)
qed

theorem run_task_once_failure_witness:
  "tasks (run_task_once env_fail (tasks two_tasks ! 0) two_tasks) =
     (tasks two_tasks)[0 := (tasks two_tasks ! 0)\<lparr>enabled := False\<rparr>] \<and>
   length (outbox (run_task_once env_fail (tasks two_tasks ! 0) two_tasks)) =
     length (outbox two_tasks) + (if smtp_configured (smtp env_fail) \<and> smtp_up env_fail then 1 else 0)"
  by (rule run_task_once_failure [OF two_tasks_distinct]) (simp_all add: two_tasks_def env_fail_fails)

text \<open>
  C32: the body of an alert is bounded: each trimmed part has at most
  \<open>MAX_BODY_CHARS\<close> characters plus the 13 of the trim marker.
\<close>

theorem trim_text_bounded: "length (trim_text so) \<le> MAX_BODY_CHARS + 13"
  using length_trim_text_helper [of so] by (simp add: trim_marker_def)

text \<open>
  The alert of a failed run of \<^verbatim>\<open>main_loop.py\<close> has empty STDOUT and STDERR
  parts even when the script wrote to both, because the run does not capture output.
\<close>

lemma run_task_once_alert_drops_output:
  "outbox (run_task_once env_fail (tasks two_tasks ! 0) two_tasks) =
     [\<lparr>mail_task = ''a.py'', mail_summary = ReturnCode 1, mail_stdout = [], mail_stderr = []\<rparr>]"
  by (simp add: run_task_once_def env_fail_def two_tasks_def send_error_email_def smtp_configured_def
      truthy_def email_from_def disable_def Let_def)

lemma send_error_email_old_eq: "send_error_email_old = send_error_email"
  by (intro ext) (simp add: send_error_email_old_def send_error_email_def Let_def)

lemma old_pass_alerts:
  assumes "smtp_configured (smtp env)" "smtp_up env" "\<forall>n c. run_fails (proc env n c)"
  shows "length (outbox (foldl (\<lambda>s (name, cmd). sleep (run_task_once_old env name cmd s)) s ts)) =
           length (outbox s) + length ts"
proof (induction ts arbitrary: s)
  case (Cons nc ts)
  obtain n c where nc: "nc = (n, c)" by fastforce
  have "length (outbox (run_task_once_old env n c s)) = Suc (length (outbox s))"
    using assms(3) [rule_format, of "runs s" c] assms(1,2)
    by (auto simp: run_task_once_old_def run_fails_def send_error_email_old_eq send_error_email_def Let_def
        split: proc_outcome.splits nat.splits)
  with Cons.IH [of "sleep (run_task_once_old env n c s)"] nc show ?case by (simp add: sleep_def)
qed simp

lemma loop_pass_Inl: "loop_pass env ss s = Inl ex \<Longrightarrow> \<exists>n c tb. proc env n c = ProcRaise ex tb"
proof (induction ss arbitrary: s)
  case (Cons script ss)
  show ?case
  proof (cases "proc env (runs s) [''python'', script]")
    case (ProcExit c o1 o2)
    with Cons show ?thesis by (simp add: loop_step_def)
  next
    case (ProcRaise ex' tb)
    with Cons.prems show ?thesis by (auto simp: loop_step_def)
  qed
qed simp

text \<open>\<^verbatim>\<open>old_loop.py\<close> never returns: \<open>while True\<close> has no exit.\<close>

lemma old_main_loop_never_returns: "old_main_loop env s = None"
proof -
  have "old_main_loop env s = Some s' \<Longrightarrow> False" for s'
    by (rule old_main_loop.raw_induct [where P = "\<lambda>_ _ _. False"]) simp_all
  then show ?thesis by (cases "old_main_loop env s") auto
qed

text \<open>
  \<^verbatim>\<open>old_loop.py\<close> sends an alert for every failing script on every pass: when
  every run fails and SMTP works, \<open>k\<close> passes send \<open>6 k\<close> mails.
\<close>

lemma old_loop_alert_every_pass:
  assumes "smtp_configured (smtp env)" "smtp_up env" "\<forall>n c. run_fails (proc env n c)"
  shows "length (outbox ((old_pass env ^^ k) s)) = length (outbox s) + 6 * k"
proof (induction k)
  case (Suc k)
  have "length (outbox (old_pass env s')) = length (outbox s') + 6" for s'
    using old_pass_alerts [OF assms, of s' old_tasks] by (simp add: old_pass_def old_tasks_def task_names_def)
  with Suc show ?case by simp
qed simp

lemma old_loop_alert_every_pass_example:
  "length (outbox ((old_pass env_fail ^^ 3) two_tasks)) = length (outbox two_tasks) + 6 * 3"
proof (rule old_loop_alert_every_pass)
  show "smtp_configured (smtp env_fail)"
    by (simp add: env_fail_def smtp_configured_def truthy_def email_from_def)
qed (simp_all add: env_fail_def run_fails_def)

text \<open>
  C36: \<^verbatim>\<open>loop.py\<close> only ends by an uncaught exception of \<open>subprocess.run\<close> (not a
  \<open>CalledProcessError\<close>): whenever the loop stops, some run raised that exception.
\<close>

theorem loop_main_exits_on_exception:
  assumes "loop_main env s = Some ex"
  shows "\<exists>n c tb. proc env n c = ProcRaise ex tb"
proof (rule loop_main.raw_induct [where P = "\<lambda>env s ex. \<exists>n c tb. proc env n c = ProcRaise ex tb", OF _ assms])
  fix f env s ex
  assume IH: "\<And>env s ex. f env s = Some ex \<Longrightarrow> \<exists>n c tb. proc env n c = ProcRaise ex tb"
    and eq: "(case loop_pass env loop_scripts s of Inl ex \<Rightarrow> Some ex | Inr s' \<Rightarrow> f env s') = Some ex"
  show "\<exists>n c tb. proc env n c = ProcRaise ex tb"
  proof (cases "loop_pass env loop_scripts s")
    case (Inl ex')
    with eq loop_pass_Inl [OF Inl] show ?thesis by simp
  next
    case (Inr s')
    with eq IH show ?thesis by simp
  qed
qed

theorem loop_main_exits_on_exception_witness:
  "\<exists>n c tb. proc (env_fail\<lparr>proc := (\<lambda>_ _. ProcRaise ''FileNotFoundError'' [])\<rparr>) n c = ProcRaise ''FileNotFoundError'' tb"
proof -
  have "loop_main (env_fail\<lparr>proc := (\<lambda>_ _. ProcRaise ''FileNotFoundError'' [])\<rparr>) two_tasks = Some ''FileNotFoundError''"
    by (simp add: loop_main.simps loop_scripts_def task_names_def loop_step_def)
  then show ?thesis by (rule loop_main_exits_on_exception)
qed

lemma run_active_listed:
  "distinct (map task_name (tasks s)) \<Longrightarrow> distinct ixs \<Longrightarrow>
   \<forall>i \<in> set ixs. i < length (tasks s) \<and> enabled (tasks s ! i) \<Longrightarrow>
   run_active env ixs s = run_listed env ixs s"
proof (induction ixs arbitrary: s)
  case (Cons i ixs)
  let ?s1 = "sleep (run_task_once env (tasks s ! i) s)"
  have i: "i < length (tasks s)" "enabled (tasks s ! i)" using Cons.prems(3) by simp_all
  have t1: "tasks ?s1 = (if \<not> run_ok env (runs s) (tasks s ! i)
            then (tasks s)[i := (tasks s ! i)\<lparr>enabled := False\<rparr>] else tasks s)"
    using step_tasks [OF Cons.prems(1) i(1), of env] i(2) by simp
  have "\<forall>j \<in> set ixs. j < length (tasks ?s1) \<and> enabled (tasks ?s1 ! j)"
    using Cons.prems(2,3) unfolding t1 by (auto simp: nth_list_update)
  moreover have "distinct (map task_name (tasks ?s1))" using Cons.prems(1) i(1) unfolding t1 by simp
  ultimately show ?case using Cons.IH [of ?s1] Cons.prems(2) i(2) by simp
qed simp

lemma active_tasks_props:
  "distinct (active_tasks s) \<and> (\<forall>i \<in> set (active_tasks s). i < length (tasks s) \<and> enabled (tasks s ! i))"
  by (simp add: active_tasks_def)

text \<open>
  C33: the second test of \<open>task["enabled"]\<close> in the pass is redundant when task names
  are distinct: the pass of \<open>main_loop\<close> equals running each task enabled at its start
  once, in table order.  (With a repeated name, \<open>disable_task\<close> can disable another
  task of that name and the test matters.)
\<close>

theorem run_active_equiv:
  assumes "distinct (map task_name (tasks s))"
  shows "run_active env (active_tasks s) s = run_listed env (active_tasks s) s"
  using run_active_listed [OF assms] active_tasks_props [of s] by blast

theorem run_active_equiv_witness:
  "run_active env_fail (active_tasks two_tasks) two_tasks = run_listed env_fail (active_tasks two_tasks) two_tasks"
  using two_tasks_distinct by (rule run_active_equiv)

end
