(* ===== verification/Startup.thy ===== *)
theory Startup
  imports Runner
begin

text \<open>
  Start-up of the runners: what \<^verbatim>\<open>main_loop.py\<close> and \<^verbatim>\<open>old_loop.py\<close> do when run as
  scripts.  Importing the module reads the SMTP settings from the process
  environment (\<open>os.getenv\<close> with its defaults), and \<open>int(SMTP_PORT)\<close> raises
  \<open>ValueError\<close> there, before any task runs, when the variable is set to text that is
  not an integer.  The \<open>__main__\<close> block of \<^verbatim>\<open>main_loop.py\<close> then reconfigures stdout
  (any failure of that is swallowed; the console encoding is not modelled) and calls
  \<open>main_loop()\<close> on the task table built from \<open>sys.executable\<close> and the script's
  directory.  The machine is a record of the environment variables, the SMTP servers
  that accept the login and message (by host and port), and the file system and
  process oracles of \<open>runner_env\<close>.  \<open>int()\<close> is \<open>py_int_of_str\<close>: surrounding
  white space and a sign are accepted; digit separators (\<open>5_87\<close>) are not modelled.
\<close>

type_synonym os_environ = "string \<Rightarrow> string option"

definition getenv :: "os_environ \<Rightarrow> string \<Rightarrow> string \<Rightarrow> string" where
  "getenv vars key dflt = (case vars key of None \<Rightarrow> dflt | Some v \<Rightarrow> v)"

record smtp_config =
  smtp_host :: string
  smtp_port :: int
  smtp_settings :: smtp_env

datatype startup_error = PortValueError

text \<open>Lines 16--21 of \<^verbatim>\<open>main_loop.py\<close>, run when the module is imported.\<close>

definition load_smtp_config :: "os_environ \<Rightarrow> startup_error + smtp_config" where
  "load_smtp_config vars =
     (case py_int_of_str (getenv vars ''SMTP_PORT'' ''587'') of
        None \<Rightarrow> Inl PortValueError
      | Some port \<Rightarrow>
          Inr \<lparr>smtp_host = getenv vars ''SMTP_HOST'' ''smtp.gmail.com'', smtp_port = port,
               smtp_settings = \<lparr>smtp_user = vars ''SMTP_USER'', smtp_pass = vars ''SMTP_PASS'',
                                email_from_var = vars ''EMAIL_FROM'', email_to = vars ''EMAIL_TO''\<rparr>\<rparr>)"

text \<open>Lines 21--30 of \<^verbatim>\<open>old_loop.py\<close>, the same settings read again.\<close>

definition load_smtp_config_old :: "os_environ \<Rightarrow> startup_error + smtp_config" where
  "load_smtp_config_old vars =
     (case py_int_of_str (getenv vars ''SMTP_PORT'' ''587'') of
        None \<Rightarrow> Inl PortValueError
      | Some port \<Rightarrow>
          Inr \<lparr>smtp_host = getenv vars ''SMTP_HOST'' ''smtp.gmail.com'', smtp_port = port,
               smtp_settings = \<lparr>smtp_user = vars ''SMTP_USER'', smtp_pass = vars ''SMTP_PASS'',
                                email_from_var = vars ''EMAIL_FROM'', email_to = vars ''EMAIL_TO''\<rparr>\<rparr>)"

record machine =
  environ :: os_environ
  smtp_accepts :: "string \<Rightarrow> int \<Rightarrow> bool"
  host_script_exists :: "path \<Rightarrow> bool"
  host_proc :: "nat \<Rightarrow> string list \<Rightarrow> proc_outcome"
  executable :: path
  script_dir :: path

text \<open>The runner's view of the machine once the settings are read.\<close>

definition runner_env_of :: "machine \<Rightarrow> smtp_config \<Rightarrow> runner_env" where
  "runner_env_of m cfg =
     \<lparr>smtp = smtp_settings cfg, smtp_up = smtp_accepts m (smtp_host cfg) (smtp_port cfg),
      script_exists = host_script_exists m, proc = host_proc m\<rparr>"

text \<open>
  \<open>python main_loop.py\<close>: the import, then the \<open>__main__\<close> block.  \<open>None\<close> when the
  loop never returns; \<open>Inl\<close> the exception of the import.
\<close>

definition runner_start :: "machine \<Rightarrow> (startup_error + runner_state) option" where
  "runner_start m =
     (case load_smtp_config (environ m) of
        Inl e \<Rightarrow> Some (Inl e)
      | Inr cfg \<Rightarrow> map_option Inr (main_loop (runner_env_of m cfg) (runner_init (executable m) (script_dir m))))"

text \<open>\<open>python old_loop.py\<close>: the import, then \<open>main_loop()\<close> from an empty outbox.\<close>

definition old_runner_start :: "machine \<Rightarrow> (startup_error + runner_state) option" where
  "old_runner_start m =
     (case load_smtp_config_old (environ m) of
        Inl e \<Rightarrow> Some (Inl e)
      | Inr cfg \<Rightarrow> map_option Inr (old_main_loop (runner_env_of m cfg)
                                     \<lparr>tasks = [], outbox = [], runs = 0, slept = 0\<rparr>))"

text \<open>The alert a missing script produces.\<close>

definition missing_mail :: "string \<Rightarrow> mail" where
  "missing_mail n = \<lparr>mail_task = n, mail_summary = ScriptMissing, mail_stdout = [], mail_stderr = []\<rparr>"

text \<open>Examples: a machine whose scripts are all missing, with the port set empty or to 587.\<close>

definition example_machine :: "string option \<Rightarrow> machine" where
  "example_machine port =
     \<lparr>environ = (\<lambda>k. if k = ''SMTP_PORT'' then port
                     else if k \<in> {''SMTP_USER'', ''SMTP_PASS'', ''EMAIL_TO''} then Some ''ops@example.org''
                     else None),
      smtp_accepts = (\<lambda>h p. h = ''smtp.gmail.com'' \<and> p = 587),
      host_script_exists = (\<lambda>p. False), host_proc = (\<lambda>n c. ProcExit 0 [] []),
      executable = ''python'', script_dir = ''runner''\<rparr>"

lemma load_smtp_config_old_eq: "load_smtp_config_old = load_smtp_config"
  by (intro ext) (simp only: load_smtp_config_old_def load_smtp_config_def)

lemma runner_init_distinct: "distinct (map task_name (tasks (runner_init py dir)))"
  by (simp add: runner_init_def runner_tasks_distinct)

lemma missing_fails: "\<forall>p. \<not> host_script_exists m p \<Longrightarrow> \<not> run_ok (runner_env_of m cfg) n t"
  by (simp add: run_ok_def runner_env_of_def)

lemma one_pass_init:
  assumes "\<forall>p. \<not> host_script_exists m p"
  shows "main_loop (runner_env_of m cfg) (runner_init py dir) =
           Some (run_active (runner_env_of m cfg) [0..<6] (runner_init py dir))"
proof -
  have a: "active_tasks (runner_init py dir) = [0..<6]"
    by (simp add: active_tasks_def runner_init_def runner_tasks_def task_names_def upt_rec)
  show ?thesis
    using main_loop_one_pass [OF runner_init_distinct, of "runner_env_of m cfg" py dir] missing_fails [OF assms]
    by (simp add: a)
qed

lemma run_task_once_missing:
  "\<not> script_exists env (last (task_cmd t)) \<Longrightarrow>
   run_task_once env t s = disable (task_name t) (send_error_email env (task_name t) ScriptMissing (Some []) (Some []) s)"
  by (simp add: run_task_once_def Let_def)

lemma map_name_disable_task [simp]: "map task_name (fst (disable_task n ts)) = map task_name ts"
  using disable_task_frame [of ts n] by (simp add: task_frame_def)

lemma run_listed_missing:
  assumes "\<forall>p. \<not> script_exists env p"
  shows "\<forall>i \<in> set ixs. i < length (tasks s) \<Longrightarrow>
    outbox (run_listed env ixs s) =
      outbox s @ (if smtp_configured (smtp env) \<and> smtp_up env
                  then map (\<lambda>i. missing_mail (task_name (tasks s ! i))) ixs else []) \<and>
    runs (run_listed env ixs s) = runs s \<and>
    slept (run_listed env ixs s) = slept s + SLEEP_SECONDS * length ixs \<and>
    map task_name (tasks (run_listed env ixs s)) = map task_name (tasks s)"
proof (induction ixs arbitrary: s)
  case (Cons i ixs)
  let ?s1 = "sleep (run_task_once env (tasks s ! i) s)"
  have s1: "outbox ?s1 = outbox s @ (if smtp_configured (smtp env) \<and> smtp_up env
                  then [missing_mail (task_name (tasks s ! i))] else [])"
    "runs ?s1 = runs s" "slept ?s1 = slept s + SLEEP_SECONDS"
    "map task_name (tasks ?s1) = map task_name (tasks s)"
    using assms by (simp_all add: run_task_once_missing send_error_email_def disable_def sleep_def missing_mail_def)
  then have "\<forall>j \<in> set ixs. task_name (tasks ?s1 ! j) = task_name (tasks s ! j)"
    using Cons.prems by (metis list.set_intros(2) length_map nth_map)
  moreover have "\<forall>j \<in> set ixs. j < length (tasks ?s1)"
    using Cons.prems s1(4) by (metis length_map list.set_intros(2))
  ultimately show ?case
    using Cons.IH [of ?s1] s1 by simp
qed simp

text \<open>
  C26: Started on a machine where no task script exists (and SMTP_PORT readable), the
  runner stops after one pass: every task is disabled, no process was started, it
  slept six times, and it sent one ScriptMissing alert per task, in table order,
  exactly when the mail settings are complete and the server at SMTP_HOST:SMTP_PORT
  accepts them.
\<close>

theorem runner_start_missing_scripts:
  assumes "load_smtp_config (environ m) = Inr cfg" "\<forall>p. \<not> host_script_exists m p"
  shows "\<exists>s'. runner_start m = Some (Inr s') \<and> (\<forall>t \<in> set (tasks s'). \<not> enabled t) \<and>
           runs s' = 0 \<and> slept s' = 6 * SLEEP_SECONDS \<and>
           outbox s' = (if smtp_configured (smtp_settings cfg) \<and> smtp_accepts m (smtp_host cfg) (smtp_port cfg)
                        then map missing_mail task_names else [])"
proof -
  let ?env = "runner_env_of m cfg" and ?s0 = "runner_init (executable m) (script_dir m)"
  have fails: "\<forall>n t. \<not> run_ok ?env n t" using missing_fails [OF assms(2)] by blast
  have act: "active_tasks ?s0 = [0..<6]"
    by (simp add: active_tasks_def runner_init_def runner_tasks_def task_names_def upt_rec)
  have listed: "run_active ?env [0..<6] ?s0 = run_listed ?env [0..<6] ?s0"
    using run_active_listed [OF runner_init_distinct, of "[0..<6]"] active_tasks_props [of ?s0] act by simp
  have off: "\<forall>j < length (tasks (run_active ?env [0..<6] ?s0)). \<not> enabled (tasks (run_active ?env [0..<6] ?s0) ! j)"
    using run_active_all_fail [OF fails runner_init_distinct] active_tasks_covers [of ?s0] act by simp
  have ex: "\<forall>p. \<not> script_exists ?env p" using assms(2) by (simp add: runner_env_of_def)
  have lt: "\<forall>i \<in> set [0..<6]. i < length (tasks ?s0)"
    by (simp add: runner_init_def runner_tasks_def task_names_def)
  have names: "map (\<lambda>i. task_name (tasks ?s0 ! i)) [0..<6] = task_names"
    by (simp add: runner_init_def runner_tasks_def task_names_def upt_rec)
  have "map (\<lambda>i. missing_mail (task_name (tasks ?s0 ! i))) [0..<6] = map missing_mail task_names"
    using arg_cong [OF names, of "map missing_mail"] by (simp add: comp_def)
  then show ?thesis
    using one_pass_init [OF assms(2)] run_listed_missing [OF ex lt] listed off
    by (auto simp: runner_start_def assms(1) runner_init_def runner_env_of_def in_set_conv_nth)
qed

lemma runner_start_missing_scripts_witness:
  "\<exists>s'. runner_start (example_machine (Some ''587'')) = Some (Inr s') \<and> (\<forall>t \<in> set (tasks s'). \<not> enabled t) \<and>
     runs s' = 0 \<and> slept s' = 6 * SLEEP_SECONDS \<and> outbox s' = map missing_mail task_names"
proof -
  let ?cfg = "\<lparr>smtp_host = ''smtp.gmail.com'', smtp_port = 587,
     smtp_settings = \<lparr>smtp_user = Some ''ops@example.org'', smtp_pass = Some ''ops@example.org'',
                      email_from_var = None, email_to = Some ''ops@example.org''\<rparr>\<rparr>"
  have cfg: "load_smtp_config (environ (example_machine (Some ''587''))) = Inr ?cfg"
    by (simp add: load_smtp_config_def example_machine_def getenv_def py_int_of_str_def py_strip_def
        py_isdigit_def py_isdigit_char_def nat_of_digits_def digit_val_def py_isspace_def)
  have miss: "\<forall>p. \<not> host_script_exists (example_machine (Some ''587'')) p"
    by (simp add: example_machine_def)
  have conf: "smtp_configured (smtp_settings ?cfg) \<and> smtp_accepts (example_machine (Some ''587'')) (smtp_host ?cfg) (smtp_port ?cfg)"
    by (simp add: smtp_configured_def truthy_def email_from_def example_machine_def)
  show ?thesis
    using runner_start_missing_scripts [OF cfg miss] conf by simp
qed

lemma py_int_of_str_587 [simp]: "py_int_of_str ''587'' = Some 587"
  by (simp add: py_int_of_str_def py_strip_def py_isspace_def py_isdigit_def py_isdigit_char_def
      nat_of_digits_def digit_val_def)

lemma load_smtp_config_fails:
  "load_smtp_config vars = Inl PortValueError \<longleftrightarrow> (\<exists>v. vars ''SMTP_PORT'' = Some v \<and> py_int_of_str v = None)"
  by (auto simp: load_smtp_config_def getenv_def split: option.split)

text \<open>
  C14: Both runners fail at start-up, before any task runs, exactly when SMTP_PORT is
  set to text int() rejects (the empty string included), although the mail settings
  are otherwise optional.
\<close>

theorem runner_start_port_error:
  "(runner_start m = Some (Inl PortValueError) \<longleftrightarrow>
      (\<exists>v. environ m ''SMTP_PORT'' = Some v \<and> py_int_of_str v = None)) \<and>
   (old_runner_start m = Some (Inl PortValueError) \<longleftrightarrow>
      (\<exists>v. environ m ''SMTP_PORT'' = Some v \<and> py_int_of_str v = None))"
proof (cases "load_smtp_config (environ m)")
  case (Inl e)
  then show ?thesis
    using load_smtp_config_fails [of "environ m"]
    by (cases e) (simp add: runner_start_def old_runner_start_def load_smtp_config_old_eq)
next
  case (Inr cfg)
  then show ?thesis
    using load_smtp_config_fails [of "environ m"]
    by (auto simp: runner_start_def old_runner_start_def load_smtp_config_old_eq)
qed

lemma runner_start_empty_port: "runner_start (example_machine (Some [])) = Some (Inl PortValueError)"
  by (simp add: runner_start_def load_smtp_config_def example_machine_def getenv_def py_int_of_str_def
      py_strip_def py_isdigit_def)

end
