(* ===== verification/Export.thy ===== *)
theory Export
  imports Prelude
begin

text \<open>
  Spreadsheet export: \<open>excel_to_sheet\<close> of \<^verbatim>\<open>src/main/module3.py\<close> (an identical
  copy in \<^verbatim>\<open>src/main/module4.py\<close>).  pandas' \<open>read_excel\<close> is an oracle giving the
  data frame or raising; the service-account file either loads or raises.  The
  Google account is a store from spreadsheet titles to their worksheets, a worksheet
  a grid of cells with its size (\<open>rows \<times> cols\<close>, the limits the Sheets API checks a
  write against).  \<open>get_worksheet(idx)\<close> reads the worksheet list with Python's
  indexing, negative indices counting from the end, and gives \<open>None\<close> out of range, on
  which \<open>worksheet.clear()\<close> raises.  \<open>clear\<close> empties every cell; \<open>update("A1", data)\<close>
  writes the rectangle of \<open>data\<close> from the top-left cell.  Each request to the service
  (opening the spreadsheet with its worksheet list, the clear, the update) can fail
  with an \<open>APIError\<close> (quota, network, permissions): the oracle \<open>api_fails\<close> of the
  environment says which do.  The update is also refused when the rectangle leaves
  the grid, and it raises before any request when the header row holds a label that
  JSON cannot encode (the labels are not passed through \<open>astype(str)\<close>; a date read
  from a header cell is a \<open>Timestamp\<close>).  The error of each failing step is a value
  of \<open>export_error\<close>; the final \<open>print\<close> is not modelled.
\<close>

datatype sheet_call = OpenCall | ClearCall | UpdateCall

datatype export_error =
    ReadExcelFailed
  | CredentialsFailed
  | SpreadsheetNotFound
  | WorksheetMissing
  | ApiError sheet_call
  | HeaderNotJson
  | GridLimitExceeded

text \<open>
  A cell of the frame: \<open>NaN\<close> (an empty Excel cell), or a value given by the text
  \<open>str()\<close> makes of it, which is what \<open>astype(str)\<close> writes.  A column label is either
  a value JSON encodes, given by the text the sheet shows for it, or one it cannot
  encode.
\<close>

datatype xl_cell = XNaN | XVal string

datatype xl_label = Label string | UnencodableLabel

record data_frame =
  df_columns :: "xl_label list"
  df_values :: "xl_cell list list"

record worksheet =
  ws_rows :: nat
  ws_cols :: nat
  ws_cells :: "nat \<Rightarrow> nat \<Rightarrow> string"

type_synonym sheet_store = "string \<rightharpoonup> worksheet list"

record export_env =
  read_excel :: "path \<Rightarrow> data_frame option"
  creds_load :: bool
  api_fails :: "sheet_call \<Rightarrow> bool"

text \<open>\<open>df.fillna('').astype(str)\<close> of one cell.\<close>

definition cell_text :: "xl_cell \<Rightarrow> string" where
  "cell_text c = (case c of XNaN \<Rightarrow> [] | XVal v \<Rightarrow> v)"

definition label_json :: "xl_label \<Rightarrow> string option" where
  "label_json l = (case l of Label s \<Rightarrow> Some s | UnencodableLabel \<Rightarrow> None)"

text \<open>
  \<open>data = [df.columns.tolist()] + df.fillna('').astype(str).values.tolist()\<close> as the
  request body encodes it; \<open>None\<close> when a label cannot be encoded.  The assignment of
  \<open>data\<close> just before it is overwritten without effect.
\<close>

definition export_rows :: "data_frame \<Rightarrow> string list list option" where
  "export_rows df =
     map_option (\<lambda>hdr. hdr # map (map cell_text) (df_values df)) (those (map label_json (df_columns df)))"

text \<open>The cell at row \<open>r\<close>, column \<open>c\<close> of a list of rows, empty outside it.\<close>

definition grid_cell :: "string list list \<Rightarrow> nat \<Rightarrow> nat \<Rightarrow> string" where
  "grid_cell data r c = (if r < length data \<and> c < length (data ! r) then data ! r ! c else [])"

definition worksheet_clear :: "worksheet \<Rightarrow> worksheet" where
  "worksheet_clear ws = ws\<lparr>ws_cells := (\<lambda>r c. [])\<rparr>"

definition fits_grid :: "string list list \<Rightarrow> worksheet \<Rightarrow> bool" where
  "fits_grid data ws \<longleftrightarrow> length data \<le> ws_rows ws \<and> list_all (\<lambda>row. length row \<le> ws_cols ws) data"

definition worksheet_update_a1 :: "export_env \<Rightarrow> data_frame \<Rightarrow> worksheet \<Rightarrow> export_error + worksheet" where
  "worksheet_update_a1 env df ws =
     (case export_rows df of
        None \<Rightarrow> Inl HeaderNotJson
      | Some data \<Rightarrow>
          if api_fails env UpdateCall then Inl (ApiError UpdateCall)
          else if fits_grid data ws then
            Inr (ws\<lparr>ws_cells := (\<lambda>r c. if r < length data \<and> c < length (data ! r)
                                       then data ! r ! c else ws_cells ws r c)\<rparr>)
          else Inl GridLimitExceeded)"

definition excel_to_sheet ::
  "export_env \<Rightarrow> path \<Rightarrow> string \<Rightarrow> int \<Rightarrow> sheet_store \<Rightarrow> (export_error + unit) \<times> sheet_store" where
  "excel_to_sheet env excel_file sheet_file idx st =
     (case read_excel env excel_file of
        None \<Rightarrow> (Inl ReadExcelFailed, st)
      | Some df \<Rightarrow>
          if \<not> creds_load env then (Inl CredentialsFailed, st)
          else if api_fails env OpenCall then (Inl (ApiError OpenCall), st)
          else (case st sheet_file of
                  None \<Rightarrow> (Inl SpreadsheetNotFound, st)
                | Some wss \<Rightarrow>
                    (case py_index (length wss) idx of
                       None \<Rightarrow> (Inl WorksheetMissing, st)
                     | Some i \<Rightarrow>
                         if api_fails env ClearCall then (Inl (ApiError ClearCall), st)
                         else
                           (let ws = worksheet_clear (wss ! i);
                                st1 = st(sheet_file \<mapsto> wss[i := ws])
                            in case worksheet_update_a1 env df ws of
                                 Inl e \<Rightarrow> (Inl e, st1)
                               | Inr ws' \<Rightarrow> (Inr (), st(sheet_file \<mapsto> wss[i := ws']))))))"

text \<open>The copy in \<^verbatim>\<open>module4.py\<close>, translated on its own.\<close>

definition excel_to_sheet4 ::
  "export_env \<Rightarrow> path \<Rightarrow> string \<Rightarrow> int \<Rightarrow> sheet_store \<Rightarrow> (export_error + unit) \<times> sheet_store" where
  "excel_to_sheet4 env excel_file sheet_file idx st =
     (case read_excel env excel_file of
        None \<Rightarrow> (Inl ReadExcelFailed, st)
      | Some df \<Rightarrow>
          if \<not> creds_load env then (Inl CredentialsFailed, st)
          else if api_fails env OpenCall then (Inl (ApiError OpenCall), st)
          else (case st sheet_file of
                  None \<Rightarrow> (Inl SpreadsheetNotFound, st)
                | Some wss \<Rightarrow>
                    (case py_index (length wss) idx of
                       None \<Rightarrow> (Inl WorksheetMissing, st)
                     | Some i \<Rightarrow>
                         if api_fails env ClearCall then (Inl (ApiError ClearCall), st)
                         else
                           (let ws = worksheet_clear (wss ! i);
                                st1 = st(sheet_file \<mapsto> wss[i := ws])
                            in case worksheet_update_a1 env df ws of
                                 Inl e \<Rightarrow> (Inl e, st1)
                               | Inr ws' \<Rightarrow> (Inr (), st(sheet_file \<mapsto> wss[i := ws']))))))"

text \<open>The errors raised after \<open>worksheet.clear()\<close> has emptied the worksheet.\<close>

definition after_clear_error :: "export_error \<Rightarrow> bool" where
  "after_clear_error e \<longleftrightarrow> e = ApiError UpdateCall \<or> e = HeaderNotJson \<or> e = GridLimitExceeded"

text \<open>Examples: a spreadsheet \<open>report\<close> of two worksheets, and a two-row frame.\<close>

definition example_sheet :: "nat \<Rightarrow> worksheet" where
  "example_sheet n = \<lparr>ws_rows = n, ws_cols = 2, ws_cells = (\<lambda>r c. ''old'')\<rparr>"

definition example_store :: sheet_store where
  "example_store = [''report'' \<mapsto> [example_sheet 10, example_sheet 2]]"

definition example_env :: export_env where
  "example_env = \<lparr>read_excel = (\<lambda>p. Some \<lparr>df_columns = [Label ''stt'', Label ''file_path''],
                     df_values = [[XVal ''1'', XVal ''a.mp4''], [XVal ''2'', XNaN]]\<rparr>),
                  creds_load = True, api_fails = (\<lambda>c. False)\<rparr>"

lemma excel_to_sheet4_eq: "excel_to_sheet4 = excel_to_sheet"
  by (intro ext) (simp only: excel_to_sheet4_def excel_to_sheet_def)

lemma update_a1_cleared:
  "export_rows df = Some data \<Longrightarrow> \<not> api_fails env UpdateCall \<Longrightarrow> fits_grid data ws \<Longrightarrow>
   worksheet_update_a1 env df (worksheet_clear ws) = Inr (ws\<lparr>ws_cells := grid_cell data\<rparr>)"
  by (simp add: worksheet_update_a1_def worksheet_clear_def fits_grid_def grid_cell_def fun_eq_iff)

lemma update_a1_error: "worksheet_update_a1 env df ws = Inl e \<Longrightarrow> after_clear_error e"
  by (auto simp: worksheet_update_a1_def after_clear_error_def split: option.splits if_splits)

text \<open>
  C8: A successful export leaves the target worksheet holding exactly the header and
  the rows of the frame from cell A1, every other cell of it empty, its size unchanged;
  no other worksheet or spreadsheet changes.  The target is the worksheet Python's
  indexing picks, so a negative index writes a worksheet counted from the end.
\<close>

theorem excel_to_sheet_writes:
  assumes "read_excel env x = Some df" "creds_load env" "\<forall>c. \<not> api_fails env c" "st f = Some wss"
    "py_index (length wss) idx = Some i" "export_rows df = Some data" "fits_grid data (wss ! i)"
  shows "excel_to_sheet env x f idx st =
           (Inr (), st(f \<mapsto> wss[i := (wss ! i)\<lparr>ws_cells := grid_cell data\<rparr>]))"
  using assms by (simp add: excel_to_sheet_def update_a1_cleared)

lemma excel_to_sheet_writes_example:
  "excel_to_sheet example_env ''x.xlsx'' ''report'' (-2) example_store =
     (Inr (), example_store(''report'' \<mapsto>
        [(example_sheet 10)\<lparr>ws_cells := grid_cell [[''stt'', ''file_path''], [''1'', ''a.mp4''], [''2'', []]]\<rparr>,
         example_sheet 2]))"
  using excel_to_sheet_writes [of example_env "''x.xlsx''" _ "example_store" "''report''" _ "-2" 0
      "[[''stt'', ''file_path''], [''1'', ''a.mp4''], [''2'', []]]"]
  by (simp add: example_env_def example_store_def py_index_def export_rows_def cell_text_def label_json_def
      fits_grid_def example_sheet_def)

text \<open>
  C9: A failed export leaves the account as it was when it fails before
  \<open>worksheet.clear()\<close> has run (the Excel file, the credentials, opening the
  spreadsheet, the index, or the clear request itself); every failure after it (the
  update refused by the API, beyond the grid, or a header label JSON cannot encode)
  leaves the target worksheet cleared, its previous contents lost although nothing
  was written.
\<close>

theorem excel_to_sheet_failure:
  assumes "excel_to_sheet env x f idx st = (Inl e, st')"
  shows "(\<not> after_clear_error e \<and> st' = st) \<or>
         (after_clear_error e \<and> (\<exists>wss i. st f = Some wss \<and> py_index (length wss) idx = Some i \<and>
             st' = st(f \<mapsto> wss[i := worksheet_clear (wss ! i)])))"
  using assms update_a1_error
  by (auto simp: excel_to_sheet_def after_clear_error_def Let_def split: option.splits if_splits sum.splits)

lemma excel_to_sheet_failure_example:
  "excel_to_sheet example_env ''x.xlsx'' ''report'' 1 example_store =
     (Inl GridLimitExceeded, example_store(''report'' \<mapsto> [example_sheet 10, worksheet_clear (example_sheet 2)]))
   \<and> after_clear_error GridLimitExceeded
   \<and> (\<exists>wss i. example_store ''report'' = Some wss \<and> py_index (length wss) 1 = Some i \<and>
       example_store(''report'' \<mapsto> [example_sheet 10, worksheet_clear (example_sheet 2)]) =
       example_store(''report'' \<mapsto> wss[i := worksheet_clear (wss ! i)]))"
proof -
  have run: "excel_to_sheet example_env ''x.xlsx'' ''report'' 1 example_store =
     (Inl GridLimitExceeded, example_store(''report'' \<mapsto> [example_sheet 10, worksheet_clear (example_sheet 2)]))"
    by (simp add: excel_to_sheet_def example_env_def example_store_def py_index_def export_rows_def label_json_def
        cell_text_def worksheet_update_a1_def fits_grid_def example_sheet_def worksheet_clear_def)
  have "after_clear_error GridLimitExceeded" by (simp add: after_clear_error_def)
  then show ?thesis
    using excel_to_sheet_failure [OF run] run by auto
qed

text \<open>A date in the header row: the worksheet is emptied and nothing is written.\<close>

lemma excel_to_sheet_date_header:
  "excel_to_sheet (example_env\<lparr>read_excel := (\<lambda>p. Some \<lparr>df_columns = [Label ''stt'', UnencodableLabel],
                     df_values = []\<rparr>)\<rparr>) ''x.xlsx'' ''report'' 0 example_store =
     (Inl HeaderNotJson, example_store(''report'' \<mapsto> [worksheet_clear (example_sheet 10), example_sheet 2]))"
  by (simp add: excel_to_sheet_def example_env_def example_store_def py_index_def export_rows_def label_json_def
      worksheet_update_a1_def)

end
