(* ===== verification/Debug.thy ===== *)
theory Debug
  imports Prelude
begin

text \<open>
  Debug probe: \<open>print_video_info\<close> of \<^verbatim>\<open>src/main/module3.py\<close> (an identical copy in
  \<^verbatim>\<open>src/main/module4.py\<close>).  Its only effect is what it prints, so it is modelled as the
  list of lines it prints, each line a constructor carrying the values the f-string
  shows (the Vietnamese labels and the \<open>:.2f\<close> rounding are not modelled).  The
  \<open>ffprobe\<close> call with \<open>check=True\<close> followed by \<open>json.loads\<close> is an oracle giving the
  parsed document or the exception raised.  A JSON value of a stream field is the text
  \<open>str()\<close> makes of it, \<open>None\<close> when the key is absent (printed as \<open>None\<close>).
  The whole body is inside \<open>try ... except Exception\<close>: an exception ends the output
  with one error line, after the lines already printed.
\<close>

datatype pv_exc =
    ProbeFailed
  | EvalTypeError
  | EvalZeroDivision
  | EvalInvalid
  | DurationValueError

record stream_info =
  codec_type :: "string option"
  codec_name :: "string option"
  width :: "string option"
  height :: "string option"
  r_frame_rate :: "string option"
  pix_fmt :: "string option"
  sample_rate :: "string option"
  channels :: "string option"

text \<open>
  The parsed document: its \<open>streams\<close> (\<open>None\<close> when the key is absent) and the
  \<open>duration\<close> of its \<open>format\<close> (\<open>None\<close> when either key is absent).
\<close>

record probe_doc =
  doc_streams :: "stream_info list option"
  doc_duration :: "string option"

type_synonym probe_json = "path \<Rightarrow> pv_exc + probe_doc"

datatype pv_line =
    Checking path
  | VideoHeader
  | VideoCodec "string option"
  | Resolution "string option" "string option"
  | Fps real
  | PixelFormat "string option"
  | AudioHeader
  | AudioCodec "string option"
  | SampleRate "string option"
  | Channels "string option"
  | Duration real
  | ErrorLine pv_exc

text \<open>
  \<open>eval(stream.get('r_frame_rate'))\<close>.  \<open>eval(None)\<close> raises \<open>TypeError\<close>.  ffprobe
  writes a frame rate as \<open>n/d\<close> with decimal numerals \<open>n\<close> and \<open>d\<close>: \<open>eval\<close> divides,
  and raises \<open>ZeroDivisionError\<close> on \<open>0/0\<close>, which ffprobe writes for streams of
  unknown rate.  A numeral with a leading zero (other than \<open>0\<close>, \<open>00\<close>, ...) is a
  \<open>SyntaxError\<close> of Python 3.  Text
  of any other shape is taken to raise (\<open>eval\<close> would run it as an expression).
\<close>

definition py_decimal :: "string \<Rightarrow> bool" where
  "py_decimal s \<longleftrightarrow> py_isdigit s \<and> (hd s = CHR ''0'' \<longrightarrow> list_all (\<lambda>c. c = CHR ''0'') s)"

definition eval_rate :: "string option \<Rightarrow> pv_exc + real" where
  "eval_rate v =
     (case v of
        None \<Rightarrow> Inl EvalTypeError
      | Some s \<Rightarrow>
          (case py_split_on (CHR ''/'') s of
             [n, d] \<Rightarrow>
               if py_decimal n \<and> py_decimal d then
                 (if nat_of_digits d = 0 then Inl EvalZeroDivision
                  else Inr (real (nat_of_digits n) / real (nat_of_digits d)))
               else Inl EvalInvalid
           | _ \<Rightarrow> Inl EvalInvalid))"

text \<open>\<open>float(format_info.get("duration", 0))\<close>.\<close>

definition duration_value :: "string option \<Rightarrow> pv_exc + real" where
  "duration_value v =
     (case v of
        None \<Rightarrow> Inr 0
      | Some s \<Rightarrow> (case py_float s of None \<Rightarrow> Inl DurationValueError | Some d \<Rightarrow> Inr d))"

text \<open>
  The loop over the streams: the lines printed and the exception that stopped it, if
  any.  A video stream prints its codec and resolution before the frame rate is
  evaluated; streams of other types print nothing.
\<close>

fun print_streams :: "stream_info list \<Rightarrow> pv_line list \<times> pv_exc option" where
  "print_streams [] = ([], None)"
| "print_streams (st # sts) =
     (if codec_type st = Some ''video'' then
        (let hdr = [VideoHeader, VideoCodec (codec_name st), Resolution (width st) (height st)] in
         case eval_rate (r_frame_rate st) of
           Inl e \<Rightarrow> (hdr, Some e)
         | Inr fps \<Rightarrow>
             (let (ls, e) = print_streams sts in (hdr @ [Fps fps, PixelFormat (pix_fmt st)] @ ls, e)))
      else if codec_type st = Some ''audio'' then
        (let (ls, e) = print_streams sts in
         ([AudioHeader, AudioCodec (codec_name st), SampleRate (sample_rate st), Channels (channels st)] @ ls, e))
      else print_streams sts)"

definition print_video_info :: "probe_json \<Rightarrow> path \<Rightarrow> pv_line list" where
  "print_video_info probe video_path =
     Checking video_path #
       (case probe video_path of
          Inl e \<Rightarrow> [ErrorLine e]
        | Inr info \<Rightarrow>
            (case print_streams (case doc_streams info of None \<Rightarrow> [] | Some sts \<Rightarrow> sts) of
               (ls, Some e) \<Rightarrow> ls @ [ErrorLine e]
             | (ls, None) \<Rightarrow>
                 ls @ (case duration_value (doc_duration info) of
                         Inl e \<Rightarrow> [ErrorLine e]
                       | Inr d \<Rightarrow> [Duration d])))"

text \<open>The copy in \<^verbatim>\<open>module4.py\<close>, translated on its own.\<close>

definition print_video_info4 :: "probe_json \<Rightarrow> path \<Rightarrow> pv_line list" where
  "print_video_info4 probe video_path =
     Checking video_path #
       (case probe video_path of
          Inl e \<Rightarrow> [ErrorLine e]
        | Inr info \<Rightarrow>
            (case print_streams (case doc_streams info of None \<Rightarrow> [] | Some sts \<Rightarrow> sts) of
               (ls, Some e) \<Rightarrow> ls @ [ErrorLine e]
             | (ls, None) \<Rightarrow>
                 ls @ (case duration_value (doc_duration info) of
                         Inl e \<Rightarrow> [ErrorLine e]
                       | Inr d \<Rightarrow> [Duration d])))"

text \<open>
  Reference: the block of lines one stream prints when nothing raises, and whether a
  stream's printing raises.
\<close>

definition stream_block :: "stream_info \<Rightarrow> pv_line list" where
  "stream_block st =
     (if codec_type st = Some ''video'' then
        [VideoHeader, VideoCodec (codec_name st), Resolution (width st) (height st),
         Fps (projr (eval_rate (r_frame_rate st))), PixelFormat (pix_fmt st)]
      else if codec_type st = Some ''audio'' then
        [AudioHeader, AudioCodec (codec_name st), SampleRate (sample_rate st), Channels (channels st)]
      else [])"

definition stream_ok :: "stream_info \<Rightarrow> bool" where
  "stream_ok st = (if codec_type st = Some ''video'' then \<not> isl (eval_rate (r_frame_rate st)) else True)"

text \<open>
  Reference: the report a document gives, in closed form: the blocks of the streams
  before the first one whose printing raises, then either the duration line or the
  three lines that stream prints before its frame rate raises, and the error line.
\<close>

definition probe_report :: "probe_doc \<Rightarrow> pv_line list" where
  "probe_report info =
     (let sts = (case doc_streams info of None \<Rightarrow> [] | Some sts \<Rightarrow> sts) in
      concat (map stream_block (takeWhile stream_ok sts)) @
      (case dropWhile stream_ok sts of
         [] \<Rightarrow> (case duration_value (doc_duration info) of
                  Inl e \<Rightarrow> [ErrorLine e]
                | Inr d \<Rightarrow> [Duration d])
       | st # _ \<Rightarrow> [VideoHeader, VideoCodec (codec_name st), Resolution (width st) (height st),
                     ErrorLine (projl (eval_rate (r_frame_rate st)))]))"

definition is_last_line :: "pv_line \<Rightarrow> bool" where
  "is_last_line l = (case l of ErrorLine _ \<Rightarrow> True | Duration _ \<Rightarrow> True | _ \<Rightarrow> False)"

text \<open>Example: a cover-art stream of unknown rate before the audio stream.\<close>

definition example_video :: stream_info where
  "example_video = \<lparr>codec_type = Some ''video'', codec_name = Some ''mjpeg'', width = Some ''600'',
     height = Some ''600'', r_frame_rate = Some ''0/0'', pix_fmt = Some ''yuvj420p'',
     sample_rate = None, channels = None\<rparr>"

definition example_audio :: stream_info where
  "example_audio = \<lparr>codec_type = Some ''audio'', codec_name = Some ''aac'', width = None,
     height = None, r_frame_rate = Some ''0/0'', pix_fmt = None,
     sample_rate = Some ''44100'', channels = Some ''2''\<rparr>"

lemma print_video_info4_eq: "print_video_info4 = print_video_info"
  by (intro ext) (simp only: print_video_info4_def print_video_info_def)

lemma print_streams_ok:
  "list_all stream_ok sts \<Longrightarrow> print_streams sts = (concat (map stream_block sts), None)"
  by (induction sts) (auto simp: stream_ok_def stream_block_def Let_def split: sum.splits)

lemma print_streams_ok_Cons:
  "stream_ok st \<Longrightarrow> print_streams (st # sts) = (stream_block st @ fst (print_streams sts), snd (print_streams sts))"
  by (auto simp: stream_ok_def stream_block_def Let_def split: sum.splits prod.splits)

lemma print_streams_fail_Cons:
  "\<not> stream_ok st \<Longrightarrow> print_streams (st # sts) =
     ([VideoHeader, VideoCodec (codec_name st), Resolution (width st) (height st)],
      Some (projl (eval_rate (r_frame_rate st))))"
  by (auto simp: stream_ok_def Let_def split: sum.splits if_splits)

lemma print_streams_split:
  "print_streams sts =
     (case dropWhile stream_ok sts of
        [] \<Rightarrow> (concat (map stream_block sts), None)
      | st # _ \<Rightarrow> (concat (map stream_block (takeWhile stream_ok sts)) @
                     [VideoHeader, VideoCodec (codec_name st), Resolution (width st) (height st)],
                   Some (projl (eval_rate (r_frame_rate st)))))"
proof (induction sts)
  case (Cons st sts)
  show ?case
  proof (cases "stream_ok st")
    case True
    show ?thesis
    proof (cases "dropWhile stream_ok sts")
      case Nil
      with True Cons.IH show ?thesis
        by (simp add: print_streams_ok_Cons del: print_streams.simps(2) dropWhile_eq_Nil_conv)
    next
      case (Cons y ys)
      with True Cons.IH show ?thesis
        by (simp add: print_streams_ok_Cons del: print_streams.simps(2))
    qed
  next
    case False
    then show ?thesis by (simp add: print_streams_fail_Cons del: print_streams.simps(2))
  qed
qed simp

lemma report_loop:
  "(case print_streams sts of (ls, Some e) \<Rightarrow> ls @ [ErrorLine e] | (ls, None) \<Rightarrow> ls @ tl_lines) =
     concat (map stream_block (takeWhile stream_ok sts)) @
     (case dropWhile stream_ok sts of
        [] \<Rightarrow> tl_lines
      | st # _ \<Rightarrow> [VideoHeader, VideoCodec (codec_name st), Resolution (width st) (height st),
                    ErrorLine (projl (eval_rate (r_frame_rate st)))])"
proof (cases "dropWhile stream_ok sts")
  case Nil
  moreover have "takeWhile stream_ok sts = sts"
    using Nil by (metis append_Nil2 takeWhile_dropWhile_id)
  ultimately show ?thesis
    by (simp only: print_streams_split list.case prod.case option.case)
qed (simp add: print_streams_split del: print_streams.simps(2))

lemma stream_blocks_not_last [simp]: "\<not> list_ex is_last_line (concat (map stream_block xs))"
  by (induction xs) (simp_all add: stream_block_def is_last_line_def)

text \<open>
  C12: The printed report is the closed-form reference: the blocks of the streams up to
  the first video stream whose frame rate cannot be evaluated, then the duration, or
  the lines that stream printed and the error line.
\<close>

theorem print_video_info_report:
  "print_video_info probe p =
     Checking p # (case probe p of Inl e \<Rightarrow> [ErrorLine e] | Inr info \<Rightarrow> probe_report info)"
  by (simp add: print_video_info_def probe_report_def report_loop Let_def split: sum.split)

text \<open>
  Print_video_info never raises: its output is the Checking line, lines of stream
  blocks, and exactly one final line, the duration or the error that stopped it.
\<close>

lemma print_video_info_total:
  "\<exists>body l. print_video_info probe p = Checking p # body @ [l] \<and> is_last_line l \<and>
     \<not> list_ex is_last_line body"
  by (auto simp: print_video_info_def report_loop is_last_line_def split: sum.split list.split)

lemma print_video_info_cover_art:
  "print_video_info (\<lambda>p. Inr \<lparr>doc_streams = Some [example_video, example_audio], doc_duration = Some ''12.5''\<rparr>) ''a.mp4'' =
     [Checking ''a.mp4'', VideoHeader, VideoCodec (Some ''mjpeg''), Resolution (Some ''600'') (Some ''600''),
      ErrorLine EvalZeroDivision]"
  by (simp add: print_video_info_def example_video_def example_audio_def eval_rate_def py_split_on_def
      py_decimal_def py_isdigit_def py_isdigit_char_def nat_of_digits_def digit_val_def)

end
