(* ===== verification/Spec2Isabelle.thy ===== *)
theory Spec2Isabelle
  imports SingleAllocator Module4 Pool Runner Startup Export Debug
begin

text \<open>
  \<^bold>\<open>A verification library for the video-catalog and concatenation tool.\<close>

  \<^medskip>
  \<^bold>\<open>The program.\<close>  A catalog of video assets on network shares is kept as a CSV
  ledger with the columns \<open>stt, file_path, duration, lastest_used_value\<close>.  Two
  writers maintain it: the Synchronizer (\<^verbatim>\<open>src/preprocess_data/update_data.py\<close>)
  rebuilds it from a scan of a folder, numbering the assets \<open>1..N\<close> in file-name
  order, and the Allocator (\<open>check_and_add_next_spidey_videos\<close> in
  \<^verbatim>\<open>src/main/module3.py\<close>) appends the next numbered clips.  A caller selects
  entries by \<open>stt\<close> (\<open>get_list_video\<close>), and the pipeline of \<^verbatim>\<open>module3.py\<close>
  (copied in \<^verbatim>\<open>module4.py\<close>) normalises each clip with ffmpeg on a pool of six
  workers and joins the results by stream copy (\<open>normalize_video\<close>,
  \<open>concat_video\<close>, \<open>auto_concat\<close>).  Durations come from ffprobe or moviepy.  The
  scripts are driven by auto-runners (\<^verbatim>\<open>src/main/main_loop.py\<close>,
  \<^verbatim>\<open>old_loop.py\<close>, \<^verbatim>\<open>loop.py\<close>) that run them in turn and mail alerts.

  \<^medskip>
  \<^bold>\<open>The theories.\<close>
  \<^item> \<open>Prelude\<close>: the Python semantics the components share: \<open>str\<close> operations,
    \<open>int()\<close>/\<open>round()\<close>, \<open>ntpath\<close> \<open>basename\<close>/\<open>join\<close>/\<open>splitext\<close>, dictionaries
    built by comprehension, and generic lemmas on lists and sorting.
  \<^item> \<open>Probe\<close>: \<open>ffprobe_duration_seconds\<close>, \<open>get_video_duration\<close> and the
    \<open>M:SS\<close> writers, with the tool as an oracle \<open>path \<Rightarrow> string option\<close>.
  \<^item> \<open>Scanner\<close>: directories as a tree (\<open>node\<close>), \<open>os.walk\<close> as the mutually
    recursive \<open>walk\<close>/\<open>walk_subdirs\<close>, \<open>get_file_list\<close> (update_data.py), the
    allocator's walk \<open>spidey_all_files\<close> and \<open>find_first_vid\<close> (module4.py).
  \<^item> \<open>Ledger\<close>: the row record and the file (\<open>ledger_file\<close>: absent, unreadable, or
    a table), \<open>read_existing_csv\<close>, \<open>build_row\<close>/\<open>build_rows\<close> and \<open>sync\<close>
    (update_data.py) and the script's entry point \<open>update_data_main\<close>, with the
    rebuild invariant \<open>ledger_wf\<close>.
  \<^item> \<open>Allocator\<close>: the append mode of module3.py as a fold over \<open>1..batch_size\<close>
    (\<open>alloc_step\<close>, \<open>append_row\<close>) and the selection \<open>get_list_video\<close>.
  \<^item> \<open>SingleAllocator\<close>: the older one-video allocator of \<^verbatim>\<open>src/test.py\<close>
    (\<open>check_and_add_next_spidey_video\<close>), which picks the first match in walk order.
  \<^item> \<open>Pipeline\<close>: \<open>normalize_command\<close>/\<open>normalize_video\<close>, the manifest
    (\<open>manifest_line\<close>, \<open>concat_list\<close>), \<open>concat_video\<close> and \<open>auto_concat\<close> over a
    set of files, tools as oracles (\<open>which\<close>, exit code \<open>run\<close>); every exception a
    value of \<open>pipe_error\<close>.  The reader of the manifest on ffmpeg's side
    (\<open>ff_read_manifest\<close>) is modelled from ffmpeg's documentation.
  \<^item> \<open>Module4\<close>: the copies of \<open>normalize_video\<close>, \<open>concat_video\<close> and
    \<open>auto_concat\<close> in \<^verbatim>\<open>src/main/module4.py\<close>, translated on their own and proved
    equal to the module3.py originals (\<open>auto_concat4_eq\<close>), so the Pipeline and Pool
    theorems hold of both; \<open>get_video_duration4\<close> (in \<open>Probe\<close>) is the copy that
    \<open>find_first_vid\<close> calls.
  \<^item> \<open>Pool\<close>: the \<open>ThreadPoolExecutor\<close> block of \<open>auto_concat\<close> as an inductive
    step relation \<open>pool_step\<close> over \<open>pool_state\<close> (queue, running, finished, main
    thread), reachability \<open>pool_reach\<close> and the invariant \<open>pool_inv\<close>.
  \<^item> \<open>Runner\<close>: the task table, \<open>run_task_once\<close>, \<open>send_error_email\<close> and
    \<open>main_loop\<close> of main_loop.py, \<open>old_main_loop\<close> of old_loop.py and
    \<open>loop_main\<close> of loop.py; the loops are \<open>partial_function (option)\<close>, so a
    loop that never stops is the value \<open>None\<close>.
  \<^item> \<open>Startup\<close>: what running main_loop.py or old_loop.py as a script does: the
    SMTP settings read from the environment at import (\<open>load_smtp_config\<close>, where
    \<open>int(SMTP_PORT)\<close> may raise), the runner's environment built from them
    (\<open>runner_env_of\<close>) and the \<open>__main__\<close> blocks (\<open>runner_start\<close>,
    \<open>old_runner_start\<close>), over a \<open>machine\<close> record of environment variables, SMTP
    servers, files and processes.
  \<^item> \<open>Export\<close>: \<open>excel_to_sheet\<close> of module3.py (and its module4.py copy): the frame
    read by pandas (an oracle), the Google account as a store from spreadsheet titles
    to worksheet lists, each worksheet a cell grid with its size; \<open>get_worksheet\<close>
    with Python indexing, \<open>clear\<close>, then \<open>update("A1", ...)\<close>; every request can
    fail with an API error, the update is refused beyond the grid and raises on a
    header label JSON cannot encode.
  \<^item> \<open>Debug\<close>: \<open>print_video_info\<close> of module3.py (and its copy) as the list of lines it
    prints, each a constructor with the values shown; \<open>eval\<close> of the frame rate and
    \<open>float\<close> of the duration may raise, and the \<open>except\<close> ends the output with an
    error line.
  \<^item> this theory: the properties that join the components: every ledger writer keeps
    the ledger typed (C21) and selection after a rebuild is positional (C34).

  \<^medskip>
  \<^bold>\<open>What is proved\<close> (claims C1 to C36, each after a \<open>text\<close> naming it).
  \<^item> Probe (C1, C2): the duration text round-trips through its reader; a probe
    failure gives the sentinel \<open>0:00\<close>, never an exception.
  \<^item> Scanner (C3): \<open>get_file_list\<close> lists exactly the video files of the walked
    directories whose own name lacks \<open>quay\<close>, so files in sub-folders of a \<open>quay\<close>
    folder are listed (an example is the lemma \<open>get_file_list_quay_subdir\<close>).
  \<^item> Ledger (C4 to C7): the rebuilt ledger satisfies \<open>ledger_wf\<close>; its paths, the
    reported diff, independence from the walk order.  The written ledger does not
    depend on the ledger read (\<open>sync_independent\<close>).  The two places the code
    departs from the spec (ties in the sort, dependence on the clock) are the lemmas \<open>sync_name_tie_order\<close> and
    \<open>sync_clock_dependent\<close>.
  \<^item> Allocator (C10, C11, C13, C35): existing rows are kept and only unregistered
    paths are appended; a file that is the first match of two numbers of a batch is
    appended twice; the one-video allocator equals the batch allocator with batch size 1 when the listing is sorted (equivalence,
    C35).  The spec's scenario and the digit-adjacent match are the lemmas
    \<open>allocator_scenario\<close> and \<open>allocator_digit_adjacent_match\<close>.
  \<^item> Pipeline (C15 to C20): the normalisation profile, success and no partial
    concatenation of \<open>auto_concat\<close>, the manifest round trip, that the round trip
    holds exactly when no path contains a single quote, and that an output path equal
    to an intermediate file is deleted after a reported success (the fractional
    bitrate defect is the lemma \<open>normalize_fractional_bitrate\<close>).  No property speaks of
    the files a failed run leaves, since partial ffmpeg outputs are not modelled.
  \<^item> Pool (C22 to C25): the bound of six workers with FIFO start (invariant),
    well-foundedness of the step relation (termination), refinement of the
    sequential outcome model used by \<open>auto_concat\<close>, liveness; that a failure does
    not cancel queued jobs is the lemma \<open>pool_failure_keeps_queue\<close>.
  \<^item> Runner (C27 to C33, C36): partial correctness, termination when all runs
    fail, divergence with a healthy task, one alert per task (which also shows the lost
    process output), the effect of a failed run, the bound on an alert's size, the
    redundancy of the second \<open>enabled\<close> test of a pass (equivalence with the
    reference \<open>run_listed\<close>, C33), and the only exit of loop.py.  The alert flood of
    old_loop.py is the lemma \<open>old_loop_alert_every_pass\<close>.
  \<^item> Startup (C14, C26): both runners stop at import, before any task, exactly when
    \<open>SMTP_PORT\<close> is set to a non-integer (the empty string included); on a machine
    where no script exists the runner stops after one pass with every task disabled,
    no process started, and one alert per task exactly when mail is configured and
    the server accepts it.
  \<^item> Export (C8, C9): a successful export leaves the target worksheet holding
    exactly the frame's text from A1 (old contents gone, other worksheets untouched,
    negative indices counting from the end); a failure before the clear changes
    nothing, and every failure of the update after it (API error, grid limit, a header
    label JSON cannot encode) leaves the worksheet cleared and empty.
  \<^item> Debug (C12): the printed report equals a closed-form reference (the blocks of
    the streams before the first unevaluable frame rate, then the duration or the
    error); \<open>print_video_info_total\<close> shows it never raises.
  \<^item> C21: the Synchronizer writes a typed ledger (\<open>ledger_typed\<close>: the four
    columns, every row with its number, path and an \<open>M:SS\<close> duration) whatever it read,
    and both allocators keep a typed ledger typed (type).  C34: selection by \<open>stt\<close> after a rebuild is positional indexing.

  \<^medskip>
  \<^bold>\<open>Bounds and loops.\<close>  No fuel is used.  Structural loops are \<open>fun\<close>s or folds;
  \<open>os.walk\<close> recurses on the finite tree; the runners' \<open>while True\<close> loops are
  \<open>partial_function (option)\<close>, with termination proved where it holds (C28) and
  divergence proved where it does not (C29), and the pool's termination is the
  well-founded measure \<open>pool_measure\<close>.  \<open>max_workers = 6\<close>,
  \<open>MAX_BODY_CHARS = 15000\<close> and \<open>SLEEP_SECONDS = 30\<close> are the constants of the code.

  \<^medskip>
  \<^bold>\<open>Not modelled.\<close>  Console output other than \<open>print_video_info\<close>'s (the
  runners' and scripts' log lines, the stdout re-encoding at start-up); the
  formatting of floats (\<open>:.2f\<close>) and of cells by \<open>str()\<close>, which are kept as the
  values printed or as text given by the frame; \<open>eval\<close> of frame-rate text that is
  not of ffprobe's form \<open>n/d\<close> (taken to raise); the Sheets API beyond clearing,
  writing a rectangle, its grid limit and a request failing (value parsing, sharing);
  the partial output a failed \<open>ffmpeg -y\<close> run may leave; the
  Vietnamese text, host name and clock in alert mails; the
  normalisation of \<open>.\<close> and \<open>..\<close> by \<open>os.path.abspath\<close>, symbolic links, character
  encodings of the CSV file, and the rounding of binary floats (durations are reals).
  External programs (ffmpeg, ffprobe, nvidia-smi, the scripts the runners start) and
  SMTP are oracles; their behaviour is not modelled beyond their exit status and output.
\<close>

text \<open>
  A typed ledger: the file has the four columns, and every row has its \<open>stt\<close>, its path,
  and a duration cell that reads back as \<open>M:SS\<close> seconds.  A real CSV file can break
  this (an empty cell, a duration written by hand, a missing column, an unreadable file).
\<close>

definition row_typed :: "ledger_row \<Rightarrow> bool" where
  "row_typed r \<longleftrightarrow>
     stt r \<noteq> None \<and> file_path r \<noteq> None \<and>
     (case duration r of None \<Rightarrow> False | Some d \<Rightarrow> parse_mmss d \<noteq> None)"

definition ledger_typed :: "ledger_file \<Rightarrow> bool" where
  "ledger_typed f =
     (case f of
        NoFile \<Rightarrow> True
      | Unreadable \<Rightarrow> False
      | Table hdr rows \<Rightarrow> set ledger_cols \<subseteq> set hdr \<and> list_all row_typed rows)"

lemma stt_nth_number_rows: "k < length rows \<Longrightarrow> stt (number_rows rows ! k) = Some (int k + 1)"
proof -
  assume k: "k < length rows"
  have "stt (number_rows rows ! k) = map stt (number_rows rows) ! k" using k by simp
  also have "\<dots> = Some (int k + 1)" using k by (simp add: map_stt_number_rows del: upt_Suc)
  finally show ?thesis .
qed

lemma file_path_nth_number_rows: "k < length rows \<Longrightarrow> file_path (number_rows rows ! k) = file_path (rows ! k)"
  by (metis length_number_rows map_file_path_number_rows nth_map)

lemma find_stt_number_rows:
  assumes "1 \<le> v" "nat v \<le> length rows"
  shows "find (\<lambda>r. stt r = Some v) (number_rows rows) = Some (number_rows rows ! (nat v - 1))"
proof -
  have i: "nat v - 1 < length (number_rows rows)" using assms by simp
  have "stt (number_rows rows ! (nat v - 1)) = Some v" using assms stt_nth_number_rows [of "nat v - 1" rows] by simp
  moreover have "\<forall>j < nat v - 1. stt (number_rows rows ! j) \<noteq> Some v"
    using assms stt_nth_number_rows [of _ rows] by auto
  ultimately show ?thesis using i by (auto simp: find_Some_iff)
qed

lemma concat_selected_paths:
  "\<forall>v \<in> set vs. 1 \<le> v \<and> nat v \<le> length rows \<Longrightarrow>
   concat (map (\<lambda>h. case h of None \<Rightarrow> [] | Some r \<Rightarrow> [file_path r])
       (map (\<lambda>v. Some (number_rows rows ! (nat v - 1))) vs)) =
   map (\<lambda>v. file_path (rows ! (nat v - 1))) vs"
  by (induction vs) (auto simp: file_path_nth_number_rows)

text \<open>
  C34: selection after a rebuild: once \<open>sync\<close> has rewritten the ledger, asking
  \<open>get_list_video\<close> for sequence numbers \<open>v\<close> in \<open>1..N\<close> returns the paths of the
  \<open>v\<close>-th rebuilt rows, in the order asked: the numbers the Synchronizer assigns are
  exactly the positions the Orchestrator's caller selects by.  The result is a list of
  bare paths, not the \<open>(path, duration)\<close> pairs the comment of \<open>get_list_video\<close>
  (module3.py line 138) announces.
\<close>

theorem select_after_sync:
  assumes "\<forall>v \<in> set (requested_stts ls). 1 \<le> v \<and> nat v \<le> length (rebuilt_rows env folder)"
    and "requested_stts ls \<noteq> []"
  shows "get_list_video ls (fst (sync env folder f)) =
           map (\<lambda>v. file_path (rebuilt_rows env folder ! (nat v - 1))) (requested_stts ls)"
proof -
  let ?R = "rebuilt_rows env folder"
  let ?h = "\<lambda>h. case h of None \<Rightarrow> [] | Some r \<Rightarrow> [file_path r]"
  have "get_list_video ls (fst (sync env folder f)) =
        concat (map ?h (map (\<lambda>v. find (\<lambda>r. stt r = Some v) (number_rows ?R)) (requested_stts ls)))"
    using assms(2) by (simp add: sync_file write_csv_def get_list_video_def ledger_cols_def Let_def)
  also have "map (\<lambda>v. find (\<lambda>r. stt r = Some v) (number_rows ?R)) (requested_stts ls) =
             map (\<lambda>v. Some (number_rows ?R ! (nat v - 1))) (requested_stts ls)"
    using assms(1) by (simp add: find_stt_number_rows)
  also have "concat (map ?h (map (\<lambda>v. Some (number_rows ?R ! (nat v - 1))) (requested_stts ls))) =
             map (\<lambda>v. file_path (?R ! (nat v - 1))) (requested_stts ls)"
    using assms(1) by (rule concat_selected_paths)
  finally show ?thesis .
qed

theorem select_after_sync_witness:
  "get_list_video ''1, 2'' (fst (sync \<lparr>tree = [File ''b.mp4'', File ''A.mp4''], ffprobe_run = (\<lambda>_. Some ''75''), mtime = (\<lambda>_. None), clock = 0\<rparr> ''C:'' NoFile)) =
   map (\<lambda>v. file_path (rebuilt_rows \<lparr>tree = [File ''b.mp4'', File ''A.mp4''], ffprobe_run = (\<lambda>_. Some ''75''), mtime = (\<lambda>_. None), clock = 0\<rparr> ''C:'' ! (nat v - 1))) (requested_stts ''1, 2'')"
proof (rule select_after_sync)
  show "\<forall>v \<in> set (requested_stts ''1, 2''). 1 \<le> v \<and>
      nat v \<le> length (rebuilt_rows \<lparr>tree = [File ''b.mp4'', File ''A.mp4''], ffprobe_run = (\<lambda>_. Some ''75''), mtime = (\<lambda>_. None), clock = 0\<rparr> ''C:'')"
    by code_simp
  show "requested_stts ''1, 2'' \<noteq> []" by code_simp
qed

lemma parse_clip_duration_str: "parse_mmss (clip_duration_str d) \<noteq> None"
proof -
  have "min_sec_str 0 = ''0:00''"
    by (simp add: min_sec_str_def py_str_int_def py_format_0d_def zero_pad_def py_str_nat.simps digit_char_def)
  then have "clip_duration_str d = min_sec_str (case d of None \<Rightarrow> 0 | Some x \<Rightarrow> py_round x)"
    by (simp add: clip_duration_str_def split: option.split)
  then show ?thesis by (simp add: parse_min_sec_str)
qed

lemma append_row_typed:
  "ledger_typed f \<Longrightarrow> row_typed r \<Longrightarrow> append_row f r = Some f' \<Longrightarrow> ledger_typed f'"
  by (auto simp: ledger_typed_def append_row_def ledger_cols_def split: ledger_file.splits if_splits)

lemma alloc_row_typed:
  "row_typed \<lparr>stt = Some n, file_path = Some p, duration = Some (clip_duration_str d), lastest_used_value = a\<rparr>"
  by (simp add: row_typed_def parse_clip_duration_str)

lemma alloc_step_typed:
  "ledger_typed (fst st) \<Longrightarrow> ledger_typed (fst (alloc_step env A E L st i))"
  by (auto simp: alloc_step_def Let_def split: option.split
      intro: append_row_typed [OF _ alloc_row_typed])

lemma alloc_fold_typed:
  "ledger_typed (fst st) \<Longrightarrow> ledger_typed (fst (foldl (alloc_step env A E L) st ixs))"
  by (induction ixs arbitrary: st) (simp_all add: alloc_step_typed)

lemma sync_typed: "ledger_typed (fst (sync env folder f))"
proof -
  have "\<forall>r \<in> set (rebuilt_rows env folder). file_path r \<noteq> None \<and>
          (case duration r of None \<Rightarrow> False | Some d \<Rightarrow> parse_mmss d \<noteq> None)"
    by (fastforce simp: rebuilt_rows_def build_rows_mem format_mmss_def parse_min_sec_str
        dest: path_dict_entry build_row_mem)
  then have "list_all row_typed (number_rows (rebuilt_rows env folder))"
    by (auto simp: number_rows_def row_typed_def list_all_iff in_set_enumerate_eq)
  then show ?thesis by (simp add: sync_file write_csv_def ledger_typed_def)
qed

text \<open>
  C21: every ledger writer keeps the ledger typed: the Synchronizer writes a typed file
  whatever file it read, and both allocators, started on a typed file, leave a typed file
  (the rows they append carry a number, a path, and an \<open>M:SS\<close> duration, \<open>0:00\<close> when
  moviepy fails).
\<close>

theorem ledger_writers_well_typed:
  assumes "ledger_typed f"
  shows "ledger_typed (fst (sync env folder g)) \<and>
         ledger_typed (check_and_add_next_spidey_video aenv base f) \<and>
         pred_option (\<lambda>(f', n). ledger_typed f') (check_and_add_next_spidey_videos aenv base b f)"
proof (intro conjI)
  show "ledger_typed (fst (sync env folder g))" by (rule sync_typed)
  show "ledger_typed (check_and_add_next_spidey_video aenv base f)"
    using assms by (auto simp: check_and_add_next_spidey_video_def Let_def split: option.split
      intro: append_row_typed [OF _ alloc_row_typed])
  show "pred_option (\<lambda>(f', n). ledger_typed f') (check_and_add_next_spidey_videos aenv base b f)"
    using alloc_fold_typed [of "(f, 0)"] assms
    by (simp add: check_and_add_next_spidey_videos_def Let_def split_beta split: option.split del: upt_Suc)
qed

theorem ledger_writers_well_typed_witness:
  "ledger_typed (Table ledger_cols [\<lparr>stt = Some 12, file_path = Some ''v12.mp4'', duration = Some ''1:05'', lastest_used_value = None\<rparr>]) \<and>
   ledger_typed (fst (sync \<lparr>tree = [File ''A.mp4''], ffprobe_run = (\<lambda>_. Some ''75''), mtime = (\<lambda>_. None), clock = 0\<rparr> ''C:'' Unreadable)) \<and>
   ledger_typed (check_and_add_next_spidey_video \<lparr>spidey_tree = [File ''spidey 013.mp4''], clip_duration = (\<lambda>_. None),
      alloc_mtime = (\<lambda>_. None), alloc_clock = 0\<rparr> ''S:''
      (Table ledger_cols [\<lparr>stt = Some 12, file_path = Some ''v12.mp4'', duration = Some ''1:05'', lastest_used_value = None\<rparr>])) \<and>
   pred_option (\<lambda>(f', n). ledger_typed f') (check_and_add_next_spidey_videos \<lparr>spidey_tree = [File ''spidey 013.mp4''],
      clip_duration = (\<lambda>_. None), alloc_mtime = (\<lambda>_. None), alloc_clock = 0\<rparr> ''S:'' 2
      (Table ledger_cols [\<lparr>stt = Some 12, file_path = Some ''v12.mp4'', duration = Some ''1:05'', lastest_used_value = None\<rparr>]))"
proof -
  have t: "ledger_typed (Table ledger_cols [\<lparr>stt = Some 12, file_path = Some ''v12.mp4'', duration = Some ''1:05'', lastest_used_value = None\<rparr>])"
    by (simp add: ledger_typed_def row_typed_def parse_mmss_def py_split_on_def py_isdigit_def py_isdigit_char_def
        nat_of_digits_def digit_val_def py_int_of_str_def py_strip_def py_isspace_def)
  show ?thesis using ledger_writers_well_typed [OF t] t by blast
qed

end
